(* ===== verification/Prelude.thy ===== *)
theory Prelude
  imports Main "HOL-Library.Sublist"
begin

text \<open>
  What every component shares: Go's error values and results, sequencing of fallible
  steps, and generic facts on lists, counts and maps.

  A Go function that returns \<open>(T, error)\<close> returns a value of \<open>'a res\<close>: \<open>Ok\<close> for a nil error,
  \<open>Err\<close> for a non-nil one, and \<open>Panic\<close> where the code would stop the goroutine (a nil
  dereference, an index out of range, a failed type assertion, an explicit \<open>panic\<close>).
\<close>

section \<open>Errors and results\<close>

text \<open>The gRPC status codes that the code names; every other code is \<open>OtherCode\<close>.\<close>

datatype code =
    CodeOK | CodeCanceled | CodeUnknown | CodeInvalidArgument | CodeDeadlineExceeded
  | CodeNotFound | CodeAborted | CodeInternal | OtherCode nat

datatype ctxerr = Canceled | DeadlineExceeded

datatype oserr = ENOENT | EEXIST | ENOTDIR | EISDIR | ELOOP | EINVAL | EOTHER nat

text \<open>
  Error values. \<open>ErrMsg\<close> is \<open>errors.New\<close> or \<open>fmt.Errorf\<close> without an error argument (its format
  string and its string arguments), \<open>ErrWrap\<close> is \<open>fmt.Errorf\<close> with the verb \<open>%w\<close>, \<open>ErrText\<close> one
  with \<open>%v\<close> or \<open>%s\<close> of an error (the chain is cut), \<open>StatusErr\<close> is \<open>status.Errorf\<close>, \<open>OsErr\<close> an error of
  the package os at a path, \<open>CtxErr\<close> a context error and \<open>ExtErr\<close> an error made by code
  that is not in the repository.
\<close>

datatype goerr =
    ErrMsg string "string list"
  | ErrWrap string "string list" goerr
  | ErrText string "string list" goerr
  | StatusErr code string "goerr option"
  | OsErr oserr string
  | CtxErr ctxerr
  | ExtErr string

datatype 'a res = Ok 'a | Err goerr | Panic string

fun res_bind :: "'a res \<Rightarrow> ('a \<Rightarrow> 'b res) \<Rightarrow> 'b res" where
  "res_bind (Ok x) f = f x"
| "res_bind (Err e) f = Err e"
| "res_bind (Panic m) f = Panic m"

text \<open>\<open>if err != nil \<close> followed by a return of an error built from it.\<close>

fun on_err :: "(goerr \<Rightarrow> goerr) \<Rightarrow> 'a res \<Rightarrow> 'a res" where
  "on_err g (Ok x) = Ok x"
| "on_err g (Err e) = Err (g e)"
| "on_err g (Panic m) = Panic m"

fun is_ok :: "'a res \<Rightarrow> bool" where
  "is_ok (Ok x) = True"
| "is_ok (Err e) = False"
| "is_ok (Panic m) = False"

text \<open>\<open>os.IsNotExist\<close> looks at the error itself, \<open>errors.Is(err, os.ErrNotExist)\<close> at the whole chain.\<close>

fun os_IsNotExist :: "goerr \<Rightarrow> bool" where
  "os_IsNotExist (OsErr e p) = (e = ENOENT)"
| "os_IsNotExist e = False"

fun errors_Is_NotExist :: "goerr \<Rightarrow> bool" where
  "errors_Is_NotExist (OsErr e p) = (e = ENOENT)"
| "errors_Is_NotExist (ErrWrap f as e) = errors_Is_NotExist e"
| "errors_Is_NotExist e = False"

named_theorems res_simps \<open>equations of results and of sequenced steps\<close>

lemma res_bind_Ok_iff [res_simps]:
  "res_bind r f = Ok y \<longleftrightarrow> (\<exists>x. r = Ok x \<and> f x = Ok y)"
  by (cases r) auto

lemma res_bind_Err_iff [res_simps]:
  "res_bind r f = Err e \<longleftrightarrow> r = Err e \<or> (\<exists>x. r = Ok x \<and> f x = Err e)"
  by (cases r) auto

lemma res_bind_Panic_iff [res_simps]:
  "res_bind r f = Panic m \<longleftrightarrow> r = Panic m \<or> (\<exists>x. r = Ok x \<and> f x = Panic m)"
  by (cases r) auto

lemma on_err_Ok_iff [res_simps]: "on_err g r = Ok x \<longleftrightarrow> r = Ok x"
  by (cases r) auto

lemma on_err_Err_iff [res_simps]: "on_err g r = Err e \<longleftrightarrow> (\<exists>e'. r = Err e' \<and> e = g e')"
  by (cases r) auto

lemma on_err_Panic_iff [res_simps]: "on_err g r = Panic m \<longleftrightarrow> r = Panic m"
  by (cases r) auto

lemma res_bind_cong [fundef_cong]:
  "r = r' \<Longrightarrow> (\<And>x. r' = Ok x \<Longrightarrow> f x = f' x) \<Longrightarrow> res_bind r f = res_bind r' f'"
  by (cases r') auto

lemma is_ok_iff: "is_ok r \<longleftrightarrow> (\<exists>x. r = Ok x)"
  by (cases r) auto

section \<open>Steps that change a state\<close>

text \<open>
  A statement that can fail and that changes a state of type \<open>'s\<close>: it returns its result and the
  state it leaves, also when it fails.
\<close>

type_synonym ('s, 'a) step = "'s \<Rightarrow> 'a res \<times> 's"

definition ret :: "'a \<Rightarrow> ('s, 'a) step" where
  "ret x = (\<lambda>s. (Ok x, s))"

definition fail_with :: "goerr \<Rightarrow> ('s, 'a) step" where
  "fail_with e = (\<lambda>s. (Err e, s))"

definition lift_res :: "'a res \<Rightarrow> ('s, 'a) step" where
  "lift_res r = (\<lambda>s. (r, s))"

definition andThen :: "('s, 'a) step \<Rightarrow> ('a \<Rightarrow> ('s, 'b) step) \<Rightarrow> ('s, 'b) step" where
  "andThen m f = (\<lambda>s. case m s of
     (Ok x, s') \<Rightarrow> f x s'
   | (Err e, s') \<Rightarrow> (Err e, s')
   | (Panic p, s') \<Rightarrow> (Panic p, s'))"

text \<open>The step with its error value replaced, as in \<open>if err != nil { return fmt.Errorf(..., err) }\<close>.\<close>

definition wrapErr :: "(goerr \<Rightarrow> goerr) \<Rightarrow> ('s, 'a) step \<Rightarrow> ('s, 'a) step" where
  "wrapErr g m = (\<lambda>s. (on_err g (fst (m s)), snd (m s)))"

text \<open>For evaluation: the step is run once.\<close>

lemma wrapErr_code [code]: "wrapErr g m = (\<lambda>s. case m s of (r, t) \<Rightarrow> (on_err g r, t))"
  by (simp add: wrapErr_def fun_eq_iff case_prod_beta)

lemma wrapErr_id: "wrapErr (\<lambda>e. e) m = m"
proof
  fix s
  show "wrapErr (\<lambda>e. e) m s = m s" by (cases "m s"; cases "fst (m s)") (simp_all add: wrapErr_def)
qed

text \<open>The step with its result as a value, for code that inspects an error and goes on.\<close>

definition attempt :: "('s, 'a) step \<Rightarrow> ('s, 'a res) step" where
  "attempt m = (\<lambda>s. case m s of
     (Panic p, s') \<Rightarrow> (Panic p, s')
   | (r, s') \<Rightarrow> (Ok r, s'))"

lemma ret_apply [simp]: "ret x s = (Ok x, s)"
  by (simp add: ret_def)

lemma fail_with_apply [simp]: "fail_with e s = (Err e, s)"
  by (simp add: fail_with_def)

lemma lift_res_apply [simp]: "lift_res r s = (r, s)"
  by (simp add: lift_res_def)

lemma wrapErr_apply [simp]: "wrapErr g m s = (on_err g (fst (m s)), snd (m s))"
  by (simp add: wrapErr_def)

lemma andThen_Ok_iff [res_simps]:
  "andThen m f s = (Ok y, t) \<longleftrightarrow> (\<exists>x u. m s = (Ok x, u) \<and> f x u = (Ok y, t))"
  by (auto simp: andThen_def split: prod.splits res.splits)

lemma andThen_eval:
  "m s = (Ok x, u) \<Longrightarrow> andThen m f s = f x u"
  "m s = (Err e, u) \<Longrightarrow> andThen m f s = (Err e, u)"
  "m s = (Panic p, u) \<Longrightarrow> andThen m f s = (Panic p, u)"
  by (simp_all add: andThen_def)

lemma andThen_wrapErr_Ok: "m s = (Ok x, u) \<Longrightarrow> andThen (wrapErr g m) f s = f x u"
  by (simp add: andThen_def)

lemma andThen_ret [simp]: "andThen (ret x) f = f x"
  by (simp add: andThen_def ret_def)

lemma andThen_fail [simp]: "andThen (fail_with e) f = fail_with e"
  by (simp add: andThen_def fail_with_def)

text \<open>A predicate on states that a step keeps, whatever it returns.\<close>

definition keeps :: "('s \<Rightarrow> bool) \<Rightarrow> ('s, 'a) step \<Rightarrow> bool" where
  "keeps P m \<longleftrightarrow> (\<forall>s. P s \<longrightarrow> P (snd (m s)))"

named_theorems keeps_intro \<open>steps that keep a predicate\<close>

lemma keepsD: "keeps P m \<Longrightarrow> P s \<Longrightarrow> P (snd (m s))"
  by (simp add: keeps_def)

lemma keeps_ret [keeps_intro]: "keeps P (ret x)"
  by (simp add: keeps_def)

lemma keeps_fail [keeps_intro]: "keeps P (fail_with e)"
  by (simp add: keeps_def)

lemma keeps_lift [keeps_intro]: "keeps P (lift_res r)"
  by (simp add: keeps_def)

lemma keeps_andThen [keeps_intro]:
  "keeps P m \<Longrightarrow> (\<And>x. keeps P (f x)) \<Longrightarrow> keeps P (andThen m f)"
  unfolding keeps_def andThen_def
  by (auto split: prod.splits res.splits)

lemma keeps_wrapErr [keeps_intro]: "keeps P m \<Longrightarrow> keeps P (wrapErr g m)"
  by (simp add: keeps_def)

lemma keeps_attempt [keeps_intro]: "keeps P m \<Longrightarrow> keeps P (attempt m)"
  unfolding keeps_def attempt_def
  by (auto split: prod.splits res.splits)

lemma keeps_at: "P (snd (m s)) \<Longrightarrow> (\<And>x. keeps P (f x)) \<Longrightarrow> P (snd (andThen m f s))"
  by (cases "m s"; cases "fst (m s)") (auto simp: andThen_def dest: keepsD)

lemma keeps_if [keeps_intro]:
  "(b \<Longrightarrow> keeps P m) \<Longrightarrow> (\<not> b \<Longrightarrow> keeps P n) \<Longrightarrow> keeps P (if b then m else n)"
  by simp

text \<open>A step that left the state alone, and what follows it.\<close>

lemma andThen_keeps_at:
  assumes "snd (m s) = s" "P s" "\<And>x. m s = (Ok x, s) \<Longrightarrow> keeps P (f x)"
  shows "P (snd (andThen m f s))"
proof (cases "m s")
  case (Pair r u)
  then show ?thesis using assms keepsD by (cases r) (auto simp: andThen_def)
qed

text \<open>A predicate on the result of a step that succeeds.\<close>

definition yields :: "('s, 'a) step \<Rightarrow> ('a \<Rightarrow> bool) \<Rightarrow> bool" where
  "yields m Q \<longleftrightarrow> (\<forall>s x s'. m s = (Ok x, s') \<longrightarrow> Q x)"

named_theorems yields_intro \<open>what successful steps return\<close>

lemma yieldsD: "yields m Q \<Longrightarrow> m s = (Ok x, s') \<Longrightarrow> Q x"
  unfolding yields_def by blast

lemma yields_ret [yields_intro]: "Q x \<Longrightarrow> yields (ret x) Q"
  by (simp add: yields_def)

lemma yields_fail [yields_intro]: "yields (fail_with e) Q"
  by (simp add: yields_def)

lemma yields_lift [yields_intro]: "(\<And>x. r = Ok x \<Longrightarrow> Q x) \<Longrightarrow> yields (lift_res r) Q"
  by (simp add: yields_def)

lemma yields_andThen [yields_intro]:
  "(\<And>x u v. m u = (Ok x, v) \<Longrightarrow> yields (f x) Q) \<Longrightarrow> yields (andThen m f) Q"
  unfolding yields_def andThen_Ok_iff by blast

lemma yields_wrapErr [yields_intro]: "yields m Q \<Longrightarrow> yields (wrapErr g m) Q"
  unfolding yields_def by (auto simp: on_err_Ok_iff prod_eq_iff)

lemma wrapErr_Ok_iff: "wrapErr g m s = (Ok x, u) \<longleftrightarrow> m s = (Ok x, u)"
  by (auto simp: prod_eq_iff on_err_Ok_iff)

section \<open>Lists and maps\<close>

lemma prefix_filter: "prefix xs ys \<Longrightarrow> prefix (filter P xs) (filter P ys)"
  by (auto simp: prefix_def)

lemma map_le_upd_same: "m k = Some v \<Longrightarrow> m(k \<mapsto> v) = m"
  by (rule fun_upd_idem) simp

lemma length_filter_zero: "length (filter P xs) = 0 \<longleftrightarrow> (\<forall>x \<in> set xs. \<not> P x)"
  by (auto simp: filter_empty_conv)

end
