(* ===== verification/Fs.thy ===== *)
theory Fs
  imports GoStr "HOL-Library.AList" "HOL-Library.List_Lexorder" "HOL-Library.Char_ord"
begin

text \<open>
  The file system as the code sees it through Go's package \<open>os\<close>: a tree of directories, files and
  symbolic links, path resolution, and the calls that the adapters and the puller make.

  A tree is an association list from canonical absolute paths (lists of names) to nodes; the empty path is
  the root, which is a directory. Relative paths start at the root (the working directory of the
  containers). Any call can also fail for a reason outside the tree (permissions, a full disk, an I/O error): the
  environment gives the error of the n-th call, and a call that fails so leaves the tree alone.
\<close>

section \<open>Trees and path resolution\<close>

datatype node = Dir | File nat string | Link string

type_synonym fpath = "string list"
type_synonym fs = "(fpath \<times> node) list"

definition get :: "fs \<Rightarrow> fpath \<Rightarrow> node option" where
  "get t p = (if p = [] then Some Dir else map_of t p)"

definition put :: "fpath \<Rightarrow> node \<Rightarrow> fs \<Rightarrow> fs" where
  "put p n t = AList.update p n t"

definition prune :: "fpath \<Rightarrow> fs \<Rightarrow> fs" where
  "prune p t = filter (\<lambda>(q, n). take (length p) q \<noteq> p) t"

text \<open>The names in a path string; \<open>..\<close> is kept.\<close>

definition comps :: "string \<Rightarrow> string list" where
  "comps s = filter (\<lambda>e. e \<noteq> [] \<and> e \<noteq> ''.'') (split_on slash s)"

text \<open>
  Resolution of the names left to visit from a canonical directory, following symbolic links (at most \<open>n\<close>; 40 on
  Linux), the last one only if \<open>follow\<close>. The result is a canonical path; its last name need not exist.
\<close>

function walk :: "nat \<Rightarrow> fs \<Rightarrow> bool \<Rightarrow> fpath \<Rightarrow> string list \<Rightarrow> oserr + fpath" where
  "walk n t follow cur [] = Inr cur"
| "walk n t follow cur (c # cs) =
     (if get t cur \<noteq> Some Dir then Inl ENOTDIR
      else if c = ''..'' then walk n t follow (butlast cur) cs
      else (case get t (cur @ [c]) of
          None \<Rightarrow> if cs = [] then Inr (cur @ [c]) else Inl ENOENT
        | Some (Link l) \<Rightarrow>
            if cs = [] \<and> \<not> follow then Inr (cur @ [c])
            else if n = 0 then Inl ELOOP
            else walk (n - 1) t follow (if has_prefix l [slash] then [] else cur) (comps l @ cs)
        | Some d \<Rightarrow> walk n t follow (cur @ [c]) cs))"
  by pat_completeness auto
termination
  by (relation "measures [\<lambda>(n, t, f, cur, cs). n, \<lambda>(n, t, f, cur, cs). length cs]") auto

definition maxlinks :: nat where
  "maxlinks = 40"

definition resolve :: "fs \<Rightarrow> bool \<Rightarrow> string \<Rightarrow> oserr + fpath" where
  "resolve t follow p = walk maxlinks t follow [] (comps p)"

text \<open>The existing node a path string names.\<close>

definition lookup :: "fs \<Rightarrow> bool \<Rightarrow> string \<Rightarrow> oserr + fpath \<times> node" where
  "lookup t follow p = (case resolve t follow p of
     Inl e \<Rightarrow> Inl e
   | Inr q \<Rightarrow> (case get t q of None \<Rightarrow> Inl ENOENT | Some n \<Rightarrow> Inr (q, n)))"

section \<open>Calls\<close>

record os =
  files :: fs
  calls :: nat
  faults :: "nat \<Rightarrow> oserr option"

text \<open>A call at a path: one more call is counted, and it fails if the environment makes it fail.\<close>

definition syscall :: "string \<Rightarrow> (fs \<Rightarrow> oserr + 'a \<times> fs) \<Rightarrow> (os, 'a) step" where
  "syscall p f s =
     (let s' = s\<lparr>calls := Suc (calls s)\<rparr>
      in case faults s (calls s) of
           Some e \<Rightarrow> (Err (OsErr e p), s')
         | None \<Rightarrow> (case f (files s) of
               Inl e \<Rightarrow> (Err (OsErr e p), s')
             | Inr (x, t) \<Rightarrow> (Ok x, s'\<lparr>files := t\<rparr>)))"

record finfo =
  fi_name :: string
  fi_dir :: bool
  fi_size :: nat
  fi_link :: bool
  fi_mode :: nat

fun node_info :: "string \<Rightarrow> node \<Rightarrow> finfo" where
  "node_info nm Dir = \<lparr>fi_name = nm, fi_dir = True, fi_size = 0, fi_link = False, fi_mode = 493\<rparr>"
| "node_info nm (File m c) = \<lparr>fi_name = nm, fi_dir = False, fi_size = length c, fi_link = False, fi_mode = m\<rparr>"
| "node_info nm (Link l) = \<lparr>fi_name = nm, fi_dir = False, fi_size = length l, fi_link = True, fi_mode = 511\<rparr>"

definition os_Stat :: "string \<Rightarrow> (os, finfo) step" where
  "os_Stat p = syscall p (\<lambda>t. case lookup t True p of
     Inl e \<Rightarrow> Inl e | Inr (q, n) \<Rightarrow> Inr (node_info (path_Base p) n, t))"

definition os_Lstat :: "string \<Rightarrow> (os, finfo) step" where
  "os_Lstat p = syscall p (\<lambda>t. case lookup t False p of
     Inl e \<Rightarrow> Inl e | Inr (q, n) \<Rightarrow> Inr (node_info (path_Base p) n, t))"

text \<open>The names in a directory, sorted, each with the information on the entry itself (links are not followed).\<close>

definition entry_names :: "fs \<Rightarrow> fpath \<Rightarrow> string list" where
  "entry_names t d = sort (remdups (map (\<lambda>(q, n). last q)
     (filter (\<lambda>(q, n). q \<noteq> [] \<and> butlast q = d) t)))"

definition dir_entries :: "fs \<Rightarrow> fpath \<Rightarrow> finfo list" where
  "dir_entries t d = map (\<lambda>x. case get t (d @ [x]) of
     Some n \<Rightarrow> node_info x n | None \<Rightarrow> node_info x Dir) (entry_names t d)"

definition os_ReadDir :: "string \<Rightarrow> (os, finfo list) step" where
  "os_ReadDir p = syscall p (\<lambda>t. case lookup t True p of
     Inl e \<Rightarrow> Inl e
   | Inr (q, n) \<Rightarrow> if n = Dir then Inr (dir_entries t q, t) else Inl ENOTDIR)"

definition os_ReadFile :: "string \<Rightarrow> (os, string) step" where
  "os_ReadFile p = syscall p (\<lambda>t. case lookup t True p of
     Inl e \<Rightarrow> Inl e
   | Inr (q, File m c) \<Rightarrow> Inr (c, t)
   | Inr (q, n) \<Rightarrow> Inl EISDIR)"

text \<open>\<open>os.MkdirAll\<close>: each prefix of the path that does not exist is made; an existing one must lead to a directory.\<close>

fun mkdir_prefixes :: "fs \<Rightarrow> fpath \<Rightarrow> string list \<Rightarrow> oserr + fs" where
  "mkdir_prefixes t done [] = Inr t"
| "mkdir_prefixes t done (c # cs) =
     (case walk maxlinks t True [] (done @ [c]) of
        Inl e \<Rightarrow> Inl e
      | Inr q \<Rightarrow> (case get t q of
            Some Dir \<Rightarrow> mkdir_prefixes t (done @ [c]) cs
          | Some n \<Rightarrow> Inl ENOTDIR
          | None \<Rightarrow> (case walk maxlinks t False [] (done @ [c]) of
                Inl e \<Rightarrow> Inl e
              | Inr q' \<Rightarrow> if get t q' = None then mkdir_prefixes (put q' Dir t) (done @ [c]) cs else Inl EEXIST)))"

definition os_MkdirAll :: "string \<Rightarrow> (os, unit) step" where
  "os_MkdirAll p = syscall p (\<lambda>t. case mkdir_prefixes t [] (comps p) of
     Inl e \<Rightarrow> Inl e | Inr t' \<Rightarrow> Inr ((), t'))"

text \<open>Making a new entry needs an existing parent directory, which resolution has visited unless the path is the root.\<close>

definition os_Symlink :: "string \<Rightarrow> string \<Rightarrow> (os, unit) step" where
  "os_Symlink old new = syscall new (\<lambda>t. case resolve t False new of
     Inl e \<Rightarrow> Inl e
   | Inr q \<Rightarrow> if get t q \<noteq> None then Inl EEXIST else Inr ((), put q (Link old) t))"

definition os_WriteFile :: "string \<Rightarrow> string \<Rightarrow> nat \<Rightarrow> (os, unit) step" where
  "os_WriteFile p c mode = syscall p (\<lambda>t. case resolve t True p of
     Inl e \<Rightarrow> Inl e
   | Inr q \<Rightarrow> (case get t q of
         Some Dir \<Rightarrow> Inl EISDIR
       | Some (File m c') \<Rightarrow> Inr ((), put q (File m c) t)
       | Some (Link l) \<Rightarrow> Inl ELOOP
       | None \<Rightarrow> Inr ((), put q (File mode c) t)))"

definition os_Create :: "string \<Rightarrow> (os, unit) step" where
  "os_Create p = os_WriteFile p [] 438"

text \<open>\<open>os.RemoveAll\<close>: the entry itself and all below it, not following a last link; nothing there is no error.\<close>

definition os_RemoveAll :: "string \<Rightarrow> (os, unit) step" where
  "os_RemoveAll p =
     (if p = [] then ret ()
      else if last (split_on slash p) = ''.'' then fail_with (OsErr EINVAL p)
      else syscall p (\<lambda>t. case resolve t False p of
          Inl e \<Rightarrow> if e = ENOENT then Inr ((), t) else Inl e
        | Inr q \<Rightarrow> Inr ((), prune q t)))"

text \<open>\<open>os.Rename\<close> of a file over a file or over nothing, the one use of it.\<close>

definition os_Rename :: "string \<Rightarrow> string \<Rightarrow> (os, unit) step" where
  "os_Rename old new = syscall old (\<lambda>t. case lookup t False old of
     Inl e \<Rightarrow> Inl e
   | Inr (q, Dir) \<Rightarrow> Inl (EOTHER 0)
   | Inr (q, n) \<Rightarrow> (case resolve t False new of
         Inl e \<Rightarrow> Inl e
       | Inr q' \<Rightarrow> if get t q' = Some Dir then Inl EEXIST else Inr ((), put q' n (prune q t))))"

definition os_Readlink :: "string \<Rightarrow> (os, string) step" where
  "os_Readlink p = syscall p (\<lambda>t. case lookup t False p of
     Inl e \<Rightarrow> Inl e | Inr (q, Link l) \<Rightarrow> Inr (l, t) | Inr (q, n) \<Rightarrow> Inl EINVAL)"

section \<open>Facts about trees\<close>

lemma get_root [simp]: "get t [] = Some Dir"
  by (simp add: get_def)

lemma get_put: "q \<noteq> [] \<Longrightarrow> get (put p n t) q = (if q = p then Some n else get t q)"
  by (simp add: get_def put_def update_conv')

lemma map_of_filter_keys: "map_of (filter (\<lambda>(k, v). P k) t) k = (if P k then map_of t k else None)"
  by (induction t) auto

lemma get_prune: "q \<noteq> [] \<Longrightarrow> get (prune p t) q = (if take (length p) q = p then None else get t q)"
  by (simp add: get_def prune_def map_of_filter_keys)

lemma entry_names_set: "x \<in> set (entry_names t d) \<longleftrightarrow> get t (d @ [x]) \<noteq> None"
proof -
  have "x \<in> set (entry_names t d) \<longleftrightarrow> d @ [x] \<in> fst ` set t"
    by (force simp: entry_names_def image_iff dest: append_butlast_last_id)
  also have "\<dots> \<longleftrightarrow> map_of t (d @ [x]) \<noteq> None" by (simp add: map_of_eq_None_iff)
  finally show ?thesis by (simp add: get_def)
qed

lemma entry_names_sorted: "sorted (entry_names t d)" "distinct (entry_names t d)"
  by (simp_all add: entry_names_def)

text \<open>A chain of real directories: no name on the way is a link.\<close>

definition real_dirs :: "fs \<Rightarrow> fpath \<Rightarrow> bool" where
  "real_dirs t p \<longleftrightarrow> (\<forall>i \<le> length p. get t (take i p) = Some Dir)"

lemma real_dirs_snoc: "real_dirs t (p @ [x]) \<longleftrightarrow> real_dirs t p \<and> get t (p @ [x]) = Some Dir"
  unfolding real_dirs_def by (auto simp: le_Suc_eq)

lemma real_dirs_appendD:
  assumes "real_dirs t (p @ q)"
  shows "real_dirs t p"
  unfolding real_dirs_def
proof (intro allI impI)
  fix i assume "i \<le> length p"
  then have "i \<le> length (p @ q)" by simp
  with assms have "get t (take i (p @ q)) = Some Dir" unfolding real_dirs_def by blast
  with \<open>i \<le> length p\<close> show "get t (take i p) = Some Dir" by simp
qed

lemma walk_real_dirs:
  assumes "real_dirs t (cur @ cs)" "''..'' \<notin> set cs"
  shows "walk n t f cur (cs @ ds) = walk n t f (cur @ cs) ds"
  using assms
proof (induction cs arbitrary: cur)
  case Nil
  then show ?case by simp
next
  case (Cons c cs)
  from Cons.prems(1) have 1: "real_dirs t ((cur @ [c]) @ cs)" by simp
  then have "real_dirs t (cur @ [c])" by (rule real_dirs_appendD)
  then have "get t (cur @ [c]) = Some Dir" "get t cur = Some Dir"
    by (auto simp: real_dirs_snoc real_dirs_def dest: spec [of _ "length cur"])
  moreover have "c \<noteq> ''..''" using Cons.prems(2) by auto
  ultimately show ?case using Cons.IH [OF 1] Cons.prems(2) by simp
qed

text \<open>The path string of a list of names.\<close>

definition path_str :: "fpath \<Rightarrow> string" where
  "path_str p = concat (map (\<lambda>e. slash # e) p)"

definition plain_name :: "string \<Rightarrow> bool" where
  "plain_name e \<longleftrightarrow> e \<noteq> [] \<and> e \<noteq> ''.'' \<and> e \<noteq> ''..'' \<and> slash \<notin> set e"

lemma split_on_path_str:
  "list_all plain_name p \<Longrightarrow> split_on slash (path_str p) = [] # p"
proof (induction p)
  case Nil
  then show ?case by (simp add: path_str_def)
next
  case (Cons e p)
  then have e: "slash \<notin> set e" and IH: "split_on slash (path_str p) = [] # p" by (auto simp: plain_name_def)
  have "split_on slash (e @ path_str p) = e # p"
    using e IH by (induction e) (auto simp: path_str_def split: list.splits)
  then show ?case by (simp add: path_str_def)
qed

lemma comps_path_str: "list_all plain_name p \<Longrightarrow> comps (path_str p) = p"
  by (simp add: comps_def split_on_path_str) (auto simp: plain_name_def list_all_iff intro: filter_True)

lemma path_str_snoc: "path_str (p @ [x]) = path_str p @ slash # x"
  by (simp add: path_str_def)

lemma resolve_real:
  assumes "real_dirs t p" "list_all plain_name p" "plain_name x"
  shows "resolve t False (path_str (p @ [x])) = Inr (p @ [x])"
proof -
  have "comps (path_str (p @ [x])) = p @ [x]" by (rule comps_path_str) (use assms in simp)
  moreover have "''..'' \<notin> set p" using assms(2) by (auto simp: plain_name_def list_all_iff)
  moreover have "get t p = Some Dir" using assms(1) by (auto simp: real_dirs_def)
  ultimately show ?thesis
    using walk_real_dirs [of t "[]" p maxlinks False "[x]"] assms(1,3)
    by (simp add: resolve_def plain_name_def split: option.splits node.splits)
qed

section \<open>Facts about calls\<close>

named_theorems os_defs \<open>definitions of the calls\<close>

lemmas [os_defs] = os_Stat_def os_Lstat_def os_ReadDir_def os_ReadFile_def os_MkdirAll_def os_Symlink_def
  os_WriteFile_def os_Create_def os_Rename_def os_Readlink_def

lemma syscall_Ok_iff:
  "syscall p f s = (Ok x, s') \<longleftrightarrow> faults s (calls s) = None \<and>
     (\<exists>t. f (files s) = Inr (x, t) \<and> s' = s\<lparr>calls := Suc (calls s), files := t\<rparr>)"
  by (auto simp: syscall_def Let_def split: option.splits sum.splits)

lemma syscall_not_panic: "syscall p f s \<noteq> (Panic m, s')"
  by (auto simp: syscall_def Let_def split: option.splits sum.splits)

lemma syscall_faults [simp]: "faults (snd (syscall p f s)) = faults s"
  by (auto simp: syscall_def Let_def split: option.splits sum.splits)

text \<open>A call that fails leaves the tree alone.\<close>

lemma syscall_Err_files: "syscall p f s = (Err e, s') \<Longrightarrow> files s' = files s"
  by (auto simp: syscall_def Let_def split: option.splits sum.splits)

lemma syscall_readonly:
  "(\<And>t x t'. f t = Inr (x, t') \<Longrightarrow> t' = t) \<Longrightarrow> files (snd (syscall p f s)) = files s"
  by (auto simp: syscall_def Let_def split: option.splits sum.splits)

lemma os_Stat_files [simp]: "files (snd (os_Stat p s)) = files s"
  unfolding os_Stat_def by (rule syscall_readonly) (auto split: sum.splits)

lemma os_Lstat_files [simp]: "files (snd (os_Lstat p s)) = files s"
  unfolding os_Lstat_def by (rule syscall_readonly) (auto split: sum.splits)

lemma os_ReadDir_files [simp]: "files (snd (os_ReadDir p s)) = files s"
  unfolding os_ReadDir_def by (rule syscall_readonly) (auto split: sum.splits if_splits)

lemma os_ReadFile_files [simp]: "files (snd (os_ReadFile p s)) = files s"
  unfolding os_ReadFile_def by (rule syscall_readonly) (auto split: sum.splits node.splits)

lemma os_Readlink_files [simp]: "files (snd (os_Readlink p s)) = files s"
  unfolding os_Readlink_def by (rule syscall_readonly) (auto split: sum.splits node.splits)

text \<open>A successful removal of a path whose parent is a real directory leaves nothing at or below it, and the rest as it was.\<close>

lemma os_RemoveAll_real:
  assumes "os_RemoveAll (path_str (p @ [x])) s = (Ok (), s')"
    and "real_dirs (files s) p" "list_all plain_name p" "plain_name x"
  shows "files s' = prune (p @ [x]) (files s)"
proof -
  have ne: "path_str (p @ [x]) \<noteq> []" by (simp add: path_str_def)
  have "last (split_on slash (path_str (p @ [x]))) = x"
    using split_on_path_str [of "p @ [x]"] assms(3,4) by simp
  with assms(4) have nd: "last (split_on slash (path_str (p @ [x]))) \<noteq> ''.''" by (simp add: plain_name_def)
  show ?thesis
    using assms(1) ne nd resolve_real [OF assms(2-4)] by (simp add: os_RemoveAll_def syscall_Ok_iff)
qed

lemma os_Symlink_real:
  assumes "os_Symlink old (path_str (p @ [x])) s = (Ok (), s')"
    and "real_dirs (files s) p" "list_all plain_name p" "plain_name x"
  shows "files s' = put (p @ [x]) (Link old) (files s) \<and> get (files s) (p @ [x]) = None"
  using assms(1) resolve_real [OF assms(2-4)]
  by (auto simp: os_Symlink_def syscall_Ok_iff split: if_splits)

text \<open>A file that was written can be read again: the path leads to the entry that was put there.\<close>

lemma walk_put_file:
  "walk n t True cur cs = Inr q \<Longrightarrow> get t q = None \<or> (\<exists>m' c'. get t q = Some (File m' c')) \<Longrightarrow>
     walk n (put q (File m c) t) True cur cs = Inr q"
proof (induction n t True cur cs rule: walk.induct)
  case (1 n t cur)
  then show ?case by simp
next
  case (2 n t cur e cs)
  have q: "q \<noteq> []" "get t q \<noteq> Some Dir" "get t q \<noteq> Some (Link l)" for l using "2.prems"(2) by auto
  have g: "get (put q (File m c) t) p = (if p = q then Some (File m c) else get t p)" for p
    using q(1) by (cases "p = []") (simp_all add: get_put)
  show ?case
    using 2 q by (fastforce simp: g split: option.splits node.splits if_splits)
qed

lemma os_WriteFile_ReadFile:
  assumes "os_WriteFile p c mode s = (Ok (), s')" "files u = files s'" "os_ReadFile p u = (r, u')" "faults u (calls u) = None"
  shows "r = Ok c"
proof -
  from assms(1) obtain q m where q: "resolve (files s) True p = Inr q" and f: "files s' = put q (File m c) (files s)"
    and g: "get (files s) q = None \<or> (\<exists>m c. get (files s) q = Some (File m c))"
    by (auto simp: os_WriteFile_def syscall_Ok_iff split: sum.splits option.splits node.splits)
  then have "resolve (files s') True p = Inr q" unfolding resolve_def f by (intro walk_put_file) auto
  moreover have "get (files s') q = Some (File m c)" using g by (cases "q = []") (auto simp: f get_put)
  ultimately show ?thesis
    using assms(2-4) by (simp add: os_ReadFile_def syscall_def lookup_def Let_def)
qed

end
