(* ===== verification/FsScope.thy ===== *)
theory FsScope
  imports Fs
begin

text \<open>
  Confinement of file system changes to a directory: what a sequence of calls on paths below a directory, without
  symbolic links on the way, can change.
\<close>

section \<open>Paths without links\<close>

definition no_links :: "fs \<Rightarrow> fpath \<Rightarrow> bool" where
  "no_links t p \<longleftrightarrow> (\<forall>i \<le> length p. \<forall>l. get t (take i p) \<noteq> Some (Link l))"

lemma no_links_snoc: "no_links t (p @ [x]) \<longleftrightarrow> no_links t p \<and> (\<forall>l. get t (p @ [x]) \<noteq> Some (Link l))"
  unfolding no_links_def by (auto simp: le_Suc_eq)

lemma no_links_appendD: "no_links t (p @ q) \<Longrightarrow> no_links t p"
proof (induction q rule: rev_induct)
  case Nil
  then show ?case by simp
next
  case (snoc x xs)
  then show ?case using no_links_snoc [of t "p @ xs" x] by simp
qed

lemma no_links_nth: "no_links t (p @ c # q) \<Longrightarrow> get t (p @ [c]) \<noteq> Some (Link l)"
  using no_links_appendD [of t "p @ [c]" q] by (simp add: no_links_snoc)

lemma real_dirs_no_links: "real_dirs t p \<Longrightarrow> no_links t p"
  unfolding real_dirs_def no_links_def by auto

text \<open>Without links on the way a path leads to itself.\<close>

lemma walk_no_links:
  "no_links t (cur @ cs) \<Longrightarrow> ''..'' \<notin> set cs \<Longrightarrow> walk n t f cur cs = Inr r \<Longrightarrow> r = cur @ cs"
proof (induction cs arbitrary: cur)
  case Nil
  then show ?case by simp
next
  case (Cons c cs)
  have nl: "get t (cur @ [c]) \<noteq> Some (Link l)" for l using no_links_nth [OF Cons.prems(1)] .
  have step: "walk n t f cur (c # cs) =
     (if get t cur \<noteq> Some Dir then Inl ENOTDIR
      else (case get t (cur @ [c]) of None \<Rightarrow> if cs = [] then Inr (cur @ [c]) else Inl ENOENT
        | Some d \<Rightarrow> walk n t f (cur @ [c]) cs))"
    using Cons.prems(2) nl by (auto split: option.splits node.splits)
  show ?case
    using Cons.prems(1,3) Cons.IH [of "cur @ [c]"] Cons.prems(2) unfolding step
    by (auto split: if_splits option.splits)
qed

lemma plain_no_dotdot: "list_all plain_name p \<Longrightarrow> ''..'' \<notin> set p"
  by (auto simp: list_all_iff plain_name_def)

lemma resolve_no_links:
  "no_links t p \<Longrightarrow> list_all plain_name p \<Longrightarrow> resolve t f (path_str p) = Inr r \<Longrightarrow> r = p"
  using walk_no_links [of t "[]" p maxlinks f r] by (simp add: resolve_def comps_path_str plain_no_dotdot)

section \<open>The path functions on plain paths\<close>

lemma split_on_append_sep: "split_on c (x @ c # ys) = split_on c x @ split_on c ys"
  by (induction x) (auto split: list.splits)

lemma clean_elems_plain: "list_all plain_name p \<Longrightarrow> clean_elems r acc p = rev acc @ p"
  by (induction p arbitrary: acc) (auto simp: plain_name_def)

lemma clean_elems_append_empty: "clean_elems r acc (p @ [[]]) = clean_elems r acc p"
  by (induction r acc p rule: clean_elems.induct) (auto split: list.splits)

lemma join_with_path_str: "p \<noteq> [] \<Longrightarrow> slash # join_with slash p = path_str p"
proof (induction p)
  case Nil
  then show ?case by simp
next
  case (Cons e p)
  then show ?case by (cases p) (simp_all add: path_str_def)
qed

lemma path_Clean_path_str:
  assumes "list_all plain_name p" "p \<noteq> []"
  shows "path_Clean (path_str p) = path_str p"
proof -
  have "has_prefix (path_str p) [slash]" using assms(2) by (cases p) (simp_all add: path_str_def has_prefix_def)
  then show ?thesis
    using clean_elems_plain [OF assms(1), of True "[]"] join_with_path_str [OF assms(2)]
    by (simp add: path_Clean_def Let_def split_on_path_str [OF assms(1)])
qed

lemma dropWhile_name: "slash \<notin> set x \<Longrightarrow> dropWhile (\<lambda>c. c \<noteq> slash) (rev x @ slash # ys) = slash # ys"
  by (subst dropWhile_append2) auto

lemma path_Dir_path_str:
  assumes "list_all plain_name (p @ [x])"
  shows "path_Dir (path_str (p @ [x])) = slash # join_with slash p"
proof -
  have x: "slash \<notin> set x" using assms by (simp add: plain_name_def)
  have "rev (dropWhile (\<lambda>c. c \<noteq> slash) (rev (path_str (p @ [x])))) = path_str p @ [slash]"
    using dropWhile_name [OF x] by (simp add: path_str_snoc)
  moreover have "split_on slash (path_str p @ [slash]) = [] # p @ [[]]"
    using split_on_append_sep [of slash "path_str p" "[]"] split_on_path_str [of p] assms by simp
  moreover have "has_prefix (path_str p @ [slash]) [slash]"
    by (cases p) (simp_all add: path_str_def has_prefix_def)
  moreover have "clean_elems True [] (p @ [[]]) = p"
    using assms by (simp add: clean_elems_append_empty clean_elems_plain)
  ultimately show ?thesis by (simp add: path_Dir_def path_Clean_def Let_def)
qed

lemma comps_path_Dir:
  assumes "list_all plain_name (p @ [x])"
  shows "comps (path_Dir (path_str (p @ [x]))) = p"
proof (cases "p = []")
  case True
  with path_Dir_path_str [OF assms] show ?thesis by (simp add: comps_def)
next
  case False
  with path_Dir_path_str [OF assms] assms show ?thesis by (simp add: join_with_path_str comps_path_str)
qed

lemma path_Join_path_str:
  assumes "list_all plain_name (p @ [x])" "p \<noteq> []"
  shows "path_Join [path_str p, x] = path_str (p @ [x])"
proof -
  have "path_str p \<noteq> []" using assms(2) by (cases p) (simp_all add: path_str_def)
  moreover have "x \<noteq> []" using assms(1) by (simp add: plain_name_def)
  ultimately have "path_Join [path_str p, x] = path_Clean (path_str (p @ [x]))"
    by (simp add: path_Join_def Let_def path_str_snoc)
  also have "\<dots> = path_str (p @ [x])" by (rule path_Clean_path_str [OF assms(1)]) simp
  finally show ?thesis .
qed

section \<open>Confined changes\<close>

text \<open>
  Of two trees: entries changed only at or below the directory \<open>root\<close>, except that missing directories on the way to
  it may have been made; the symbolic links are the same; directories stayed directories.
\<close>

definition confined :: "fpath \<Rightarrow> fs \<Rightarrow> fs \<Rightarrow> bool" where
  "confined root t0 t \<longleftrightarrow>
     (\<forall>p. get t p \<noteq> get t0 p \<longrightarrow> prefix root p \<or> (strict_prefix p root \<and> get t0 p = None \<and> get t p = Some Dir)) \<and>
     (\<forall>p l. get t p = Some (Link l) \<longleftrightarrow> get t0 p = Some (Link l)) \<and>
     (\<forall>p. get t0 p = Some Dir \<longrightarrow> get t p = Some Dir)"

lemma confined_refl [simp]: "confined root t t"
  by (simp add: confined_def)

lemma confined_no_links: "confined root t0 t \<Longrightarrow> no_links t p \<longleftrightarrow> no_links t0 p"
  by (simp add: confined_def no_links_def)

text \<open>A file or a directory is put at \<open>p\<close>, where there was no link, and no directory is replaced.\<close>

lemma confined_put:
  assumes c: "confined root t0 t" and p: "p \<noteq> []" "\<And>l. get t p \<noteq> Some (Link l)" "\<And>l. n \<noteq> Link l"
    and d: "get t p = Some Dir \<Longrightarrow> n = Dir"
    and below: "prefix root p \<or> (strict_prefix p root \<and> n = Dir \<and> get t p = None)"
  shows "confined root t0 (put p n t)"
proof -
  have g: "get (put p n t) q = (if q = p then Some n else get t q)" for q
    by (cases "q = []") (use p(1) in \<open>auto simp: get_put\<close>)
  have "get t0 p \<noteq> Some Dir \<or> n = Dir" using c d unfolding confined_def by blast
  moreover have "get t0 p = None" if "strict_prefix p root" "get t p = None" "\<not> prefix root p"
    using c that unfolding confined_def by metis
  ultimately show ?thesis
    using c p below unfolding confined_def g by (auto simp: prefix_order.le_less)
qed

lemma confined_syscall:
  assumes "confined root t0 (files s)"
    and "\<And>x t'. f (files s) = Inr (x, t') \<Longrightarrow> confined root t0 t'"
  shows "confined root t0 (files (snd (syscall p f s)))"
  using assms by (auto simp: syscall_def Let_def split: option.splits sum.splits)

lemma mkdir_prefixes_confined:
  assumes "no_links t0 (d @ cs)" "''..'' \<notin> set (d @ cs)" "prefix root (d @ cs) \<or> prefix (d @ cs) root"
    "confined root t0 t" "mkdir_prefixes t d cs = Inr t'"
  shows "confined root t0 t'"
  using assms
proof (induction cs arbitrary: d t)
  case Nil
  then show ?case by simp
next
  case (Cons c cs)
  have nl: "no_links t (d @ [c])"
    using no_links_appendD [of t0 "d @ [c]" cs] Cons.prems(1,4) by (simp add: confined_no_links)
  have w: "r = d @ [c]" if "walk maxlinks t f [] (d @ [c]) = Inr r" for f r
    using walk_no_links [of t "[]" "d @ [c]" maxlinks f r] nl that Cons.prems(2) by simp
  have nol: "get t (d @ [c]) \<noteq> Some (Link l)" for l using nl by (simp add: no_links_snoc)
  have conf: "confined root t0 (put (d @ [c]) Dir t)" if "get t (d @ [c]) = None"
  proof (rule confined_put [OF Cons.prems(4)])
    have "prefix root (d @ [c]) \<or> prefix (d @ [c]) root"
      using Cons.prems(3) prefix_same_cases [of root "(d @ [c]) @ cs" "d @ [c]"]
      by (metis append.assoc append_Cons append_Nil prefixI prefix_order.trans)
    then show "prefix root (d @ [c]) \<or> strict_prefix (d @ [c]) root \<and> Dir = Dir \<and> get t (d @ [c]) = None"
      using that by (auto simp: prefix_order.le_less)
  qed (use that in auto)
  have rest: "confined root t0 t'" if "confined root t0 u" "mkdir_prefixes u (d @ [c]) cs = Inr t'" for u
    using Cons.IH [of "d @ [c]" u] Cons.prems(1-3) that by simp
  show ?case
    using Cons.prems(5) w rest [OF Cons.prems(4)] conf rest [of "put (d @ [c]) Dir t"]
    by (fastforce split: sum.splits option.splits node.splits if_splits)
qed

lemma confined_MkdirAll:
  assumes "confined root t0 (files s)" "no_links t0 (comps p)" "''..'' \<notin> set (comps p)"
    "prefix root (comps p) \<or> prefix (comps p) root"
  shows "confined root t0 (files (snd (os_MkdirAll p s)))"
  unfolding os_MkdirAll_def
  by (rule confined_syscall [OF assms(1)])
     (use mkdir_prefixes_confined [of t0 "[]" "comps p" root "files s"] assms in \<open>auto split: sum.splits\<close>)

lemma confined_WriteFile:
  assumes "confined root t0 (files s)" "no_links t0 p" "list_all plain_name p" "prefix root p" "p \<noteq> []"
  shows "confined root t0 (files (snd (os_WriteFile (path_str p) c m s)))"
  unfolding os_WriteFile_def
proof (rule confined_syscall [OF assms(1)])
  have nl: "no_links (files s) p" using assms(1,2) by (simp add: confined_no_links)
  then have "get (files s) p \<noteq> Some (Link l)" for l
    unfolding no_links_def by (metis order_refl take_all)
  then have put: "confined root t0 (put p (File mm cc) (files s))" if "get (files s) p \<noteq> Some Dir" for mm cc
    using confined_put [OF assms(1,5), of "File mm cc"] that assms(4) by simp
  show "confined root t0 t'"
    if "(case resolve (files s) True (path_str p) of Inl e \<Rightarrow> Inl e
      | Inr q \<Rightarrow> (case get (files s) q of Some Dir \<Rightarrow> Inl EISDIR | Some (File m c') \<Rightarrow> Inr ((), put q (File m c) (files s))
         | Some (Link l) \<Rightarrow> Inl ELOOP | None \<Rightarrow> Inr ((), put q (File m c) (files s)))) = Inr (x, t')" for x t'
    using that put
    by (auto split: sum.splits option.splits node.splits dest!: resolve_no_links [OF nl assms(3)])
qed

lemma confinedI:
  assumes "\<And>p. get t p \<noteq> get t0 p \<Longrightarrow> prefix root p \<or> (strict_prefix p root \<and> get t0 p = None \<and> get t p = Some Dir)"
    and "\<And>p l. get t p = Some (Link l) \<longleftrightarrow> get t0 p = Some (Link l)" "\<And>p. get t0 p = Some Dir \<Longrightarrow> get t p = Some Dir"
  shows "confined root t0 t"
  using assms unfolding confined_def by blast

lemma confinedD:
  assumes "confined root t0 t"
  shows "get t p \<noteq> get t0 p \<Longrightarrow> prefix root p \<or> (strict_prefix p root \<and> get t0 p = None \<and> get t p = Some Dir)"
    and "get t p = Some (Link l) \<longleftrightarrow> get t0 p = Some (Link l)" and "get t0 p = Some Dir \<Longrightarrow> get t p = Some Dir"
  using assms unfolding confined_def by blast+

lemma confined_mono:
  assumes "confined (root @ cs) t t'"
  shows "confined root t t'"
proof (rule confinedI)
  fix p assume "get t' p \<noteq> get t p"
  from confinedD(1) [OF assms this]
  show "prefix root p \<or> (strict_prefix p root \<and> get t p = None \<and> get t' p = Some Dir)"
  proof
    assume "prefix (root @ cs) p"
    then show ?thesis by (blast dest: append_prefixD)
  next
    assume s: "strict_prefix p (root @ cs) \<and> get t p = None \<and> get t' p = Some Dir"
    then have "prefix p (root @ cs)" by (simp add: strict_prefix_def)
    then have "prefix p root \<or> prefix root p" using prefix_same_cases [of p "root @ cs" root] by simp
    with s show ?thesis by (auto simp: strict_prefix_def)
  qed
qed (use confinedD(2,3) [OF assms] in blast)+

lemma confined_trans:
  assumes "confined root t0 t1" "confined root t1 t2"
  shows "confined root t0 t2"
proof (rule confinedI)
  fix p assume n: "get t2 p \<noteq> get t0 p"
  show "prefix root p \<or> (strict_prefix p root \<and> get t0 p = None \<and> get t2 p = Some Dir)"
  proof (cases "get t1 p = get t0 p")
    case True
    with n confinedD(1) [OF assms(2), of p] show ?thesis by auto
  next
    case False
    from confinedD(1) [OF assms(1) False] confinedD(3) [OF assms(2), of p] show ?thesis by blast
  qed
next
  show "get t2 p = Some (Link l) \<longleftrightarrow> get t0 p = Some (Link l)" for p l
    using confinedD(2) [OF assms(1)] confinedD(2) [OF assms(2)] by simp
next
  show "get t0 p = Some Dir \<Longrightarrow> get t2 p = Some Dir" for p
    using confinedD(3) [OF assms(1)] confinedD(3) [OF assms(2)] by blast
qed

section \<open>Changes below a directory\<close>

text \<open>Entries changed only at or below \<open>d\<close>, except that missing directories on the way to it may have been made.\<close>

definition changed_below :: "fpath \<Rightarrow> fs \<Rightarrow> fs \<Rightarrow> bool" where
  "changed_below d t0 t \<longleftrightarrow> (\<forall>p. get t p \<noteq> get t0 p \<longrightarrow> prefix d p \<or> (strict_prefix p d \<and> get t0 p = None \<and> get t p = Some Dir))"

lemma changed_below_refl [simp]: "changed_below d t t"
  by (simp add: changed_below_def)

lemma changed_below_confined: "confined d t0 t \<Longrightarrow> changed_below d t0 t"
  by (auto simp: changed_below_def confined_def)

lemma changed_below_trans:
  assumes "changed_below d t0 t1" "changed_below d t1 t2"
  shows "changed_below d t0 t2"
  unfolding changed_below_def
proof (intro allI impI)
  fix p assume n: "get t2 p \<noteq> get t0 p"
  show "prefix d p \<or> (strict_prefix p d \<and> get t0 p = None \<and> get t2 p = Some Dir)"
  proof (cases "get t1 p = get t0 p")
    case True
    with n assms(2) show ?thesis unfolding changed_below_def by metis
  next
    case False
    with assms(1) have "prefix d p \<or> (strict_prefix p d \<and> get t0 p = None \<and> get t1 p = Some Dir)" unfolding changed_below_def by blast
    moreover from assms(2) have "get t2 p = get t1 p \<or> prefix d p \<or> (strict_prefix p d \<and> get t1 p = None \<and> get t2 p = Some Dir)"
      unfolding changed_below_def by blast
    ultimately show ?thesis by auto
  qed
qed

lemma changed_below_mono: "changed_below (root @ cs) t0 t \<Longrightarrow> changed_below root t0 t"
  unfolding changed_below_def
proof (intro allI impI)
  fix p
  assume c: "\<forall>p. get t p \<noteq> get t0 p \<longrightarrow> prefix (root @ cs) p \<or> strict_prefix p (root @ cs) \<and> get t0 p = None \<and> get t p = Some Dir"
    and n: "get t p \<noteq> get t0 p"
  from c n have "prefix (root @ cs) p \<or> strict_prefix p (root @ cs) \<and> get t0 p = None \<and> get t p = Some Dir" by blast
  then show "prefix root p \<or> (strict_prefix p root \<and> get t0 p = None \<and> get t p = Some Dir)"
  proof
    assume "prefix (root @ cs) p"
    then show ?thesis by (blast dest: append_prefixD)
  next
    assume s: "strict_prefix p (root @ cs) \<and> get t0 p = None \<and> get t p = Some Dir"
    then have "prefix p root \<or> prefix root p" using prefix_same_cases [of p "root @ cs" root] by (simp add: strict_prefix_def)
    with s show ?thesis by (auto simp: strict_prefix_def)
  qed
qed

text \<open>The same, and no link on the way to \<open>d\<close>.\<close>

definition stays_below :: "fpath \<Rightarrow> fs \<Rightarrow> fs \<Rightarrow> bool" where
  "stays_below d t0 t \<longleftrightarrow> changed_below d t0 t \<and> (no_links t0 d \<longrightarrow> no_links t d)"

lemma stays_below_refl [simp]: "stays_below d t t"
  by (simp add: stays_below_def)

lemma stays_below_changed: "stays_below d t0 t \<Longrightarrow> changed_below d t0 t"
  by (simp add: stays_below_def)

lemma stays_below_trans: "stays_below d t0 t1 \<Longrightarrow> stays_below d t1 t2 \<Longrightarrow> stays_below d t0 t2"
  unfolding stays_below_def using changed_below_trans by blast

lemma stays_below_confined: "confined d t0 t \<Longrightarrow> stays_below d t0 t"
  unfolding stays_below_def using changed_below_confined confined_no_links by blast

lemma stays_below_mono:
  assumes "stays_below (d @ cs) t0 t" "no_links t0 (d @ cs)"
  shows "stays_below d t0 t"
  using assms changed_below_mono no_links_appendD unfolding stays_below_def by blast

lemma stays_below_real_dirs:
  assumes "stays_below (d @ [x]) t0 t" "real_dirs t0 d"
  shows "real_dirs t d"
  unfolding real_dirs_def
proof (intro allI impI)
  fix i assume i: "i \<le> length d"
  then have dir: "get t0 (take i d) = Some Dir" using assms(2) unfolding real_dirs_def by blast
  have "\<not> prefix (d @ [x]) (take i d)" by (auto dest: prefix_length_le)
  with assms(1) dir show "get t (take i d) = Some Dir" unfolding stays_below_def changed_below_def by (metis option.distinct(1))
qed

text \<open>
  What it can mean that a step stays within a directory: a relation of two trees that composes, that holds of a directory when it holds
  of one below, and under which changes stay there. Both \<open>confined\<close> and \<open>stays_below\<close> are such relations.
\<close>

locale dir_scope =
  fixes R :: "fpath \<Rightarrow> fs \<Rightarrow> fs \<Rightarrow> bool"
  assumes scope_refl: "R d t t"
    and scope_trans: "R d t0 t1 \<Longrightarrow> R d t1 t2 \<Longrightarrow> R d t0 t2"
    and scope_mono: "R (d @ cs) t0 t \<Longrightarrow> no_links t0 (d @ cs) \<Longrightarrow> R d t0 t"
    and scope_stays: "R d t0 t \<Longrightarrow> stays_below d t0 t"
begin

lemma scope_no_links: "R d t0 t \<Longrightarrow> no_links t0 d \<Longrightarrow> no_links t d"
  using scope_stays by (auto simp: stays_below_def)

lemma scope_real_dirs: "R (d @ [x]) t0 t \<Longrightarrow> real_dirs t0 d \<Longrightarrow> real_dirs t d"
  using scope_stays [of "d @ [x]" t0 t] stays_below_real_dirs by blast

end

interpretation confined: dir_scope confined
  by unfold_locales (auto intro: confined_trans confined_mono stays_below_confined)

interpretation stays: dir_scope stays_below
  by unfold_locales (auto intro: stays_below_trans stays_below_mono)

text \<open>The state between steps that work below a directory: the directory is there, reached without links.\<close>

definition lay_inv :: "fpath \<Rightarrow> fs \<Rightarrow> fs \<Rightarrow> bool" where
  "lay_inv d t0 t \<longleftrightarrow> changed_below d t0 t \<and> no_links t d \<and> get t d = Some Dir"

text \<open>An entry is put strictly below the directory.\<close>

lemma lay_inv_put:
  assumes "lay_inv d t0 t" "cs \<noteq> []"
  shows "lay_inv d t0 (put (d @ cs) n t)"
proof -
  have g: "get (put (d @ cs) n t) q = (if q = d @ cs then Some n else get t q)" for q
    using assms(2) by (cases "q = []") (auto simp: get_put)
  have "changed_below d t (put (d @ cs) n t)" by (auto simp: changed_below_def g)
  moreover have "take i d \<noteq> d @ cs" for i
    using assms(2) by (auto dest!: arg_cong [of _ _ length] simp: min_def split: if_splits)
  ultimately show ?thesis using assms changed_below_trans by (fastforce simp: lay_inv_def no_links_def g)
qed

lemma lay_inv_confined: "lay_inv d t0 t \<Longrightarrow> confined d t t' \<Longrightarrow> lay_inv d t0 t'"
  unfolding lay_inv_def
  using changed_below_trans changed_below_confined confined_no_links confinedD(3) by blast

lemma lay_inv_Symlink:
  assumes "lay_inv d t0 (files s)" "list_all plain_name (d @ cs)" "no_links (files s) (d @ cs)"
  shows "lay_inv d t0 (files (snd (os_Symlink target (path_str (d @ cs)) s)))"
proof (cases "cs = []")
  case True
  then have r: "q = d" if "resolve (files s) f (path_str d) = Inr q" for f q using resolve_no_links [OF assms(3,2)] that by simp
  have "get (files s) d = Some Dir" using assms(1) by (simp add: lay_inv_def)
  then show ?thesis using assms(1) True
    by (auto simp: os_Symlink_def syscall_def Let_def split: option.splits sum.splits dest!: r)
next
  case False
  then show ?thesis using assms(1) lay_inv_put [OF assms(1) False]
    by (auto simp: os_Symlink_def syscall_def Let_def split: option.splits sum.splits dest!: resolve_no_links [OF assms(3,2)])
qed

end
