(* ===== verification/Json.thy ===== *)
theory Json
  imports Prelude "HOL-Library.AList" "HOL-Library.Word"
begin

text \<open>
  Values: Go's \<open>float64\<close> with its rounding, and the dynamically typed values that \<open>encoding/json\<close> makes of a JSON text
  when it decodes into \<open>interface{}\<close>.
\<close>

section \<open>float64\<close>

text \<open>
  A finite float64 is \<open>Fin m e\<close>, the number \<open>m * 2 ^ e\<close> (signed zeros are one value); then the infinities (\<open>FInf True\<close> is
  the negative one) and NaN.
\<close>

datatype f64 = Fin int int | FInf bool | FNaN

function bit_len :: "int \<Rightarrow> int" where
  "bit_len n = (if n \<le> 0 then 0 else 1 + bit_len (n div 2))"
  by pat_completeness auto
termination
  by (relation "measure nat") auto

declare bit_len.simps [simp del]

text \<open>A natural number divided by \<open>2 ^ k\<close>, rounded to nearest, ties to even.\<close>

definition round_shift :: "nat \<Rightarrow> int \<Rightarrow> int" where
  "round_shift k m =
     (let q = m div 2 ^ k; r = m mod 2 ^ k
      in if 2 * r > 2 ^ k \<or> (2 * r = 2 ^ k \<and> odd q \<and> 0 < k) then q + 1 else q)"

text \<open>The float64 nearest to \<open>m * 2 ^ e\<close>: 53 significant bits, exponents from -1074, overflow to infinity.\<close>

definition f64_round :: "int \<Rightarrow> int \<Rightarrow> f64" where
  "f64_round m e =
     (let k = nat (max (bit_len \<bar>m\<bar> - 53) (- 1074 - e));
          q = round_shift k \<bar>m\<bar>;
          e' = e + int k
      in if bit_len q + e' > 1024 then FInf (m < 0) else Fin (sgn m * q) e')"

definition f64_of_int :: "int \<Rightarrow> f64" where
  "f64_of_int i = f64_round i 0"

text \<open>The float64 nearest to the decimal number \<open>m * 10 ^ e\<close>, through a quotient with a sticky last bit.\<close>

definition f64_of_dec :: "int \<Rightarrow> int \<Rightarrow> f64" where
  "f64_of_dec m e =
     (if 0 \<le> e then f64_round (m * 10 ^ nat e) 0
      else let d = 10 ^ nat (- e);
               s = max 0 (56 - (bit_len \<bar>m\<bar> - bit_len d));
               n = \<bar>m\<bar> * 2 ^ nat s;
               q = 2 * (n div d) + (if n mod d = 0 then 0 else 1)
           in f64_round (sgn m * q) (- s - 1))"

fun f64_neg :: "f64 \<Rightarrow> bool" where
  "f64_neg (Fin m e) = (m < 0)"
| "f64_neg (FInf n) = n"
| "f64_neg FNaN = False"

fun f64_mul :: "f64 \<Rightarrow> f64 \<Rightarrow> f64" where
  "f64_mul (Fin a e) (Fin b f) = f64_round (a * b) (e + f)"
| "f64_mul FNaN y = FNaN"
| "f64_mul x FNaN = FNaN"
| "f64_mul (FInf n) (Fin b f) = (if b = 0 then FNaN else FInf (n \<noteq> (b < 0)))"
| "f64_mul (Fin a e) (FInf n) = (if a = 0 then FNaN else FInf (n \<noteq> (a < 0)))"
| "f64_mul (FInf n) (FInf m) = FInf (n \<noteq> m)"

text \<open>The product, so that the code's \<open>*\<close> on float64 is written \<open>*\<close> here.\<close>

instantiation f64 :: times
begin
definition times_f64 :: "f64 \<Rightarrow> f64 \<Rightarrow> f64" where
  "times_f64 x y = f64_mul x y"
instance ..
end

text \<open>\<open>x <= 0\<close>; a comparison with NaN is false.\<close>

fun f64_le_zero :: "f64 \<Rightarrow> bool" where
  "f64_le_zero (Fin m e) = (m \<le> 0)"
| "f64_le_zero (FInf n) = n"
| "f64_le_zero FNaN = False"

definition trunc_scaled :: "int \<Rightarrow> int \<Rightarrow> int" where
  "trunc_scaled m e = (if 0 \<le> e then m * 2 ^ nat e else sgn m * (\<bar>m\<bar> div 2 ^ nat (- e)))"

text \<open>
  \<open>uint64(x)\<close>: the fraction is dropped. Where the result does not fit, Go leaves it to the implementation,
  here the function \<open>oob\<close>.
\<close>

fun u64_of_f64 :: "(f64 \<Rightarrow> 64 word) \<Rightarrow> f64 \<Rightarrow> 64 word" where
  "u64_of_f64 oob (Fin m e) =
     (let v = trunc_scaled m e in if 0 \<le> v \<and> v < 2 ^ 64 then word_of_int v else oob (Fin m e))"
| "u64_of_f64 oob x = oob x"

lemma bit_len_nonneg: "0 \<le> bit_len n"
proof (induction n rule: bit_len.induct)
  case (1 n)
  then show ?case by (subst bit_len.simps) auto
qed

lemma bit_len_pow: "n < 2 ^ k \<Longrightarrow> bit_len n \<le> int k"
proof (induction k arbitrary: n)
  case 0
  then show ?case by (subst bit_len.simps) simp
next
  case (Suc k)
  show ?case
  proof (cases "n \<le> 0")
    case True
    then show ?thesis by (subst bit_len.simps) simp
  next
    case False
    from Suc.prems have "n div 2 < 2 ^ k" by auto
    with Suc.IH have "bit_len (n div 2) \<le> int k" by blast
    with False show ?thesis by (subst bit_len.simps) simp
  qed
qed

lemma round_shift_0 [simp]: "round_shift 0 m = m"
  by (simp add: round_shift_def Let_def)

lemma half_up_error:
  fixes P R :: int
  assumes "P \<le> 2 * R" "R < P"
  shows "\<bar>2 * (P - R)\<bar> \<le> P"
  using assms by (auto simp: abs_le_iff)

text \<open>Rounding moves a number by at most half a unit of the last place.\<close>

lemma round_shift_error: "\<bar>2 * (round_shift k m * 2 ^ k - m)\<bar> \<le> 2 ^ k"
proof -
  have m: "m = m div 2 ^ k * 2 ^ k + m mod 2 ^ k" by (rule div_mult_mod_eq [symmetric])
  have r: "0 \<le> m mod 2 ^ k" "m mod 2 ^ k < 2 ^ k" by simp_all
  show ?thesis
  proof (cases "round_shift k m = m div 2 ^ k")
    case True
    then have "round_shift k m * 2 ^ k = m div 2 ^ k * 2 ^ k" by (simp only:)
    then have "round_shift k m * 2 ^ k - m = - (m mod 2 ^ k)" using m by linarith
    moreover have "2 * (m mod 2 ^ k) \<le> 2 ^ k"
      using True r by (auto simp: round_shift_def Let_def split: if_splits)
    ultimately show ?thesis using r by simp
  next
    case False
    then have q: "round_shift k m = m div 2 ^ k + 1" and "2 ^ k \<le> 2 * (m mod 2 ^ k)"
      by (auto simp: round_shift_def Let_def split: if_splits)
    moreover have "round_shift k m * 2 ^ k = m div 2 ^ k * 2 ^ k + 2 ^ k"
      by (simp only: q distrib_right mult_1)
    then have "round_shift k m * 2 ^ k - m = 2 ^ k - m mod 2 ^ k" using m by linarith
    ultimately have d: "round_shift k m * 2 ^ k - m = 2 ^ k - m mod 2 ^ k" "2 ^ k \<le> 2 * (m mod 2 ^ k)"
      by blast+
    show ?thesis unfolding d(1) by (rule half_up_error [OF d(2) r(2)])
  qed
qed

text \<open>A number of at most 53 bits and of a normal exponent is exact.\<close>

lemma f64_round_exact:
  assumes "\<bar>m\<bar> < 2 ^ 53" "- 1074 \<le> e" "e \<le> 900"
  shows "f64_round m e = Fin m e"
proof -
  have b: "bit_len \<bar>m\<bar> \<le> 53" using bit_len_pow [of "\<bar>m\<bar>" 53] assms(1) by simp
  with assms(2,3) show ?thesis
    by (simp add: f64_round_def Let_def) (simp add: sgn_mult_abs)
qed

section \<open>Dynamically typed values\<close>

text \<open>A JSON number literal: of integer syntax, or the decimal \<open>m * 10 ^ e\<close>.\<close>

datatype jnum = NInt int | NDec int int

fun num_f64 :: "jnum \<Rightarrow> f64" where
  "num_f64 (NInt i) = f64_of_int i"
| "num_f64 (NDec m e) = f64_of_dec m e"

text \<open>
  A value of type \<open>interface{}\<close>: \<open>nil\<close>, a bool, a float64 (kept as its literal), a string, a slice, or a
  \<open>map[string]interface{}\<close>. A map is an association list in some order; its iteration order means nothing.
\<close>

datatype json =
    JNull | JBool bool | JNum jnum | JStr string | JArr "json list" | JObj "(string \<times> json) list"

type_synonym gomap = "(string \<times> json) list"

text \<open>\<open>m[k]\<close> of a missing key is \<open>nil\<close>; \<open>v, ok := m[k]\<close> is \<open>map_of m k\<close>; \<open>m[k] = v\<close> is \<open>AList.update k v m\<close>.\<close>

definition gm_get :: "gomap \<Rightarrow> string \<Rightarrow> json" where
  "gm_get m k = (case map_of m k of None \<Rightarrow> JNull | Some v \<Rightarrow> v)"

text \<open>The type assertions \<open>v.(string)\<close>, \<open>v.(float64)\<close>, \<open>v.(map[string]interface{})\<close>, \<open>v.([]interface{})\<close>.\<close>

fun as_string :: "json \<Rightarrow> string option" where
  "as_string (JStr s) = Some s"
| "as_string v = None"

fun as_float :: "json \<Rightarrow> f64 option" where
  "as_float (JNum n) = Some (num_f64 n)"
| "as_float v = None"

fun as_map :: "json \<Rightarrow> gomap option" where
  "as_map (JObj m) = Some m"
| "as_map v = None"

fun as_slice :: "json \<Rightarrow> json list option" where
  "as_slice (JArr xs) = Some xs"
| "as_slice v = None"

lemma gm_get_update: "gm_get (AList.update k v m) k' = (if k' = k then v else gm_get m k')"
  by (simp add: gm_get_def update_conv')

text \<open>
  Decoding into \<open>map[string]interface{}\<close>: an object gives its entries, \<open>null\<close> gives the nil map, and anything else is
  an error. Of several entries with one key, here and in the objects inside, the last counts.
\<close>

fun last_wins :: "gomap \<Rightarrow> gomap" where
  "last_wins [] = []"
| "last_wins ((k, v) # m) = (if k \<in> fst ` set m then last_wins m else (k, v) # last_wins m)"

fun dedup :: "json \<Rightarrow> json" where
  "dedup (JObj m) = JObj (last_wins (map (\<lambda>e. (fst e, dedup (snd e))) m))"
| "dedup (JArr vs) = JArr (map dedup vs)"
| "dedup v = v"

fun decode_map :: "json \<Rightarrow> gomap option" where
  "decode_map (JObj m) = Some (last_wins (map (\<lambda>e. (fst e, dedup (snd e))) m))"
| "decode_map JNull = Some []"
| "decode_map v = None"

lemma last_wins_keys: "set (map fst (last_wins m)) = set (map fst m)"
  by (induction m rule: last_wins.induct) (auto simp: image_iff)

lemma last_wins_distinct: "distinct (map fst (last_wins m))"
  by (induction m rule: last_wins.induct) (auto simp: last_wins_keys simp flip: set_map simp del: set_map)

lemma decode_map_distinct: "decode_map v = Some m \<Longrightarrow> distinct (map fst m)"
  by (cases v) (auto simp: last_wins_distinct)

end
