(* ===== verification/Util.thy ===== *)
theory Util
  imports FsScope Json
begin

text \<open>
  The packages \<open>internal/util\<close>, \<open>internal/modelschema\<close> and \<open>internal/envconfig\<close>, and the code they rest on that is not
  part of the repository, as parameters.
\<close>

section \<open>Code outside the repository\<close>

text \<open>
  \<open>x_securejoin\<close> is \<open>filepath-securejoin\<close>, which looks at the file system; \<open>x_parse\<close> and \<open>x_print\<close> are the JSON
  text of a value (\<open>None\<close> is a syntax error); \<open>x_oob\<close> is the conversion of a float64 that does not fit a uint64;
  \<open>x_code\<close> is \<open>status.Code\<close> of gRPC; \<open>x_float\<close> and \<open>x_duration\<close> read a float64 and a duration in nanoseconds.
\<close>

record ext =
  x_securejoin :: "fs \<Rightarrow> string \<Rightarrow> string \<Rightarrow> string res"
  x_parse :: "string \<Rightarrow> json option"
  x_print :: "json \<Rightarrow> string"
  x_oob :: "f64 \<Rightarrow> 64 word"
  x_code :: "goerr \<Rightarrow> code"
  x_float :: "string \<Rightarrow> f64 option"
  x_duration :: "string \<Rightarrow> int option"

text \<open>
  The documented behaviour that theorems assume by name: joining plain names to a chain of
  real directories, where no link is on the way, is \<open>filepath.Join\<close>, and the code of a status error is the code it was made with.
\<close>

definition is_link :: "node option \<Rightarrow> bool" where
  "is_link n = (case n of Some (Link l) \<Rightarrow> True | _ \<Rightarrow> False)"

definition securejoin_plain :: "ext \<Rightarrow> bool" where
  "securejoin_plain X \<longleftrightarrow> (\<forall>t p xs. real_dirs t p \<longrightarrow> list_all plain_name (p @ xs) \<longrightarrow> p \<noteq> [] \<longrightarrow> xs \<noteq> [] \<longrightarrow>
     no_links t (p @ xs) \<longrightarrow> x_securejoin X t (path_str p) (join_with slash xs) = Ok (path_str (p @ xs)))"

text \<open>
  Any result is a path below the root, without symbolic links from the root's own path on: they were evaluated.
\<close>

definition securejoin_scoped :: "ext \<Rightarrow> bool" where
  "securejoin_scoped X \<longleftrightarrow> (\<forall>t p u q. list_all plain_name p \<longrightarrow> p \<noteq> [] \<longrightarrow> no_links t p \<longrightarrow>
     x_securejoin X t (path_str p) u = Ok q \<longrightarrow>
     (\<exists>cs. q = path_str (p @ cs) \<and> list_all plain_name cs \<and> no_links t (p @ cs)))"

text \<open>A relative root is taken from the working directory, and the result stays relative.\<close>

definition securejoin_relative :: "ext \<Rightarrow> bool" where
  "securejoin_relative X \<longleftrightarrow> (\<forall>t v x. plain_name v \<longrightarrow> plain_name x \<longrightarrow> no_links t [v, x] \<longrightarrow>
     x_securejoin X t v x = Ok (join_with slash [v, x]))"

definition status_codes :: "ext \<Rightarrow> bool" where
  "status_codes X \<longleftrightarrow> (\<forall>c m e. x_code X (StatusErr c m e) = c)"

text \<open>An instance: a join that refuses links, and a JSON reader that knows no text.\<close>

definition demo_securejoin :: "fs \<Rightarrow> string \<Rightarrow> string \<Rightarrow> string res" where
  "demo_securejoin t root u =
     (let p = comps root @ comps u
      in if list_all plain_name p \<and> list_all (\<lambda>i. \<not> is_link (get t (take i p))) [0..<Suc (length p)]
         then Ok (if has_prefix root [slash] then path_str p else join_with slash p) else Err (ExtErr ''securejoin''))"

fun demo_code :: "goerr \<Rightarrow> code" where
  "demo_code (StatusErr c m e) = c"
| "demo_code e = CodeUnknown"

definition demo_ext :: ext where
  "demo_ext = \<lparr>x_securejoin = demo_securejoin, x_parse = (\<lambda>s. None), x_print = (\<lambda>v. []), x_oob = (\<lambda>x. 2 ^ 63),
     x_code = demo_code, x_float = (\<lambda>s. None), x_duration = (\<lambda>s. None)\<rparr>"

lemma demo_ext_sel [simp]:
  "x_securejoin demo_ext = demo_securejoin" "x_parse demo_ext = (\<lambda>s. None)" "x_oob demo_ext = (\<lambda>x. 2 ^ 63)"
  "x_code demo_ext = demo_code"
  by (simp_all add: demo_ext_def)

lemma no_links_list: "no_links t p \<longleftrightarrow> list_all (\<lambda>i. \<not> is_link (get t (take i p))) [0..<Suc (length p)]"
  by (auto simp: no_links_def list_all_iff is_link_def less_Suc_eq_le split: option.splits node.splits)

lemma has_prefix_path_str: "p \<noteq> [] \<Longrightarrow> has_prefix (path_str p) [slash]"
  by (cases p) (simp_all add: path_str_def has_prefix_def)

lemma demo_securejoin_scoped: "x_securejoin X = demo_securejoin \<Longrightarrow> securejoin_scoped X"
  unfolding securejoin_scoped_def
  by (auto simp: demo_securejoin_def Let_def comps_path_str no_links_list has_prefix_path_str simp del: upt_Suc split: if_splits)

lemma comps_join:
  assumes "list_all plain_name xs" "xs \<noteq> []"
  shows "comps (join_with slash xs) = xs"
proof -
  have "split_on slash (join_with slash xs) = xs"
    by (rule split_join [OF assms(2)]) (use assms(1) in \<open>auto simp: list_all_iff plain_name_def\<close>)
  with assms(1) show ?thesis by (auto simp: comps_def list_all_iff plain_name_def intro: filter_True)
qed

lemma comps_plain: "plain_name x \<Longrightarrow> comps x = [x]"
  using comps_join [of "[x]"] by simp

lemma demo_securejoin_plain:
  assumes "x_securejoin X = demo_securejoin"
  shows "securejoin_plain X"
  unfolding securejoin_plain_def
  using assms by (auto simp: demo_securejoin_def Let_def comps_path_str comps_join no_links_list has_prefix_path_str simp del: upt_Suc)

lemma securejoin_plainD:
  assumes "securejoin_plain X" "real_dirs t p" "list_all plain_name p" "p \<noteq> []" "plain_name x" "\<not> is_link (get t (p @ [x]))"
  shows "x_securejoin X t (path_str p) x = Ok (path_str (p @ [x]))"
proof -
  have "no_links t (p @ [x])" using assms(2,6) by (auto simp: no_links_snoc real_dirs_no_links is_link_def)
  with assms(2-5) have "x_securejoin X t (path_str p) (join_with slash [x]) = Ok (path_str (p @ [x]))"
    by (intro assms(1) [unfolded securejoin_plain_def, rule_format]) simp_all
  then show ?thesis by simp
qed

lemma demo_securejoin_relative: "x_securejoin X = demo_securejoin \<Longrightarrow> securejoin_relative X"
  unfolding securejoin_relative_def
proof (intro allI impI)
  fix t v x assume X: "x_securejoin X = demo_securejoin" and v: "plain_name v" "plain_name x" "no_links t [v, x]"
  have "v \<noteq> [] \<and> hd v \<noteq> slash" using v(1) by (cases v) (auto simp: plain_name_def)
  then have "\<not> has_prefix v [slash]" by (cases v) (auto simp: has_prefix_def)
  then show "x_securejoin X t v x = Ok (join_with slash [v, x])"
    using X v by (simp add: demo_securejoin_def Let_def comps_plain no_links_list del: upt_Suc)
qed

lemma demo_ext_laws: "securejoin_scoped demo_ext" "securejoin_plain demo_ext" "status_codes demo_ext"
  by (simp_all add: demo_securejoin_scoped demo_securejoin_plain status_codes_def)

section \<open>util: connect.go and join.go\<close>

fun replace_first :: "string \<Rightarrow> string \<Rightarrow> string \<Rightarrow> string" where
  "replace_first old new [] = (if old = [] then new else [])"
| "replace_first old new (c # cs) =
     (if has_prefix (c # cs) old then new @ drop (length old) (c # cs) else c # replace_first old new cs)"

text \<open>The regular expression \<open>^port:[0-9]+$\<close>.\<close>

definition is_port_endpoint :: "string \<Rightarrow> bool" where
  "is_port_endpoint s \<longleftrightarrow> has_prefix s ''port:'' \<and> drop 5 s \<noteq> [] \<and> list_all is_digit (drop 5 s)"

definition ResolveLocalGrpcEndpoint :: "string \<Rightarrow> string res" where
  "ResolveLocalGrpcEndpoint e =
     (if is_port_endpoint e then Ok (replace_first ''port'' ''localhost'' e)
      else if \<not> has_prefix e ''unix:'' then Err (ErrMsg (''Invalid Endpoint: '' @ e) [])
      else Ok e)"

definition SecureJoin_at :: "ext \<Rightarrow> fs \<Rightarrow> string list \<Rightarrow> string res" where
  "SecureJoin_at X t elem =
     (if length elem > 2 then x_securejoin X t (hd elem) (path_Join (tl elem))
      else if length elem = 2 then x_securejoin X t (hd elem) (elem ! 1)
      else Err (ErrMsg ''Expected at least 2 parameters'' []))"

definition SecureJoin :: "ext \<Rightarrow> string list \<Rightarrow> (os, string) step" where
  "SecureJoin X elem = (\<lambda>s. (SecureJoin_at X (files s) elem, s))"

section \<open>util: fileutil.go\<close>

text \<open>The loop keeps the last index with the name.\<close>

fun last_index :: "string \<Rightarrow> finfo list \<Rightarrow> nat \<Rightarrow> nat option \<Rightarrow> nat option" where
  "last_index nm [] i acc = acc"
| "last_index nm (f # fs) i acc = last_index nm fs (Suc i) (if fi_name f = nm then Some i else acc)"

definition RemoveFileFromListOfFileInfo :: "string \<Rightarrow> finfo list \<Rightarrow> bool \<times> finfo list" where
  "RemoveFileFromListOfFileInfo nm fs =
     (case last_index nm fs 0 None of
        None \<Rightarrow> (False, fs)
      | Some i \<Rightarrow> (True, take (length fs - 1) (fs[i := fs ! (length fs - 1)])))"

definition FileExists :: "string \<Rightarrow> (os, bool) step" where
  "FileExists p = andThen (attempt (os_Stat p)) (\<lambda>r. case r of
       Ok i \<Rightarrow> ret True
     | Err e \<Rightarrow> if os_IsNotExist e then ret False else fail_with e
     | Panic m \<Rightarrow> lift_res (Panic m))"

fun clear_entries :: "string \<Rightarrow> (finfo \<Rightarrow> bool) option \<Rightarrow> finfo list \<Rightarrow> (os, unit) step" where
  "clear_entries dir cond [] = ret ()"
| "clear_entries dir cond (f # fs) =
     (if cond \<noteq> None \<and> \<not> the cond f then clear_entries dir cond fs
      else let filePath = path_Join [dir, fi_name f]
           in andThen (attempt (os_RemoveAll filePath)) (\<lambda>r. case r of
                Err e \<Rightarrow> if errors_Is_NotExist e then clear_entries dir cond fs
                  else fail_with (ErrWrap ''Error removing preexisting entry from model store dir: %s: %w'' [filePath] e)
              | _ \<Rightarrow> clear_entries dir cond fs))"

definition ClearDirectoryContents :: "string \<Rightarrow> (finfo \<Rightarrow> bool) option \<Rightarrow> (os, unit) step" where
  "ClearDirectoryContents dir cond = andThen (attempt (os_ReadDir dir)) (\<lambda>r. case r of
       Err e \<Rightarrow> if errors_Is_NotExist e then ret ()
         else fail_with (ErrWrap ''Error listing files to clean up in model dir %s: %w'' [dir] e)
     | Ok fs \<Rightarrow> clear_entries dir cond fs
     | Panic m \<Rightarrow> lift_res (Panic m))"

section \<open>util: loadmodel.go\<close>

record LoadModelRequest =
  ModelId :: string
  ModelType :: string
  ModelPath :: string
  ModelKey :: string

text \<open>\<open>json.Unmarshal\<close> of a text into \<open>map[string]interface{}\<close>.\<close>

definition unmarshal_map :: "ext \<Rightarrow> string \<Rightarrow> gomap option" where
  "unmarshal_map X s = Option.bind (x_parse X s) decode_map"

definition GetModelType :: "ext \<Rightarrow> LoadModelRequest \<Rightarrow> string" where
  "GetModelType X req =
     (case unmarshal_map X (ModelKey req) of
        None \<Rightarrow> ModelType req
      | Some key \<Rightarrow> (case gm_get key ''model_type'' of
            JNull \<Rightarrow> ModelType req
          | JObj m \<Rightarrow> (case as_string (gm_get m ''name'') of Some str \<Rightarrow> str | None \<Rightarrow> ModelType req)
          | JStr str \<Rightarrow> str
          | _ \<Rightarrow> ModelType req))"

definition GetSchemaPath :: "ext \<Rightarrow> LoadModelRequest \<Rightarrow> string res" where
  "GetSchemaPath X req =
     (case unmarshal_map X (ModelKey req) of
        None \<Rightarrow> Err (ErrMsg ''Invalid modelKey in LoadModelRequest. ModelKey value '%s' is not valid JSON: %s'' [ModelKey req])
      | Some key \<Rightarrow> (case as_string (gm_get key ''schema_path'') of
            Some p \<Rightarrow> Ok p
          | None \<Rightarrow> if gm_get key ''schema_path'' \<noteq> JNull
              then Err (ErrMsg ''Invalid schemaPath in LoadModelRequest, '%s' attribute must have a string value. Found value %v'' [''schema_path''])
              else Ok []))"

definition CalcMemCapacity :: "ext \<Rightarrow> string \<Rightarrow> int \<Rightarrow> f64 \<Rightarrow> 64 word" where
  "CalcMemCapacity X reqModelKey defaultSize multiplier =
     (let size = word_of_int defaultSize
      in case unmarshal_map X reqModelKey of
           None \<Rightarrow> size
         | Some key \<Rightarrow>
             if gm_get key ''disk_size_bytes'' \<noteq> JNull
             then (case as_float (gm_get key ''disk_size_bytes'') of
                 Some diskSize \<Rightarrow> u64_of_f64 (x_oob X) (diskSize * multiplier)
               | None \<Rightarrow> size)
             else size)"

section \<open>modelschema.go\<close>

record TensorMetadata =
  tm_Name :: string
  tm_Datatype :: string
  tm_Shape :: "int list option"

record ModelSchema =
  Inputs :: "TensorMetadata list option"
  Outputs :: "TensorMetadata list option"

text \<open>
  Decoding into a struct: a field takes the last entry whose key is its name, in any case; a missing entry and
  \<open>null\<close> leave the zero value; a value of another type is an error (\<open>None\<close>).
\<close>

fun field :: "gomap \<Rightarrow> string \<Rightarrow> json" where
  "field [] k = JNull"
| "field ((k', v) # m) k =
     (if to_lower k' = to_lower k \<and> \<not> (\<exists>e \<in> set m. to_lower (fst e) = to_lower k) then v else field m k)"

fun dec_string :: "json \<Rightarrow> string option" where
  "dec_string JNull = Some []"
| "dec_string (JStr s) = Some s"
| "dec_string v = None"

fun dec_int64 :: "json \<Rightarrow> int option" where
  "dec_int64 JNull = Some 0"
| "dec_int64 (JNum (NInt i)) = (if - (2 ^ 63) \<le> i \<and> i < 2 ^ 63 then Some i else None)"
| "dec_int64 v = None"

fun dec_all :: "(json \<Rightarrow> 'a option) \<Rightarrow> json list \<Rightarrow> 'a list option" where
  "dec_all f [] = Some []"
| "dec_all f (v # vs) = (case f v of None \<Rightarrow> None | Some x \<Rightarrow>
     (case dec_all f vs of None \<Rightarrow> None | Some xs \<Rightarrow> Some (x # xs)))"

fun dec_slice :: "(json \<Rightarrow> 'a option) \<Rightarrow> json \<Rightarrow> 'a list option option" where
  "dec_slice f JNull = Some None"
| "dec_slice f (JArr vs) = map_option Some (dec_all f vs)"
| "dec_slice f v = None"

fun dec_tensor :: "json \<Rightarrow> TensorMetadata option" where
  "dec_tensor JNull = Some \<lparr>tm_Name = [], tm_Datatype = [], tm_Shape = None\<rparr>"
| "dec_tensor (JObj m) =
     (case (dec_string (field m ''name''), dec_string (field m ''datatype''), dec_slice dec_int64 (field m ''shape'')) of
        (Some n, Some d, Some sh) \<Rightarrow> Some \<lparr>tm_Name = n, tm_Datatype = d, tm_Shape = sh\<rparr>
      | _ \<Rightarrow> None)"
| "dec_tensor v = None"

fun dec_schema :: "json \<Rightarrow> ModelSchema option" where
  "dec_schema JNull = Some \<lparr>Inputs = None, Outputs = None\<rparr>"
| "dec_schema (JObj m) =
     (case (dec_slice dec_tensor (field m ''inputs''), dec_slice dec_tensor (field m ''outputs'')) of
        (Some i, Some out) \<Rightarrow> Some \<lparr>Inputs = i, Outputs = out\<rparr>
      | _ \<Rightarrow> None)"
| "dec_schema v = None"

definition schema_NewFromFile :: "ext \<Rightarrow> string \<Rightarrow> (os, ModelSchema) step" where
  "schema_NewFromFile X file =
     andThen (wrapErr (ErrWrap ''Unable to read model schema file %s: %w'' [file]) (os_ReadFile file)) (\<lambda>bytes.
       case Option.bind (x_parse X bytes) dec_schema of
         None \<Rightarrow> fail_with (ErrWrap ''Unable to parse model schema JSON: %w'' [] (ExtErr ''json''))
       | Some schema \<Rightarrow> ret schema)"

section \<open>envconfig.go\<close>

type_synonym env = "string \<Rightarrow> string option"

text \<open>A value that cannot be read ends the process, which \<open>Panic\<close> stands for.\<close>

definition os_Exit :: "'a res" where
  "os_Exit = Panic ''os.Exit(1)''"

definition GetEnvString :: "env \<Rightarrow> string \<Rightarrow> string \<Rightarrow> string" where
  "GetEnvString E key def = (case E key of Some val \<Rightarrow> val | None \<Rightarrow> def)"

definition GetEnvInt :: "env \<Rightarrow> string \<Rightarrow> int \<Rightarrow> int res" where
  "GetEnvInt E key def = (case E key of
     Some strVal \<Rightarrow> (case Atoi strVal of Some val \<Rightarrow> Ok val | None \<Rightarrow> os_Exit)
   | None \<Rightarrow> Ok def)"

definition GetEnvInt32 :: "env \<Rightarrow> string \<Rightarrow> int \<Rightarrow> int res" where
  "GetEnvInt32 E key def = (case E key of
     Some strVal \<Rightarrow> (case parse_int 32 strVal of Some val \<Rightarrow> Ok val | None \<Rightarrow> os_Exit)
   | None \<Rightarrow> Ok def)"

definition GetEnvFloat :: "ext \<Rightarrow> env \<Rightarrow> string \<Rightarrow> f64 \<Rightarrow> f64 res" where
  "GetEnvFloat X E key def = (case E key of
     Some strVal \<Rightarrow> (case x_float X strVal of Some val \<Rightarrow> Ok val | None \<Rightarrow> os_Exit)
   | None \<Rightarrow> Ok def)"

definition ParseBool :: "string \<Rightarrow> bool option" where
  "ParseBool s =
     (if s \<in> {''1'', ''t'', ''T'', ''TRUE'', ''true'', ''True''} then Some True
      else if s \<in> {''0'', ''f'', ''F'', ''FALSE'', ''false'', ''False''} then Some False
      else None)"

definition GetEnvBool :: "env \<Rightarrow> string \<Rightarrow> bool \<Rightarrow> bool res" where
  "GetEnvBool E key def = (case E key of
     Some strVal \<Rightarrow> (case ParseBool strVal of Some val \<Rightarrow> Ok val | None \<Rightarrow> os_Exit)
   | None \<Rightarrow> Ok def)"

definition GetEnvDuration :: "ext \<Rightarrow> env \<Rightarrow> string \<Rightarrow> int \<Rightarrow> int res" where
  "GetEnvDuration X E key def = (case E key of
     Some strVal \<Rightarrow> (case x_duration X strVal of Some val \<Rightarrow> Ok val | None \<Rightarrow> os_Exit)
   | None \<Rightarrow> Ok def)"

end
