(* ===== verification/Mmesh.thy ===== *)
theory Mmesh
  imports Util
begin

text \<open>
  The messages of the model-mesh runtime interface, which the puller and the four adapters serve, and the interface of a
  runtime as its client sees it. The gRPC code itself is generated and not part of the repository's own sources: a
  client is a record of steps, one per remote call, that may change the files the processes share.
\<close>

section \<open>Messages\<close>

record LoadModelResponse =
  SizeInBytes :: "64 word"
  MaxConcurrency :: "32 word"

datatype rt_state = STARTING | READY | FAILING

record RuntimeStatusResponse =
  rs_Status :: rt_state
  CapacityInBytes :: "64 word"
  MaxLoadingConcurrency :: "32 word"
  ModelLoadingTimeoutMs :: "32 word"
  DefaultModelSizeInBytes :: "64 word"
  RuntimeVersion :: string
  LimitModelConcurrency :: bool
  MethodInfos :: "(string \<times> nat list) list"

text \<open>A message with only its state set; every other field has its zero value.\<close>

definition status_only :: "rt_state \<Rightarrow> RuntimeStatusResponse" where
  "status_only st = \<lparr>rs_Status = st, CapacityInBytes = 0, MaxLoadingConcurrency = 0, ModelLoadingTimeoutMs = 0,
     DefaultModelSizeInBytes = 0, RuntimeVersion = [], LimitModelConcurrency = False, MethodInfos = []\<rparr>"

lemma status_only_state [simp]: "rs_Status (status_only st) = st"
  by (simp add: status_only_def)

section \<open>The runtime as a client sees it\<close>

text \<open>One step per remote call; \<open>Err\<close> is the error that the call returns.\<close>

record runtime_client =
  rt_LoadModel :: "LoadModelRequest \<Rightarrow> (os, LoadModelResponse) step"
  rt_UnloadModel :: "string \<Rightarrow> (os, unit) step"
  rt_PredictModelSize :: "LoadModelRequest \<Rightarrow> (os, 64 word) step"
  rt_ModelSize :: "string \<Rightarrow> (os, 64 word) step"
  rt_RuntimeStatus :: "(os, RuntimeStatusResponse) step"

text \<open>\<open>status.FromError(err)\<close> gives a status whose code is NotFound.\<close>

definition is_NotFound :: "ext \<Rightarrow> goerr \<Rightarrow> bool" where
  "is_NotFound X e \<longleftrightarrow> x_code X e = CodeNotFound"

text \<open>
  A call of the runtime's \<open>UnloadModel\<close> whose error is tolerated when it is one of \<open>F\<close>, such as NotFound: the model is not registered, which is
  what was asked for.
\<close>

definition unload_tolerant :: "(goerr \<Rightarrow> bool) \<Rightarrow> (goerr \<Rightarrow> goerr) \<Rightarrow> ('s, unit) step \<Rightarrow> ('s, unit) step" where
  "unload_tolerant F g m = andThen (attempt m) (\<lambda>r. case r of
     Err e \<Rightarrow> if F e then ret () else fail_with (g e)
   | _ \<Rightarrow> ret ())"

lemma unload_tolerant_Ok_iff:
  "unload_tolerant F g m s = (Ok (), s') \<longleftrightarrow> m s = (Ok (), s') \<or> (\<exists>e. m s = (Err e, s') \<and> F e)"
  by (auto simp: unload_tolerant_def andThen_def attempt_def split: prod.splits res.splits)

lemma unload_tolerant_Err: "m s = (Err e, s') \<Longrightarrow> \<not> F e \<Longrightarrow> unload_tolerant F g m s = (Err (g e), s')"
  by (simp add: unload_tolerant_def andThen_def attempt_def)

lemma unload_tolerant_snd: "snd (unload_tolerant F g m s) = snd (m s)"
  by (auto simp: unload_tolerant_def andThen_def attempt_def split: prod.splits res.splits)

end
