(* ===== verification/OvmsManager.thy ===== *)
theory OvmsManager
  imports Mmesh "HOL-Library.Multiset"
begin

text \<open>
  \<open>model-mesh-ovms-adapter/server\<close>: \<open>modelconfig.go\<close> and \<open>modelmanager.go\<close>. The model manager is an actor: one goroutine
  owns the configuration of OVMS, gathers requests into batches and reloads OVMS once per batch. Its steps are functions on its state;
  \<open>ov_step\<close> composes them into the events that the goroutine can see, and \<open>ov_reach\<close> is what it can reach.

  The HTTP client is the environment: an event carries the replies. A reply to \<open>GetConfig\<close>, which other goroutines call
  without a lock, is an event between two others.
\<close>

section \<open>modelconfig.go\<close>

record OvmsMultiModelModelConfig =
  cfg_Name :: string
  cfg_BasePath :: string

record OvmsModelStatus =
  st_ErrorCode :: string
  st_ErrorMessage :: string

record OvmsModelVersionStatus =
  vs_Version :: string
  vs_State :: string
  vs_Status :: OvmsModelStatus

type_synonym OvmsConfigResponse = "(string \<times> OvmsModelVersionStatus list) list"

definition enc_config_entry :: "OvmsMultiModelModelConfig \<Rightarrow> json" where
  "enc_config_entry c = JObj [(''config'', JObj [(''name'', JStr (cfg_Name c)), (''base_path'', JStr (cfg_BasePath c))])]"

definition enc_repository_config :: "OvmsMultiModelModelConfig list \<Rightarrow> json" where
  "enc_repository_config cs = JObj [(''model_config_list'', JArr (map enc_config_entry cs))]"

fun dec_model_config :: "json \<Rightarrow> OvmsMultiModelModelConfig option" where
  "dec_model_config JNull = Some \<lparr>cfg_Name = [], cfg_BasePath = []\<rparr>"
| "dec_model_config (JObj m) = (case (dec_string (field m ''name''), dec_string (field m ''base_path'')) of
     (Some n, Some p) \<Rightarrow> Some \<lparr>cfg_Name = n, cfg_BasePath = p\<rparr> | _ \<Rightarrow> None)"
| "dec_model_config v = None"

fun dec_config_entry :: "json \<Rightarrow> OvmsMultiModelModelConfig option" where
  "dec_config_entry JNull = dec_model_config JNull"
| "dec_config_entry (JObj m) = dec_model_config (field m ''config'')"
| "dec_config_entry v = None"

fun dec_repository_config :: "json \<Rightarrow> OvmsMultiModelModelConfig list option" where
  "dec_repository_config JNull = Some []"
| "dec_repository_config (JObj m) = map_option (case_option [] id) (dec_slice dec_config_entry (field m ''model_config_list''))"
| "dec_repository_config v = None"

fun dec_model_status :: "json \<Rightarrow> OvmsModelStatus option" where
  "dec_model_status JNull = Some \<lparr>st_ErrorCode = [], st_ErrorMessage = []\<rparr>"
| "dec_model_status (JObj m) = (case (dec_string (field m ''error_code''), dec_string (field m ''error_message'')) of
     (Some c, Some e) \<Rightarrow> Some \<lparr>st_ErrorCode = c, st_ErrorMessage = e\<rparr> | _ \<Rightarrow> None)"
| "dec_model_status v = None"

fun dec_version_status :: "json \<Rightarrow> OvmsModelVersionStatus option" where
  "dec_version_status JNull = Some \<lparr>vs_Version = [], vs_State = [], vs_Status = \<lparr>st_ErrorCode = [], st_ErrorMessage = []\<rparr>\<rparr>"
| "dec_version_status (JObj m) =
     (case (dec_string (field m ''version''), dec_string (field m ''state''), dec_model_status (field m ''status'')) of
        (Some v, Some s, Some st) \<Rightarrow> Some \<lparr>vs_Version = v, vs_State = s, vs_Status = st\<rparr> | _ \<Rightarrow> None)"
| "dec_version_status v = None"

fun dec_status_response :: "json \<Rightarrow> OvmsModelVersionStatus list option" where
  "dec_status_response JNull = Some []"
| "dec_status_response (JObj m) = map_option (case_option [] id) (dec_slice dec_version_status (field m ''model_version_status''))"
| "dec_status_response v = None"

fun dec_responses :: "gomap \<Rightarrow> OvmsConfigResponse option" where
  "dec_responses [] = Some []"
| "dec_responses ((k, v) # m) = (case (dec_status_response v, dec_responses m) of
     (Some vs, Some r) \<Rightarrow> Some ((k, vs) # r) | _ \<Rightarrow> None)"

fun dec_config_response :: "json \<Rightarrow> OvmsConfigResponse option" where
  "dec_config_response JNull = Some []"
| "dec_config_response (JObj m) = dec_responses (last_wins m)"
| "dec_config_response v = None"

fun dec_error_response :: "json \<Rightarrow> string option" where
  "dec_error_response JNull = Some []"
| "dec_error_response (JObj m) = dec_string (field m ''error'')"
| "dec_error_response v = None"

section \<open>The state of the manager\<close>

record ModelManagerConfig =
  BatchWaitTimeMin :: int
  BatchWaitTimeMax :: int
  HttpClientMaxConns :: int
  ReloadTimeout :: int
  ModelConfigFilePerms :: nat
  RequestChannelSize :: int

text \<open>Durations are in nanoseconds.\<close>

definition modelManagerConfigDefaults :: ModelManagerConfig where
  "modelManagerConfigDefaults = \<lparr>BatchWaitTimeMin = 100 * 10 ^ 6, BatchWaitTimeMax = 3 * 10 ^ 9, HttpClientMaxConns = 100,
     ReloadTimeout = 30 * 10 ^ 9, ModelConfigFilePerms = 420, RequestChannelSize = 25\<rparr>"

definition applyDefaults :: "ModelManagerConfig \<Rightarrow> ModelManagerConfig" where
  "applyDefaults c =
     (let d = modelManagerConfigDefaults
      in \<lparr>BatchWaitTimeMin = (if BatchWaitTimeMin c = 0 then BatchWaitTimeMin d else BatchWaitTimeMin c),
          BatchWaitTimeMax = (if BatchWaitTimeMax c = 0 then BatchWaitTimeMax d else BatchWaitTimeMax c),
          HttpClientMaxConns = (if HttpClientMaxConns c = 0 then HttpClientMaxConns d else HttpClientMaxConns c),
          ReloadTimeout = (if ReloadTimeout c = 0 then ReloadTimeout d else ReloadTimeout c),
          ModelConfigFilePerms = (if ModelConfigFilePerms c = 0 then ModelConfigFilePerms d else ModelConfigFilePerms c),
          RequestChannelSize = (if RequestChannelSize c = 0 then RequestChannelSize d else RequestChannelSize c)\<rparr>)"

datatype requestType = RLoad | RUnload | RUnloadAll

text \<open>A request; \<open>rq_id\<close> stands for its context and its reply channel, which no other request shares.\<close>

record mm_request =
  rq_id :: nat
  rq_type :: requestType
  rq_modelId :: string
  rq_basePath :: string

text \<open>The actor's state, and the replies it has sent, in order: \<open>None\<close> is a nil error.\<close>

record OvmsModelManager =
  modelConfigFilename :: string
  mm_config :: ModelManagerConfig
  cachedModelConfigResponse :: OvmsConfigResponse
  loadedModelsMap :: "(string \<times> OvmsMultiModelModelConfig) list"
  requests_open :: bool
  mm_os :: os
  completed :: "(nat \<times> goerr option) list"

text \<open>
  The local variables of \<open>gatherLoadRequests\<close>; the timer is the short or the long one, and \<open>timers\<close> counts the calls of
  \<open>time.NewTimer\<close>, each of which starts a new wait.
\<close>

datatype timer = WaitMin | WaitMax

record batch =
  requestMap :: "(string \<times> mm_request) list"
  stopChan :: "timer option"
  shortTimerSet :: bool
  timers :: nat

definition start_timer :: "timer \<Rightarrow> batch \<Rightarrow> batch" where
  "start_timer t b = b\<lparr>stopChan := Some t, timers := Suc (timers b)\<rparr>"

definition new_batch :: batch where
  "new_batch = \<lparr>requestMap = [], stopChan = None, shortTimerSet = False, timers = 0\<rparr>"

section \<open>Gathering requests\<close>

text \<open>\<open>status.Error\<close>, which is nil for the code OK, and the code of \<open>status.FromContextError\<close>.\<close>

definition status_Error :: "code \<Rightarrow> string \<Rightarrow> goerr option \<Rightarrow> goerr option" where
  "status_Error c msg e = (if c = CodeOK then None else Some (StatusErr c msg e))"

fun ctx_code :: "ctxerr \<Rightarrow> code" where
  "ctx_code Canceled = CodeCanceled"
| "ctx_code DeadlineExceeded = CodeDeadlineExceeded"

definition completeRequest :: "mm_request \<Rightarrow> code \<Rightarrow> string \<Rightarrow> goerr option \<Rightarrow> (OvmsModelManager, unit) step" where
  "completeRequest r c reason e =
     (\<lambda>m. (Ok (), m\<lparr>completed := completed m @ [(rq_id r, status_Error c reason e)]\<rparr>))"

definition set_loaded :: "((string \<times> OvmsMultiModelModelConfig) list \<Rightarrow> (string \<times> OvmsMultiModelModelConfig) list) \<Rightarrow>
    (OvmsModelManager, unit) step" where
  "set_loaded f = (\<lambda>m. (Ok (), m\<lparr>loadedModelsMap := f (loadedModelsMap m)\<rparr>))"

text \<open>
  Aborting a pending request. Its context error is put into the log message first, also when there is none: the method call on the nil
  error stops the goroutine. \<open>ctx\<close> gives the state of each context at this moment.
\<close>

definition abort_pending :: "(nat \<Rightarrow> ctxerr option) \<Rightarrow> string \<Rightarrow> mm_request \<Rightarrow> (OvmsModelManager, unit) step" where
  "abort_pending ctx reason r =
     (if ctx (rq_id r) = None then lift_res (Panic ''nil pointer dereference'')
      else completeRequest r CodeAborted reason None)"

fun abort_all :: "(nat \<Rightarrow> ctxerr option) \<Rightarrow> (string \<times> mm_request) list \<Rightarrow> (OvmsModelManager, unit) step" where
  "abort_all ctx [] = ret ()"
| "abort_all ctx ((k, r) # rs) = andThen (abort_pending ctx ''Model Server is being reset'' r) (\<lambda>_. abort_all ctx rs)"

definition abort_model :: "(nat \<Rightarrow> ctxerr option) \<Rightarrow> string \<Rightarrow> batch \<Rightarrow> string \<Rightarrow> (OvmsModelManager, unit) step" where
  "abort_model ctx reason b modelId =
     (case map_of (requestMap b) modelId of None \<Rightarrow> ret () | Some p \<Rightarrow> abort_pending ctx reason p)"

definition gather_unloadAll :: "(nat \<Rightarrow> ctxerr option) \<Rightarrow> mm_request \<Rightarrow> batch \<Rightarrow> (OvmsModelManager, batch) step" where
  "gather_unloadAll ctx r b =
     andThen (abort_all ctx (requestMap b)) (\<lambda>_.
     andThen (completeRequest r CodeOK [] None) (\<lambda>_.
     andThen (set_loaded (\<lambda>m. [])) (\<lambda>_.
     let b' = b\<lparr>requestMap := []\<rparr>
     in ret (if stopChan b' = None then start_timer WaitMax (b'\<lparr>shortTimerSet := False\<rparr>) else b'))))"

definition gather_unload :: "(nat \<Rightarrow> ctxerr option) \<Rightarrow> mm_request \<Rightarrow> batch \<Rightarrow> (OvmsModelManager, batch) step" where
  "gather_unload ctx r b =
     andThen (abort_model ctx ''Aborting due to subsequent unload request'' b (rq_modelId r)) (\<lambda>_.
     andThen (set_loaded (AList.delete (rq_modelId r))) (\<lambda>_.
     andThen (completeRequest r CodeOK [] None) (\<lambda>_.
     let b' = b\<lparr>requestMap := AList.delete (rq_modelId r) (requestMap b)\<rparr>
     in ret (if stopChan b' = None then start_timer WaitMax b' else b'))))"

definition gather_load :: "(nat \<Rightarrow> ctxerr option) \<Rightarrow> mm_request \<Rightarrow> batch \<Rightarrow> (OvmsModelManager, batch) step" where
  "gather_load ctx r b =
     andThen (abort_model ctx ''Aborting due to concurrent load request'' b (rq_modelId r)) (\<lambda>_.
     andThen (set_loaded (AList.update (rq_modelId r) \<lparr>cfg_Name = rq_modelId r, cfg_BasePath = rq_basePath r\<rparr>)) (\<lambda>_.
     let b' = (if stopChan b = None \<or> \<not> shortTimerSet b then start_timer WaitMin (b\<lparr>shortTimerSet := True\<rparr>) else b)
     in ret (b'\<lparr>requestMap := AList.update (rq_modelId r) r (requestMap b')\<rparr>)))"

text \<open>One request taken from the channel.\<close>

definition gather_receive :: "(nat \<Rightarrow> ctxerr option) \<Rightarrow> mm_request \<Rightarrow> batch \<Rightarrow> (OvmsModelManager, batch) step" where
  "gather_receive ctx r b =
     (case ctx (rq_id r) of
        Some e \<Rightarrow> andThen (completeRequest r (ctx_code e) ''Request context has been cancelled'' None) (\<lambda>_. ret b)
      | None \<Rightarrow> (case rq_type r of
            RUnloadAll \<Rightarrow> gather_unloadAll ctx r b
          | RUnload \<Rightarrow> gather_unload ctx r b
          | RLoad \<Rightarrow> gather_load ctx r b))"

section \<open>Reloading OVMS\<close>

text \<open>What comes of an HTTP request: no response, a body that cannot be read, or a status code and a body.\<close>

datatype http_reply = NoResponse goerr | BadBody goerr | Response nat string

definition getConfig :: "ext \<Rightarrow> http_reply \<Rightarrow> (OvmsModelManager, unit) step" where
  "getConfig X rep = (case rep of
     NoResponse e \<Rightarrow> fail_with (ErrWrap ''Protocol error getting the config: %w'' [] e)
   | BadBody e \<Rightarrow> fail_with (ErrWrap ''Error reading config status response body: %w'' [] e)
   | Response statusCode body \<Rightarrow>
       if statusCode = 200
       then (case Option.bind (x_parse X body) dec_config_response of
           None \<Rightarrow> fail_with (ErrWrap ''%s: %w'' [''Error parsing /config response''] (ExtErr ''json''))
         | Some c \<Rightarrow> (\<lambda>m. (Ok (), m\<lparr>cachedModelConfigResponse := c\<rparr>)))
       else (case Option.bind (x_parse X body) dec_error_response of
           None \<Rightarrow> fail_with (ErrWrap ''%s: %w'' [''Error parsing /config error response''] (ExtErr ''json''))
         | Some e \<Rightarrow> fail_with (StatusErr CodeInternal (''Error response when getting the config: '' @ e) None)))"

text \<open>The entries are written in the order of the association list, which stands for Go's iteration order.\<close>

definition writeConfig :: "ext \<Rightarrow> (OvmsModelManager, unit) step" where
  "writeConfig X = (\<lambda>m.
     let modelRepositoryConfigJSON = x_print X (enc_repository_config (map snd (loadedModelsMap m)));
         (r, s) = os_WriteFile (modelConfigFilename m) modelRepositoryConfigJSON (ModelConfigFilePerms (mm_config m)) (mm_os m)
     in (on_err (ErrWrap ''Error writing config file: %w'' []) r, m\<lparr>mm_os := s\<rparr>))"

definition updateModelConfig :: "ext \<Rightarrow> http_reply \<Rightarrow> http_reply \<Rightarrow> (OvmsModelManager, unit) step" where
  "updateModelConfig X reload config =
     andThen (wrapErr (ErrWrap ''Error updating model config when writing config file: %w'' []) (writeConfig X)) (\<lambda>_.
       case reload of
         NoResponse e \<Rightarrow> fail_with (ErrWrap ''Communication error reloading the config: %w'' [] e)
       | BadBody e \<Rightarrow> fail_with (ErrWrap ''Error reading config reload response body: %w'' [] e)
       | Response statusCode body \<Rightarrow>
           if statusCode = 200 \<or> statusCode = 201
           then (case Option.bind (x_parse X body) dec_config_response of
               None \<Rightarrow> fail_with (ErrWrap ''%s: %w'' [''Error parsing /config/reload response''] (ExtErr ''json''))
             | Some c \<Rightarrow> (\<lambda>m. (Ok (), m\<lparr>cachedModelConfigResponse := c\<rparr>)))
           else (case Option.bind (x_parse X body) dec_error_response of
               None \<Rightarrow> fail_with (ErrWrap ''%s: %w'' [''Error parsing /config/reload error response''] (ExtErr ''json''))
             | Some e \<Rightarrow> getConfig X config))"

section \<open>The run loop\<close>

text \<open>Requests of the batch whose context is cancelled by now; the others are left.\<close>

fun drop_cancelled :: "(nat \<Rightarrow> ctxerr option) \<Rightarrow> (string \<times> mm_request) list \<Rightarrow> (OvmsModelManager, (string \<times> mm_request) list) step" where
  "drop_cancelled ctx [] = ret []"
| "drop_cancelled ctx ((k, r) # rs) = (case ctx (rq_id r) of
     Some e \<Rightarrow>
       andThen (completeRequest r (ctx_code e) ''Request context has been cancelled'' None) (\<lambda>_.
       andThen (set_loaded (AList.delete k)) (\<lambda>_. drop_cancelled ctx rs))
   | None \<Rightarrow> andThen (drop_cancelled ctx rs) (\<lambda>rs'. ret ((k, r) # rs')))"

fun fail_all :: "goerr \<Rightarrow> (string \<times> mm_request) list \<Rightarrow> (OvmsModelManager, unit) step" where
  "fail_all e [] = ret ()"
| "fail_all e ((k, r) # rs) =
     andThen (completeRequest r CodeInternal ''Failed to update model configuration with OVMS'' (Some e)) (\<lambda>_.
     andThen (set_loaded (AList.delete k)) (\<lambda>_. fail_all e rs))"

definition quoted :: "string \<Rightarrow> string" where
  "quoted s = CHR 0x27 # s @ [CHR 0x27]"

text \<open>The verdict on one load: a code and a message, from the first version in the cached response.\<close>

definition load_verdict :: "OvmsConfigResponse \<Rightarrow> string \<Rightarrow> (code \<times> string) res" where
  "load_verdict c modelId = (case map_of c modelId of
     None \<Rightarrow> Ok (CodeInternal, ''Expected model to load, but no status entry found in the config'')
   | Some [] \<Rightarrow> Panic ''index out of range''
   | Some (v # vs) \<Rightarrow>
       if vs_State v = ''AVAILABLE'' then Ok (CodeOK, [])
       else Ok (CodeUnknown, ''OVMS model load failed. code: '' @ quoted (st_ErrorCode (vs_Status v)) @
              '' reason: '' @ quoted (st_ErrorMessage (vs_Status v))))"

fun complete_loads :: "(string \<times> mm_request) list \<Rightarrow> (OvmsModelManager, unit) step" where
  "complete_loads [] = ret ()"
| "complete_loads ((k, r) # rs) =
     andThen (\<lambda>m. (load_verdict (cachedModelConfigResponse m) k, m)) (\<lambda>(c, message).
     andThen (completeRequest r c message None) (\<lambda>_.
     andThen (if c \<noteq> CodeOK then set_loaded (AList.delete k) else ret ()) (\<lambda>_. complete_loads rs)))"

text \<open>One turn of the run loop, after the batch is gathered.\<close>

definition run_batch :: "ext \<Rightarrow> (nat \<Rightarrow> ctxerr option) \<Rightarrow> http_reply \<Rightarrow> http_reply \<Rightarrow> batch \<Rightarrow> (OvmsModelManager, unit) step" where
  "run_batch X ctx reload config b =
     andThen (drop_cancelled ctx (requestMap b)) (\<lambda>rs.
     andThen (attempt (updateModelConfig X reload config)) (\<lambda>u. case u of
       Err e \<Rightarrow> fail_all e rs
     | _ \<Rightarrow> complete_loads rs))"

text \<open>
  The goroutine: gathering a batch, at the end of the loop, or stopped by a panic. The events it can see: a request from the open
  channel, the closed channel, the timer (with the replies to the reload request and to the config request after it), and a call of
  \<open>GetConfig\<close> by another goroutine. \<open>None\<close> is an event that cannot happen now.
\<close>

datatype run_state = Gathering batch | Exited | Crashed string

datatype ov_event =
    Receive "nat \<Rightarrow> ctxerr option" mm_request
  | ChannelClosed
  | TimerFires "nat \<Rightarrow> ctxerr option" http_reply http_reply
  | Query http_reply

definition after_step :: "('a \<Rightarrow> run_state) \<Rightarrow> 'a res \<times> OvmsModelManager \<Rightarrow> run_state \<times> OvmsModelManager" where
  "after_step f = (\<lambda>(r, m). ((case r of Ok x \<Rightarrow> f x | Err e \<Rightarrow> Crashed [] | Panic p \<Rightarrow> Crashed p), m))"

fun ov_step :: "ext \<Rightarrow> ov_event \<Rightarrow> run_state \<times> OvmsModelManager \<Rightarrow> (run_state \<times> OvmsModelManager) option" where
  "ov_step X (Receive ctx r) (Gathering b, m) =
     (if requests_open m then Some (after_step Gathering (gather_receive ctx r b m)) else None)"
| "ov_step X ChannelClosed (Gathering b, m) =
     (if requests_open m then Some (Gathering b, m\<lparr>requests_open := False\<rparr>) else None)"
| "ov_step X (TimerFires ctx reload config) (Gathering b, m) =
     (if stopChan b = None then None
      else Some (after_step (\<lambda>_. if requests_open m then Gathering new_batch else Exited) (run_batch X ctx reload config b m)))"
| "ov_step X (Query config) (Gathering b, m) = Some (Gathering b, snd (getConfig X config m))"
| "ov_step X e (Exited, m) = None"
| "ov_step X e (Crashed p, m) = None"

text \<open>\<open>NewOvmsModelManager\<close>; \<open>newRequest\<close> is \<open>http.NewRequest\<close> on a URL.\<close>

definition load_config_file :: "ext \<Rightarrow> string res \<Rightarrow> (string \<times> OvmsMultiModelModelConfig) list" where
  "load_config_file X r = (case r of
     Ok configBytes \<Rightarrow> (case Option.bind (x_parse X configBytes) dec_repository_config of
         Some cs \<Rightarrow> foldl (\<lambda>m c. AList.update (cfg_Name c) c m) [] cs
       | None \<Rightarrow> [])
   | _ \<Rightarrow> [])"

definition NewOvmsModelManager :: "ext \<Rightarrow> (string \<Rightarrow> unit res) \<Rightarrow> string \<Rightarrow> string \<Rightarrow> ModelManagerConfig \<Rightarrow> (os, OvmsModelManager) step" where
  "NewOvmsModelManager X newRequest address filename cfg =
     (let mmConfig = applyDefaults cfg
      in andThen (attempt (os_ReadFile filename)) (\<lambda>configBytes.
         andThen (lift_res (newRequest (address @ ''/v1/config''))) (\<lambda>_.
         andThen (lift_res (newRequest (address @ ''/v1/config/reload''))) (\<lambda>_.
         if RequestChannelSize mmConfig < 0 then lift_res (Panic ''makechan: size out of range'')
         else andThen (attempt (os_Stat filename)) (\<lambda>st s.
           let m = \<lparr>modelConfigFilename = filename, mm_config = mmConfig, cachedModelConfigResponse = [],
                    loadedModelsMap = load_config_file X configBytes, requests_open = True, mm_os = s, completed = []\<rparr>;
               m' = (case st of Err e \<Rightarrow> if os_IsNotExist e then snd (writeConfig X m) else m | _ \<Rightarrow> m)
           in (Ok m', mm_os m'))))))"

text \<open>The manager's clients. \<open>ans\<close> is what comes first: the reply, or the end of the caller's context.\<close>

datatype answer = Replied "goerr option" | CtxDone

definition handleRequest :: "(requestType \<Rightarrow> string \<Rightarrow> string \<Rightarrow> answer) \<Rightarrow> requestType \<Rightarrow> string \<Rightarrow> string \<Rightarrow> unit res" where
  "handleRequest ans t modelId basePath = (case ans t modelId basePath of
     Replied None \<Rightarrow> Ok ()
   | Replied (Some e) \<Rightarrow> Err e
   | CtxDone \<Rightarrow> Err (ErrMsg ''Request was cancelled'' []))"

definition mm_LoadModel :: "(requestType \<Rightarrow> string \<Rightarrow> string \<Rightarrow> answer) \<Rightarrow> string \<Rightarrow> string \<Rightarrow> (os, unit) step" where
  "mm_LoadModel ans modelPath modelId =
     andThen (wrapErr (ErrWrap ''Could not stat file at the model_path: %w'' []) (os_Stat modelPath)) (\<lambda>fileInfo.
     let basePath = (if fi_dir fileInfo then modelPath else path_Dir modelPath)
     in wrapErr (ErrWrap ''LoadModel errored: %w'' []) (lift_res (handleRequest ans RLoad modelId basePath)))"

definition mm_UnloadModel :: "(requestType \<Rightarrow> string \<Rightarrow> string \<Rightarrow> answer) \<Rightarrow> string \<Rightarrow> unit res" where
  "mm_UnloadModel ans modelId = on_err (ErrWrap ''UnloadModel errored: %w'' []) (handleRequest ans RUnload modelId [])"

definition mm_UnloadAll :: "(requestType \<Rightarrow> string \<Rightarrow> string \<Rightarrow> answer) \<Rightarrow> unit res" where
  "mm_UnloadAll ans = on_err (ErrWrap ''UnloadAll errored: %w'' []) (handleRequest ans RUnloadAll [] [])"

text \<open>What the goroutine can reach from a new manager, with the requests it has received, each with a context of its own.\<close>

inductive ov_reach :: "ext \<Rightarrow> OvmsModelManager \<Rightarrow> mm_request list \<Rightarrow> run_state \<times> OvmsModelManager \<Rightarrow> bool" for X m0 where
  start: "ov_reach X m0 [] (Gathering new_batch, m0)"
| receive: "ov_reach X m0 log s \<Longrightarrow> rq_id r \<notin> rq_id ` set log \<Longrightarrow> ov_step X (Receive ctx r) s = Some s' \<Longrightarrow>
     ov_reach X m0 (log @ [r]) s'"
| other: "ov_reach X m0 log s \<Longrightarrow> ov_step X e s = Some s' \<Longrightarrow> \<forall>ctx r. e \<noteq> Receive ctx r \<Longrightarrow> ov_reach X m0 log s'"

end
