(* ===== verification/OvmsManagerProps.thy ===== *)
theory OvmsManagerProps
  imports OvmsManager
begin

text \<open>What the OVMS model manager guarantees: every request is answered once, batches are answered soon, and the configuration follows.\<close>

section \<open>Closed forms of the steps\<close>

definition pend :: "(string \<times> mm_request) list \<Rightarrow> nat list" where
  "pend rs = map (\<lambda>(k, r). rq_id r) rs"

definition without :: "string set \<Rightarrow> (string \<times> 'a) list \<Rightarrow> (string \<times> 'a) list" where
  "without ks m = filter (\<lambda>(k, v). k \<notin> ks) m"

lemma pend_simps [simp]: "pend [] = []" "pend ((k, r) # rs) = rq_id r # pend rs"
  by (simp_all add: pend_def)

lemma without_delete: "AList.delete k m = without {k} m"
  by (induction m) (auto simp: without_def)

lemma without_without [simp]: "without ks (without ls m) = without (ks \<union> ls) m"
  by (auto simp: without_def intro: filter_cong)

lemma without_empty [simp]: "without {} m = m"
  by (simp add: without_def filter_id_conv)

lemma map_of_without: "map_of (without ks m) k = (if k \<in> ks then None else map_of m k)"
  by (induction m) (auto simp: without_def)

lemma distinct_without: "distinct (map fst m) \<Longrightarrow> distinct (map fst (without ks m))"
  by (induction m) (auto simp: without_def)

text \<open>The state after some replies and after some models are taken out of the configuration.\<close>

definition answer_all :: "(nat \<times> goerr option) list \<Rightarrow> string set \<Rightarrow> OvmsModelManager \<Rightarrow> OvmsModelManager" where
  "answer_all l ks m = m\<lparr>completed := completed m @ l, loadedModelsMap := without ks (loadedModelsMap m)\<rparr>"

lemma answer_all_simps [simp]:
  "completed (answer_all l ks m) = completed m @ l"
  "loadedModelsMap (answer_all l ks m) = without ks (loadedModelsMap m)"
  "cachedModelConfigResponse (answer_all l ks m) = cachedModelConfigResponse m"
  "requests_open (answer_all l ks m) = requests_open m"
  "modelConfigFilename (answer_all l ks m) = modelConfigFilename m"
  "mm_os (answer_all l ks m) = mm_os m"
  by (simp_all add: answer_all_def)

lemma answer_all_comp: "answer_all l ks (answer_all l' ks' m) = answer_all (l' @ l) (ks \<union> ks') m"
  by (simp add: answer_all_def)

lemma answer_all_id: "answer_all [] {} m = m"
  by (simp add: answer_all_def)

lemma completeRequest_form: "completeRequest r c msg e m = (Ok (), answer_all [(rq_id r, status_Error c msg e)] {} m)"
  by (simp add: completeRequest_def answer_all_def)

lemma delete_form: "set_loaded (AList.delete k) m = (Ok (), answer_all [] {k} m)"
  by (simp add: set_loaded_def answer_all_def without_delete)

definition aborted :: "string \<Rightarrow> mm_request \<Rightarrow> nat \<times> goerr option" where
  "aborted reason r = (rq_id r, Some (StatusErr CodeAborted reason None))"

definition is_live :: "(nat \<Rightarrow> ctxerr option) \<Rightarrow> string \<times> mm_request \<Rightarrow> bool" where
  "is_live ctx = (\<lambda>(k, r). ctx (rq_id r) = None)"

lemma abort_pending_form:
  "abort_pending ctx reason r m =
     (if ctx (rq_id r) = None then (Panic ''nil pointer dereference'', m) else (Ok (), answer_all [aborted reason r] {} m))"
  by (simp add: abort_pending_def completeRequest_form status_Error_def aborted_def)

lemma abort_all_form:
  "abort_all ctx rs m =
     ((if list_ex (is_live ctx) rs then Panic ''nil pointer dereference'' else Ok ()),
      answer_all (map (aborted ''Model Server is being reset'' \<circ> snd) (takeWhile (\<lambda>e. \<not> is_live ctx e) rs)) {} m)"
proof (induction rs arbitrary: m)
  case Nil
  then show ?case by (simp add: answer_all_id)
next
  case (Cons e rs)
  then show ?case by (cases e) (simp add: andThen_def abort_pending_form is_live_def answer_all_comp answer_all_id)
qed

definition ctx_reply :: "(nat \<Rightarrow> ctxerr option) \<Rightarrow> mm_request \<Rightarrow> nat \<times> goerr option" where
  "ctx_reply ctx r = (rq_id r, Some (StatusErr (ctx_code (the (ctx (rq_id r)))) ''Request context has been cancelled'' None))"

lemma ctx_code_not_OK [simp]: "ctx_code e \<noteq> CodeOK"
  by (cases e) simp_all

lemma drop_cancelled_form:
  "drop_cancelled ctx rs m =
     (Ok (filter (is_live ctx) rs),
      answer_all (map (ctx_reply ctx \<circ> snd) (filter (\<lambda>e. \<not> is_live ctx e) rs)) (fst ` set (filter (\<lambda>e. \<not> is_live ctx e) rs)) m)"
proof (induction rs arbitrary: m)
  case Nil
  then show ?case by (simp add: answer_all_id)
next
  case (Cons e rs)
  then show ?case
    by (cases e) (auto simp: andThen_def completeRequest_form delete_form status_Error_def is_live_def ctx_reply_def
        answer_all_comp Un_commute split: option.split)
qed

definition fail_reply :: "goerr \<Rightarrow> mm_request \<Rightarrow> nat \<times> goerr option" where
  "fail_reply e r = (rq_id r, Some (StatusErr CodeInternal ''Failed to update model configuration with OVMS'' (Some e)))"

lemma fail_all_form: "fail_all e rs m = (Ok (), answer_all (map (fail_reply e \<circ> snd) rs) (fst ` set rs) m)"
proof (induction rs arbitrary: m)
  case Nil
  then show ?case by (simp add: answer_all_id)
next
  case (Cons x rs)
  then show ?case
    by (cases x) (simp add: andThen_def completeRequest_form delete_form status_Error_def fail_reply_def answer_all_comp Un_commute)
qed

text \<open>The reply to a load from the cached response, and the models whose load failed.\<close>

definition available :: "OvmsConfigResponse \<Rightarrow> string \<Rightarrow> bool" where
  "available c k \<longleftrightarrow> (\<exists>v vs. map_of c k = Some (v # vs) \<and> vs_State v = ''AVAILABLE'')"

definition verdict_reply :: "OvmsConfigResponse \<Rightarrow> string \<times> mm_request \<Rightarrow> nat \<times> goerr option" where
  "verdict_reply c = (\<lambda>(k, r). (rq_id r, case load_verdict c k of Ok (cd, msg) \<Rightarrow> status_Error cd msg None | _ \<Rightarrow> None))"

lemma load_verdict_OK: "load_verdict c k = Ok (cd, msg) \<Longrightarrow> cd = CodeOK \<longleftrightarrow> available c k"
  by (auto simp: load_verdict_def available_def split: option.splits list.splits if_splits)

lemma load_verdict_Panic: "load_verdict c k = Panic p \<longleftrightarrow> map_of c k = Some [] \<and> p = ''index out of range''"
  by (auto simp: load_verdict_def split: option.splits list.splits)

lemma load_verdict_cases: obtains cd msg where "load_verdict c k = Ok (cd, msg)" | "load_verdict c k = Panic ''index out of range''"
proof -
  have "(\<exists>x. load_verdict c k = Ok x) \<or> load_verdict c k = Panic ''index out of range''"
    by (auto simp: load_verdict_def split: option.split list.split)
  with that show ?thesis by (metis surj_pair)
qed

definition failed_loads :: "OvmsConfigResponse \<Rightarrow> (string \<times> mm_request) list \<Rightarrow> string set" where
  "failed_loads c rs = {k \<in> fst ` set rs. \<not> available c k}"

lemma failed_loads_simps [simp]:
  "failed_loads c [] = {}"
  "failed_loads c ((k, r) # rs) = failed_loads c rs \<union> (if available c k then {} else {k})"
  by (auto simp: failed_loads_def)

definition no_versions :: "OvmsConfigResponse \<Rightarrow> string \<times> mm_request \<Rightarrow> bool" where
  "no_versions c = (\<lambda>(k, r). map_of c k = Some [])"

lemma complete_loads_form:
  "complete_loads rs m =
     (let c = cachedModelConfigResponse m; done = takeWhile (\<lambda>e. \<not> no_versions c e) rs
      in ((if list_ex (no_versions c) rs then Panic ''index out of range'' else Ok ()),
          answer_all (map (verdict_reply c) done) (failed_loads c done) m))"
proof (induction rs arbitrary: m)
  case Nil
  then show ?case by (simp add: answer_all_id)
next
  case (Cons e rs)
  obtain k r where e: "e = (k, r)" by (cases e)
  let ?c = "cachedModelConfigResponse m"
  show ?case
  proof (cases rule: load_verdict_cases [of ?c k])
    case (1 cd msg)
    then have nv: "\<not> no_versions ?c (k, r)" using load_verdict_Panic [of ?c k] by (auto simp: no_versions_def)
    with Cons 1 nv load_verdict_OK [OF 1] show ?thesis
      by (simp add: e andThen_def completeRequest_form delete_form verdict_reply_def answer_all_comp Let_def)
  next
    case 2
    then have "no_versions ?c (k, r)" using load_verdict_Panic [of ?c k] by (simp add: no_versions_def)
    with 2 show ?thesis by (simp add: e andThen_def answer_all_id Let_def)
  qed
qed

lemma complete_loads_ok:
  assumes "\<not> list_ex (no_versions (cachedModelConfigResponse m)) rs"
  shows "complete_loads rs m = (Ok (), answer_all (map (verdict_reply (cachedModelConfigResponse m)) rs)
    (failed_loads (cachedModelConfigResponse m) rs) m)"
proof -
  have tw: "\<not> list_ex P xs \<Longrightarrow> takeWhile (\<lambda>e. \<not> P e) xs = xs" for P and xs :: "(string \<times> mm_request) list"
    by (induction xs) auto
  with assms show ?thesis by (simp add: complete_loads_form Let_def tw [OF assms])
qed

text \<open>The update of OVMS touches the file and the cache only, and does not panic.\<close>

lemma getConfig_frame:
  "getConfig X rep m = (u, m') \<Longrightarrow> completed m' = completed m \<and> loadedModelsMap m' = loadedModelsMap m \<and>
     requests_open m' = requests_open m \<and> modelConfigFilename m' = modelConfigFilename m \<and> mm_os m' = mm_os m \<and> (\<forall>p. u \<noteq> Panic p)"
  by (auto simp: getConfig_def split: http_reply.splits if_splits option.splits)

lemma writeConfig_frame:
  "writeConfig X m = (u, m') \<Longrightarrow> completed m' = completed m \<and> loadedModelsMap m' = loadedModelsMap m \<and>
     requests_open m' = requests_open m \<and> modelConfigFilename m' = modelConfigFilename m \<and> (\<forall>p. u \<noteq> Panic p)"
  by (auto simp: writeConfig_def Let_def os_WriteFile_def on_err_Panic_iff syscall_not_panic split: prod.splits)

lemma updateModelConfig_frame:
  assumes "updateModelConfig X reload config m = (u, m')"
  shows "completed m' = completed m \<and> loadedModelsMap m' = loadedModelsMap m \<and>
     requests_open m' = requests_open m \<and> modelConfigFilename m' = modelConfigFilename m \<and> (\<forall>p. u \<noteq> Panic p)"
proof (cases "writeConfig X m")
  case (Pair w m1)
  note f = writeConfig_frame [OF Pair]
  show ?thesis
  proof (cases w)
    case (Ok x)
    with assms Pair f show ?thesis
      by (auto simp: updateModelConfig_def andThen_def split: http_reply.splits if_splits option.splits dest!: getConfig_frame)
  next
    case (Err e)
    with assms Pair f show ?thesis by (auto simp: updateModelConfig_def andThen_def)
  next
    case (Panic p)
    with f show ?thesis by simp
  qed
qed

lemma run_batch_form:
  fixes b :: batch and m :: OvmsModelManager and ctx :: "nat \<Rightarrow> ctxerr option"
  defines "rs \<equiv> filter (is_live ctx) (requestMap b)" and "cs \<equiv> filter (\<lambda>e. \<not> is_live ctx e) (requestMap b)"
  obtains u m2 where "updateModelConfig X reload config (answer_all (map (ctx_reply ctx \<circ> snd) cs) (fst ` set cs) m) = (u, m2)"
    "run_batch X ctx reload config b m = (case u of
       Err e \<Rightarrow> (Ok (), answer_all (map (fail_reply e \<circ> snd) rs) (fst ` set rs) m2) | _ \<Rightarrow> complete_loads rs m2)"
proof (cases "updateModelConfig X reload config (answer_all (map (ctx_reply ctx \<circ> snd) cs) (fst ` set cs) m)")
  case (Pair u m2)
  with updateModelConfig_frame [OF Pair] that show ?thesis
    by (cases u) (simp_all add: run_batch_def andThen_def attempt_def drop_cancelled_form fail_all_form rs_def cs_def)
qed

section \<open>The invariant\<close>

text \<open>The batch after a load, an unload, and an unload of all.\<close>

definition unload_batch :: "string \<Rightarrow> batch \<Rightarrow> batch" where
  "unload_batch k b = (let b' = b\<lparr>requestMap := AList.delete k (requestMap b)\<rparr> in if stopChan b = None then start_timer WaitMax b' else b')"

definition load_batch :: "mm_request \<Rightarrow> batch \<Rightarrow> batch" where
  "load_batch r b = (let b' = (if stopChan b = None \<or> \<not> shortTimerSet b then start_timer WaitMin (b\<lparr>shortTimerSet := True\<rparr>) else b)
     in b'\<lparr>requestMap := AList.update (rq_modelId r) r (requestMap b)\<rparr>)"

definition reset_batch :: "batch \<Rightarrow> batch" where
  "reset_batch b = (if stopChan b = None then start_timer WaitMax (b\<lparr>requestMap := [], shortTimerSet := False\<rparr>) else b\<lparr>requestMap := []\<rparr>)"

lemma batch_requests [simp]:
  "requestMap (start_timer t b) = requestMap b"
  "requestMap (unload_batch k b) = AList.delete k (requestMap b)"
  "requestMap (load_batch r b) = AList.update (rq_modelId r) r (requestMap b)" "requestMap (reset_batch b) = []"
  by (simp_all add: start_timer_def unload_batch_def load_batch_def reset_batch_def Let_def)

text \<open>The timer: none before the first change, the long one for unloads only, and at most two waits in a batch.\<close>

definition timer_ok :: "batch \<Rightarrow> bool" where
  "timer_ok b \<longleftrightarrow> (shortTimerSet b \<longleftrightarrow> stopChan b = Some WaitMin) \<and>
     timers b \<le> (case stopChan b of None \<Rightarrow> 0 | Some WaitMax \<Rightarrow> 1 | Some WaitMin \<Rightarrow> 2)"

lemma timer_ok_batches:
  assumes "timer_ok b"
  shows "timer_ok (unload_batch k b)" "timer_ok (load_batch r b)" "timer_ok (reset_batch b)"
    "stopChan b = Some WaitMin \<Longrightarrow> stopChan (unload_batch k b) = Some WaitMin" "stopChan (load_batch r b) = Some WaitMin"
  using assms
  by (auto simp: timer_ok_def unload_batch_def load_batch_def reset_batch_def start_timer_def Let_def split: option.splits timer.splits)

definition loaded_ok :: "OvmsModelManager \<Rightarrow> bool" where
  "loaded_ok m \<longleftrightarrow> distinct (map fst (loadedModelsMap m)) \<and> (\<forall>(k, c) \<in> set (loadedModelsMap m). cfg_Name c = k)"

definition batch_ok :: "batch \<Rightarrow> OvmsModelManager \<Rightarrow> bool" where
  "batch_ok b m \<longleftrightarrow> distinct (map fst (requestMap b)) \<and>
     (\<forall>(k, r) \<in> set (requestMap b). rq_type r = RLoad \<and> rq_modelId r = k \<and>
        map_of (loadedModelsMap m) k = Some \<lparr>cfg_Name = k, cfg_BasePath = rq_basePath r\<rparr>) \<and>
     timer_ok b \<and> (requestMap b \<noteq> [] \<longrightarrow> stopChan b = Some WaitMin)"

definition replied :: "OvmsModelManager \<Rightarrow> nat multiset" where
  "replied m = mset (map fst (completed m))"

lemma replied_answer_all [simp]: "replied (answer_all l ks m) = replied m + mset (map fst l)"
  by (simp add: replied_def)

fun ov_inv :: "mm_request list \<Rightarrow> run_state \<times> OvmsModelManager \<Rightarrow> bool" where
  "ov_inv log (Gathering b, m) = (loaded_ok m \<and> batch_ok b m \<and> replied m + mset (pend (requestMap b)) = mset (map rq_id log))"
| "ov_inv log (Exited, m) = (loaded_ok m \<and> replied m = mset (map rq_id log))"
| "ov_inv log (Crashed p, m) = (replied m \<subseteq># mset (map rq_id log))"

lemma mset_pend_delete:
  "distinct (map fst rs) \<Longrightarrow> mset (pend rs) = mset (pend (AList.delete k rs)) +
     (case map_of rs k of None \<Rightarrow> {#} | Some p \<Rightarrow> {#rq_id p#})"
proof (induction rs)
  case Nil
  then show ?case by simp
next
  case (Cons e rs)
  obtain k' r where e: "e = (k', r)" by (cases e)
  have "k \<notin> fst ` set rs \<Longrightarrow> AList.delete k rs = rs" "k \<notin> fst ` set rs \<Longrightarrow> map_of rs k = None"
    by (simp_all add: delete_id map_of_eq_None_iff)
  with Cons show ?case by (cases "k = k'") (auto simp: e split: option.splits)
qed

lemma mset_pend_update:
  "distinct (map fst rs) \<Longrightarrow> mset (pend (AList.update k r rs)) = add_mset (rq_id r) (mset (pend (AList.delete k rs)))"
proof (induction rs)
  case Nil
  then show ?case by simp
next
  case (Cons e rs)
  obtain k' r' where e: "e = (k', r')" by (cases e)
  have "k \<notin> fst ` set rs \<Longrightarrow> AList.delete k rs = rs" by (simp add: delete_id)
  with Cons show ?case by (cases "k = k'") (auto simp: e)
qed

lemma in_set_update: "x \<in> set (AList.update k v m) \<Longrightarrow> x = (k, v) \<or> x \<in> set m"
  by (induction m) (auto split: if_splits)

lemma in_set_delete: "x \<in> set (AList.delete k m) \<longleftrightarrow> x \<in> set m \<and> fst x \<noteq> k"
  by (auto simp: AList.delete_eq)

lemma in_set_update_distinct:
  "distinct (map fst m) \<Longrightarrow> x \<in> set (AList.update k v m) \<longleftrightarrow> x = (k, v) \<or> (x \<in> set m \<and> fst x \<noteq> k)"
  by (induction m) (auto simp: image_iff)

lemma loaded_ok_answer [simp]: "loaded_ok m \<Longrightarrow> loaded_ok (answer_all l ks m)"
  by (auto simp: loaded_ok_def distinct_without) (auto simp: without_def)

lemma map_fst_compose [simp]:
  "map fst (map (aborted reason \<circ> snd) rs) = pend rs" "map fst (map (ctx_reply ctx \<circ> snd) rs) = pend rs"
  "map fst (map (fail_reply e \<circ> snd) rs) = pend rs" "map fst (map (verdict_reply c) rs) = pend rs"
  by (auto simp: pend_def aborted_def ctx_reply_def fail_reply_def verdict_reply_def split: prod.split)

lemma image_fst_compose [simp]:
  "image_mset (fst \<circ> (aborted reason \<circ> snd)) (mset rs) = mset (pend rs)"
  "image_mset (fst \<circ> (ctx_reply ctx \<circ> snd)) (mset rs) = mset (pend rs)"
  "image_mset (fst \<circ> (fail_reply e \<circ> snd)) (mset rs) = mset (pend rs)"
  "image_mset (fst \<circ> verdict_reply c) (mset rs) = mset (pend rs)"
  using map_fst_compose by (simp_all add: comp_assoc del: map_fst_compose flip: mset_map)

lemma mset_pend_filter: "mset (pend (filter P rs)) + mset (pend (filter (\<lambda>e. \<not> P e) rs)) = mset (pend rs)"
  by (induction rs) auto

lemma mset_pend_takeWhile: "mset (pend (takeWhile P rs)) \<subseteq># mset (pend rs)"
  by (induction rs) auto

section \<open>One request\<close>

text \<open>A pending load of the model is to be aborted that is not cancelled.\<close>

definition live_pending :: "(nat \<Rightarrow> ctxerr option) \<Rightarrow> batch \<Rightarrow> string \<Rightarrow> bool" where
  "live_pending ctx b k \<longleftrightarrow> (\<exists>p. map_of (requestMap b) k = Some p \<and> ctx (rq_id p) = None)"

definition evicted :: "string \<Rightarrow> batch \<Rightarrow> string \<Rightarrow> (nat \<times> goerr option) list" where
  "evicted reason b k = (case map_of (requestMap b) k of None \<Rightarrow> [] | Some p \<Rightarrow> [aborted reason p])"

lemma abort_model_form:
  "abort_model ctx reason b k m =
     (if live_pending ctx b k then (Panic ''nil pointer dereference'', m) else (Ok (), answer_all (evicted reason b k) {} m))"
  by (auto simp: abort_model_def abort_pending_form live_pending_def evicted_def answer_all_id split: option.split)

lemma gather_unload_form:
  "gather_unload ctx r b m =
     (if live_pending ctx b (rq_modelId r) then (Panic ''nil pointer dereference'', m)
      else (Ok (unload_batch (rq_modelId r) b),
            answer_all (evicted ''Aborting due to subsequent unload request'' b (rq_modelId r) @ [(rq_id r, None)]) {rq_modelId r} m))"
  by (simp add: gather_unload_def andThen_def abort_model_form delete_form completeRequest_form answer_all_comp
      status_Error_def unload_batch_def Let_def)

definition load_entry :: "mm_request \<Rightarrow> OvmsMultiModelModelConfig" where
  "load_entry r = \<lparr>cfg_Name = rq_modelId r, cfg_BasePath = rq_basePath r\<rparr>"

lemma gather_load_form:
  "gather_load ctx r b m =
     (if live_pending ctx b (rq_modelId r) then (Panic ''nil pointer dereference'', m)
      else (Ok (load_batch r b),
            (answer_all (evicted ''Aborting due to concurrent load request'' b (rq_modelId r)) {} m)
              \<lparr>loadedModelsMap := AList.update (rq_modelId r) (load_entry r) (loadedModelsMap m)\<rparr>))"
  by (simp add: gather_load_def andThen_def abort_model_form set_loaded_def Let_def load_entry_def load_batch_def)

lemma gather_unloadAll_form:
  "gather_unloadAll ctx r b m =
     (if list_ex (is_live ctx) (requestMap b)
      then (Panic ''nil pointer dereference'',
            answer_all (map (aborted ''Model Server is being reset'' \<circ> snd) (takeWhile (\<lambda>e. \<not> is_live ctx e) (requestMap b))) {} m)
      else (Ok (reset_batch b),
            (answer_all (map (aborted ''Model Server is being reset'' \<circ> snd) (requestMap b) @ [(rq_id r, None)]) {} m)
              \<lparr>loadedModelsMap := []\<rparr>))"
proof -
  have tw: "\<not> list_ex (is_live ctx) rs \<Longrightarrow> takeWhile (\<lambda>e. \<not> is_live ctx e) rs = rs" for rs
    by (induction rs) auto
  show ?thesis
    by (simp add: gather_unloadAll_def andThen_def abort_all_form completeRequest_form set_loaded_def answer_all_comp
        status_Error_def reset_batch_def Let_def tw)
qed

lemma pend_evicted:
  assumes "distinct (map fst (requestMap b))"
  shows "mset (pend (requestMap b)) = mset (pend (AList.delete k (requestMap b))) + mset (map fst (evicted reason b k))"
  using mset_pend_delete [OF assms, of k] by (simp add: evicted_def aborted_def split: option.splits)

lemma ov_inv_unload:
  assumes "ov_inv log (Gathering b, m)"
  shows "ov_inv (log @ [r]) (after_step Gathering (gather_unload ctx r b m))"
proof (cases "live_pending ctx b (rq_modelId r)")
  case True
  with assms show ?thesis by (simp add: after_step_def gather_unload_form subset_mset.le_iff_add) (metis add.assoc add_mset_add_single)
next
  case False
  let ?k = "rq_modelId r" and ?e = "evicted ''Aborting due to subsequent unload request'' b (rq_modelId r)"
  let ?b = "unload_batch ?k b"
  let ?m = "answer_all (?e @ [(rq_id r, None)]) {?k} m"
  have B: "batch_ok b m" "loaded_ok m" and R: "replied m + mset (pend (requestMap b)) = mset (map rq_id log)" using assms by simp_all
  from B(1) have d: "distinct (map fst (requestMap b))" by (simp add: batch_ok_def)
  have "replied ?m + mset (pend (requestMap ?b)) = mset (map rq_id (log @ [r]))"
    using R pend_evicted [OF d, of ?k "''Aborting due to subsequent unload request''"] by (simp add: union_ac)
  moreover have "batch_ok ?b ?m"
    using B(1) timer_ok_batches(1,4) [of b ?k] by (fastforce simp: batch_ok_def in_set_delete distinct_delete map_of_without)
  ultimately show ?thesis using False B(2) by (simp add: after_step_def gather_unload_form)
qed

lemma ov_inv_load:
  assumes "ov_inv log (Gathering b, m)" "rq_type r = RLoad"
  shows "ov_inv (log @ [r]) (after_step Gathering (gather_load ctx r b m))"
proof (cases "live_pending ctx b (rq_modelId r)")
  case True
  with assms show ?thesis by (simp add: after_step_def gather_load_form subset_mset.le_iff_add) (metis add.assoc add_mset_add_single)
next
  case False
  let ?k = "rq_modelId r" and ?e = "evicted ''Aborting due to concurrent load request'' b (rq_modelId r)"
  let ?b = "load_batch r b"
  let ?m = "(answer_all ?e {} m)\<lparr>loadedModelsMap := AList.update ?k (load_entry r) (loadedModelsMap m)\<rparr>"
  have B: "batch_ok b m" "loaded_ok m" and R: "replied m + mset (pend (requestMap b)) = mset (map rq_id log)" using assms by simp_all
  from B(1) have d: "distinct (map fst (requestMap b))" by (simp add: batch_ok_def)
  have rm: "requestMap ?b = AList.update ?k r (requestMap b)" by (rule batch_requests)
  have "replied ?m = replied (answer_all ?e {} m)" by (simp add: replied_def)
  with R pend_evicted [OF d, of ?k "''Aborting due to concurrent load request''"] mset_pend_update [OF d, of ?k r]
  have "replied ?m + mset (pend (requestMap ?b)) = mset (map rq_id (log @ [r]))" by (simp add: rm union_ac)
  moreover have "loaded_ok ?m"
    using B(2) by (auto simp: loaded_ok_def distinct_update load_entry_def dest!: in_set_update)
  moreover have "batch_ok ?b ?m"
  proof -
    have "stopChan ?b = Some WaitMin" "timer_ok ?b" using B(1) timer_ok_batches(2,5) [of b r] by (auto simp: batch_ok_def)
    moreover have "rq_type q = RLoad \<and> rq_modelId q = k' \<and>
        map_of (loadedModelsMap ?m) k' = Some \<lparr>cfg_Name = k', cfg_BasePath = rq_basePath q\<rparr>"
      if "(k', q) \<in> set (AList.update ?k r (requestMap b))" for k' q
      using that assms(2) B(1) by (auto simp: in_set_update_distinct [OF d] batch_ok_def load_entry_def update_conv')
    ultimately show ?thesis using d by (simp add: batch_ok_def rm distinct_update split_def) (auto simp: rm)
  qed
  ultimately show ?thesis using False by (simp add: after_step_def gather_load_form)
qed

lemma batch_ok_answer [simp]: "batch_ok b (answer_all l {} m) = batch_ok b m"
  by (simp add: batch_ok_def)

lemma ov_inv_unloadAll:
  assumes "ov_inv log (Gathering b, m)"
  shows "ov_inv (log @ [r]) (after_step Gathering (gather_unloadAll ctx r b m))"
proof (cases "list_ex (is_live ctx) (requestMap b)")
  case True
  have "replied m + mset (pend (takeWhile (\<lambda>e. \<not> is_live ctx e) (requestMap b))) \<subseteq># replied m + mset (pend (requestMap b))"
    using mset_pend_takeWhile by simp
  also have "\<dots> \<subseteq># mset (map rq_id (log @ [r]))" using assms by simp
  finally show ?thesis using True by (simp add: after_step_def gather_unloadAll_form)
next
  case False
  with assms show ?thesis
    using timer_ok_batches(3) [of b] by (auto simp: after_step_def gather_unloadAll_form loaded_ok_def batch_ok_def replied_def answer_all_def union_ac)
qed

lemma ov_inv_receive:
  assumes "ov_inv log (Gathering b, m)"
  shows "ov_inv (log @ [r]) (after_step Gathering (gather_receive ctx r b m))"
proof (cases "ctx (rq_id r)")
  case None
  then show ?thesis using ov_inv_load ov_inv_unload ov_inv_unloadAll assms
    by (cases "rq_type r") (simp_all add: gather_receive_def)
next
  case (Some e)
  with assms show ?thesis
    by (simp add: gather_receive_def andThen_def completeRequest_form after_step_def)
qed

section \<open>The end of a batch\<close>

text \<open>A batch that ends without a panic: every pending request is answered.\<close>

lemma ov_inv_fire:
  assumes "ov_inv log (Gathering b, m)"
  shows "ov_inv log (after_step (\<lambda>_. if requests_open m then Gathering new_batch else Exited) (run_batch X ctx reload config b m))"
proof -
  let ?rs = "filter (is_live ctx) (requestMap b)" and ?cs = "filter (\<lambda>e. \<not> is_live ctx e) (requestMap b)"
  let ?m1 = "answer_all (map (ctx_reply ctx \<circ> snd) ?cs) (fst ` set ?cs) m"
  from run_batch_form [of X reload config ctx b m] obtain u m2 where
    u: "updateModelConfig X reload config ?m1 = (u, m2)" and
    run: "run_batch X ctx reload config b m = (case u of
       Err e \<Rightarrow> (Ok (), answer_all (map (fail_reply e \<circ> snd) ?rs) (fst ` set ?rs) m2) | _ \<Rightarrow> complete_loads ?rs m2)" .
  have L: "loaded_ok ?m1" and R: "replied m + mset (pend (requestMap b)) = mset (map rq_id log)" using assms by simp_all
  from updateModelConfig_frame [OF u] have f: "completed m2 = completed ?m1" "loadedModelsMap m2 = loadedModelsMap ?m1" by simp_all
  have "replied m2 = replied ?m1" by (simp only: replied_def f)
  then have R2: "replied m2 = replied m + mset (pend ?cs)" by (simp only: replied_answer_all map_fst_compose)
  have L2: "loaded_ok m2" using L unfolding loaded_ok_def f(2) .
  have all: "replied m2 + mset (pend ?rs) = mset (map rq_id log)"
    using R R2 mset_pend_filter [of "is_live ctx" "requestMap b"] by (simp add: union_ac)
  define rs where "rs = ?rs"
  note all = all [folded rs_def] and run = run [folded rs_def]
  have new: "loaded_ok m' \<Longrightarrow> replied m' = mset (map rq_id log) \<Longrightarrow>
      ov_inv log ((if requests_open m then Gathering new_batch else Exited), m')" for m'
    by (simp add: new_batch_def batch_ok_def timer_ok_def)
  show ?thesis
  proof (cases "\<exists>e. u = Err e")
    case True
    then show ?thesis using new [of "answer_all (map (fail_reply e \<circ> snd) rs) (fst ` set rs) m2" for e] all L2
      unfolding run after_step_def by auto
  next
    case False
    then have r: "run_batch X ctx reload config b m = complete_loads rs m2" unfolding run by (cases u) simp_all
    show ?thesis
    proof (cases "list_ex (no_versions (cachedModelConfigResponse m2)) rs")
      case True
      have "replied m2 + mset (pend (takeWhile P rs)) \<subseteq># mset (map rq_id log)" for P
        using mset_pend_takeWhile [of P rs] all by (metis mset_subset_eq_mono_add_left_cancel)
      with True show ?thesis unfolding r after_step_def by (simp add: complete_loads_form Let_def)
    next
      case False
      have "replied (answer_all (map (verdict_reply c) rs) ks m2) = mset (map rq_id log)" for c ks
        using all by (simp only: replied_answer_all map_fst_compose)
      with new L2 show ?thesis unfolding r after_step_def complete_loads_ok [OF False] by simp
    qed
  qed
qed

lemma new_batch_inv: "loaded_ok m \<Longrightarrow> completed m = [] \<Longrightarrow> ov_inv [] (Gathering new_batch, m)"
  by (simp add: new_batch_def batch_ok_def timer_ok_def replied_def)

lemma ov_reach_inv:
  assumes "ov_reach X m0 log s" "loaded_ok m0" "completed m0 = []"
  shows "ov_inv log s \<and> distinct (map rq_id log)"
  using assms(1)
proof (induction rule: ov_reach.induct)
  case start
  then show ?case using new_batch_inv assms(2,3) by simp
next
  case (receive log s r ctx s')
  obtain st m where s: "s = (st, m)" by (cases s)
  with receive(3) obtain b where "st = Gathering b" "s' = after_step Gathering (gather_receive ctx r b m)"
    by (cases st) (auto split: if_splits)
  with receive(2,4) ov_inv_receive [of log b m r ctx] s show ?case by (auto simp: image_iff)
next
  case (other log s e s')
  obtain st m where s: "s = (st, m)" by (cases s)
  show ?case
  proof (cases st)
    case (Gathering b)
    have I: "ov_inv log (Gathering b, m)" using other(4) s Gathering by simp
    show ?thesis
    proof (cases e)
      case (Receive ctx r)
      then show ?thesis using other(3) by blast
    next
      case ChannelClosed
      with other(2,4) s Gathering show ?thesis
        by (auto simp: batch_ok_def loaded_ok_def replied_def split: if_splits)
    next
      case (TimerFires ctx reload config)
      with other(2,4) s Gathering ov_inv_fire [OF I] show ?thesis by (auto split: if_splits)
    next
      case (Query config)
      with other(2,4) s Gathering getConfig_frame [of X config m "fst (getConfig X config m)" "snd (getConfig X config m)"]
      show ?thesis by (auto simp: batch_ok_def loaded_ok_def replied_def)
    qed
  qed (use other(2) s in simp_all)
qed

section \<open>A new manager\<close>

definition names_ok :: "(string \<times> OvmsMultiModelModelConfig) list \<Rightarrow> bool" where
  "names_ok l \<longleftrightarrow> distinct (map fst l) \<and> (\<forall>(k, c) \<in> set l. cfg_Name c = k)"

lemma loaded_ok_names: "loaded_ok m \<longleftrightarrow> names_ok (loadedModelsMap m)"
  by (simp add: loaded_ok_def names_ok_def)

lemma names_ok_update: "names_ok l \<Longrightarrow> names_ok (AList.update (cfg_Name c) c l)"
  by (auto simp: names_ok_def distinct_update dest!: in_set_update)

lemma names_ok_config_file: "names_ok (load_config_file X r)"
proof -
  have "names_ok m \<Longrightarrow> names_ok (foldl (\<lambda>m c. AList.update (cfg_Name c) c m) m cs)" for m cs
    by (induction cs arbitrary: m) (simp_all add: names_ok_update)
  moreover have "names_ok []" by (simp add: names_ok_def)
  ultimately show ?thesis by (simp add: load_config_file_def split: res.split option.split)
qed

lemma new_manager_loaded:
  assumes "NewOvmsModelManager X nr address file cfg s = (Ok m, s')" "attempt (os_ReadFile file) s = (Ok r, u)"
  shows "loadedModelsMap m = load_config_file X r \<and> completed m = [] \<and> requests_open m"
proof -
  let ?Q = "\<lambda>m. loadedModelsMap m = load_config_file X r \<and> completed m = [] \<and> requests_open m"
  let ?rest = "andThen (lift_res (nr (address @ ''/v1/config''))) (\<lambda>_. andThen (lift_res (nr (address @ ''/v1/config/reload''))) (\<lambda>_.
    if RequestChannelSize (applyDefaults cfg) < 0 then lift_res (Panic ''makechan: size out of range'')
    else andThen (attempt (os_Stat file)) (\<lambda>st s.
      let m = \<lparr>modelConfigFilename = file, mm_config = applyDefaults cfg, cachedModelConfigResponse = [],
            loadedModelsMap = load_config_file X r, requests_open = True, mm_os = s, completed = []\<rparr>;
          m' = (case st of Err e \<Rightarrow> if os_IsNotExist e then snd (writeConfig X m) else m | _ \<Rightarrow> m)
      in (Ok m', mm_os m'))))"
  have w: "?Q m \<Longrightarrow> ?Q (snd (writeConfig X m))" for m
    using writeConfig_frame [of X m "fst (writeConfig X m)" "snd (writeConfig X m)"] by simp
  have y: "yields ?rest ?Q"
  proof (intro yields_andThen, split if_split, intro conjI impI yields_andThen, goal_cases)
    case 1
    then show ?case by (simp add: yields_def)
  next
    case (2 _ _ _ _ _ _ st)
    then show ?case unfolding yields_def Let_def using w by (auto split: res.splits if_splits)
  qed
  have "NewOvmsModelManager X nr address file cfg s = ?rest u"
    unfolding NewOvmsModelManager_def Let_def by (rule andThen_eval(1), rule assms(2))
  with assms(1) have "?rest u = (Ok m, s')" by (simp only:)
  then show ?thesis by (rule yieldsD [OF y])
qed

lemma new_manager_ok:
  assumes "NewOvmsModelManager X nr address file cfg s = (Ok m, s')"
  shows "loaded_ok m \<and> completed m = [] \<and> requests_open m"
proof -
  obtain r u where "attempt (os_ReadFile file) s = (Ok r, u)"
    using assms by (auto simp: NewOvmsModelManager_def Let_def andThen_Ok_iff)
  from new_manager_loaded [OF assms this] show ?thesis by (simp add: loaded_ok_names names_ok_config_file)
qed

section \<open>What becomes of a batch\<close>

text \<open>The reply to a pending load when its batch ends, and whether it is a success.\<close>

definition load_succeeds :: "(nat \<Rightarrow> ctxerr option) \<Rightarrow> unit res \<Rightarrow> OvmsConfigResponse \<Rightarrow> string \<times> mm_request \<Rightarrow> bool" where
  "load_succeeds ctx u c e \<longleftrightarrow> is_live ctx e \<and> is_ok u \<and> available c (fst e)"

definition load_reply :: "(nat \<Rightarrow> ctxerr option) \<Rightarrow> unit res \<Rightarrow> OvmsConfigResponse \<Rightarrow> string \<times> mm_request \<Rightarrow> nat \<times> goerr option" where
  "load_reply ctx u c e =
     (if \<not> is_live ctx e then ctx_reply ctx (snd e)
      else (case u of Err x \<Rightarrow> fail_reply x (snd e) | _ \<Rightarrow> verdict_reply c e))"

lemma verdict_reply_None:
  "\<not> no_versions c e \<Longrightarrow> snd (verdict_reply c e) = None \<longleftrightarrow> available c (fst e)"
  by (cases e; cases rule: load_verdict_cases [of c "fst e"])
     (auto simp: verdict_reply_def status_Error_def load_verdict_OK load_verdict_Panic no_versions_def)

lemma load_reply_fst [simp]: "fst (load_reply ctx u c e) = rq_id (snd e)"
  by (auto simp: load_reply_def ctx_reply_def fail_reply_def verdict_reply_def split: res.split prod.split)

lemma load_reply_None:
  "(\<forall>p. u \<noteq> Panic p) \<Longrightarrow> (is_ok u \<Longrightarrow> is_live ctx e \<Longrightarrow> \<not> no_versions c e) \<Longrightarrow>
    snd (load_reply ctx u c e) = None \<longleftrightarrow> load_succeeds ctx u c e"
  by (cases u) (auto simp: load_reply_def load_succeeds_def ctx_reply_def fail_reply_def verdict_reply_None)

lemma fst_in_iff: "x \<in> fst ` A \<longleftrightarrow> (\<exists>r. (x, r) \<in> A)"
  by force

lemma complete_loads_snd: "cachedModelConfigResponse (snd (complete_loads rs m)) = cachedModelConfigResponse m"
  by (simp add: complete_loads_form Let_def)

lemma batch_outcome:
  fixes X :: ext and b :: batch and ctx :: "nat \<Rightarrow> ctxerr option" and m m' :: OvmsModelManager and reload config :: http_reply
  defines "u \<equiv> fst (updateModelConfig X reload config (snd (drop_cancelled ctx (requestMap b) m)))"
  assumes "run_batch X ctx reload config b m = (Ok (), m')"
  shows "set (completed m') = set (completed m) \<union> load_reply ctx u (cachedModelConfigResponse m') ` set (requestMap b)"
    and "loadedModelsMap m' = without {k. \<exists>r. (k, r) \<in> set (requestMap b) \<and> \<not> load_succeeds ctx u (cachedModelConfigResponse m') (k, r)} (loadedModelsMap m)"
    and "\<forall>e \<in> set (requestMap b). snd (load_reply ctx u (cachedModelConfigResponse m') e) = None \<longleftrightarrow> load_succeeds ctx u (cachedModelConfigResponse m') e"
proof -
  define rs where "rs = filter (is_live ctx) (requestMap b)"
  define cs where "cs = filter (\<lambda>e. \<not> is_live ctx e) (requestMap b)"
  let ?m1 = "answer_all (map (ctx_reply ctx \<circ> snd) cs) (fst ` set cs) m"
  have u: "updateModelConfig X reload config ?m1 = (u, snd (updateModelConfig X reload config ?m1))"
    by (simp add: u_def drop_cancelled_form cs_def)
  define m2 where "m2 = snd (updateModelConfig X reload config ?m1)"
  note f = updateModelConfig_frame [OF u, folded m2_def]
  have run: "run_batch X ctx reload config b m = (case u of
       Err e \<Rightarrow> (Ok (), answer_all (map (fail_reply e \<circ> snd) rs) (fst ` set rs) m2) | _ \<Rightarrow> complete_loads rs m2)"
  proof (rule run_batch_form [of X reload config ctx b m, folded rs_def cs_def])
    fix u' m2'
    assume "updateModelConfig X reload config ?m1 = (u', m2')"
    then have "u' = u" "m2' = m2" using u by (simp_all add: m2_def)
    then show "run_batch X ctx reload config b m = (case u' of
        Err e \<Rightarrow> (Ok (), answer_all (map (fail_reply e \<circ> snd) rs) (fst ` set rs) m2') | _ \<Rightarrow> complete_loads rs m2') \<Longrightarrow> ?thesis"
      by (simp only:)
  qed
  have sets: "set (requestMap b) = set rs \<union> set cs" "\<forall>e \<in> set rs. is_live ctx e" "\<forall>e \<in> set cs. \<not> is_live ctx e"
    by (auto simp: rs_def cs_def)
  let ?c = "cachedModelConfigResponse m'"
  have "completed m' = completed m @ map (load_reply ctx u ?c) cs @ map (load_reply ctx u ?c) rs \<and>
      loadedModelsMap m' = without (fst ` set cs \<union> {k \<in> fst ` set rs. \<not> (is_ok u \<and> available ?c k)}) (loadedModelsMap m) \<and>
      (is_ok u \<longrightarrow> (\<forall>e \<in> set rs. \<not> no_versions ?c e))"
  proof (cases u)
    case (Err x)
    then have "m' = answer_all (map (fail_reply x \<circ> snd) rs) (fst ` set rs) m2" using run assms(2) by simp
    then show ?thesis using Err f sets(2,3) by (auto simp: load_reply_def Un_commute)
  next
    case (Ok x)
    then have r: "complete_loads rs m2 = (Ok (), m')" using run assms(2) by simp
    then have c: "cachedModelConfigResponse m2 = ?c" using complete_loads_snd [of rs m2] by simp
    from r have nv: "\<not> list_ex (no_versions ?c) rs" by (auto simp: complete_loads_form Let_def c split: if_splits)
    define c where "c = ?c"
    have "m' = answer_all (map (verdict_reply c) rs) (failed_loads c rs) m2"
      using nv r complete_loads_ok [of m2 rs] \<open>cachedModelConfigResponse m2 = ?c\<close> by (simp add: c_def)
    then have "completed m' = completed m2 @ map (verdict_reply c) rs" "loadedModelsMap m' = without (failed_loads c rs) (loadedModelsMap m2)"
      by simp_all
    then show ?thesis using Ok f sets(2,3) nv unfolding c_def [symmetric]
      by (auto simp: load_reply_def failed_loads_def list_ex_iff Un_commute)
  qed (use f in simp)
  then have R: "completed m' = completed m @ map (load_reply ctx u ?c) cs @ map (load_reply ctx u ?c) rs"
    "loadedModelsMap m' = without (fst ` set cs \<union> {k \<in> fst ` set rs. \<not> (is_ok u \<and> available ?c k)}) (loadedModelsMap m)"
    "is_ok u \<longrightarrow> (\<forall>e \<in> set rs. \<not> no_versions ?c e)" by simp_all
  show "set (completed m') = set (completed m) \<union> load_reply ctx u ?c ` set (requestMap b)"
    unfolding R(1) sets(1) by auto
  have s: "load_succeeds ctx u ?c (k, r) \<longleftrightarrow> (k, r) \<in> set rs \<and> is_ok u \<and> available ?c k" if "(k, r) \<in> set (requestMap b)" for k r
    using that sets unfolding load_succeeds_def by auto
  have "fst ` set cs = {k. \<exists>r. (k, r) \<in> set (requestMap b) \<and> (k, r) \<notin> set rs}"
    "fst ` set rs = {k. \<exists>r. (k, r) \<in> set (requestMap b) \<and> (k, r) \<in> set rs}"
    unfolding set_eq_iff fst_in_iff mem_Collect_eq using sets by blast+
  then have "fst ` set cs \<union> {k \<in> fst ` set rs. \<not> (is_ok u \<and> available ?c k)} =
      {k. \<exists>r. (k, r) \<in> set (requestMap b) \<and> \<not> load_succeeds ctx u ?c (k, r)}"
    using s by auto
  then show "loadedModelsMap m' = without {k. \<exists>r. (k, r) \<in> set (requestMap b) \<and> \<not> load_succeeds ctx u ?c (k, r)} (loadedModelsMap m)"
    using R(2) by simp
  show "\<forall>e \<in> set (requestMap b). snd (load_reply ctx u ?c e) = None \<longleftrightarrow> load_succeeds ctx u ?c e"
    using R(3) sets f by (auto intro!: load_reply_None)
qed

section \<open>Properties\<close>

lemma mset_distinct_count: "distinct xs \<Longrightarrow> M \<subseteq># mset xs \<Longrightarrow> count M i \<le> 1"
  using mset_subset_eq_count [of M "mset xs" i] by (auto simp: distinct_count_atmost_1 split: if_splits intro: le_trans)

text \<open>
  C21: Every request that the manager of OVMS receives is answered at most once, whatever the clients, the timers and OVMS do, so a reply never
  blocks on its channel, which holds one; no reply goes to a request that was not received; and while the manager
  gathers, the requests without a reply are exactly the pending loads of the batch. When it has ended its loop
  all are answered.
\<close>

theorem requests_answered_once:
  assumes "NewOvmsModelManager X nr address file cfg s0 = (Ok m0, s1)" "ov_reach X m0 log (st, m)"
  shows "count (replied m) i \<le> 1 \<and> set_mset (replied m) \<subseteq> rq_id ` set log \<and>
    (case st of
       Gathering b \<Rightarrow> replied m + mset (pend (requestMap b)) = mset (map rq_id log)
     | Exited \<Rightarrow> replied m = mset (map rq_id log)
     | Crashed p \<Rightarrow> True)"
proof -
  from ov_reach_inv [OF assms(2)] new_manager_ok [OF assms(1)]
  have I: "ov_inv log (st, m)" "distinct (map rq_id log)" by simp_all
  then have "replied m \<subseteq># mset (map rq_id log)" by (cases st) (auto simp: subset_mset.le_iff_add dest: sym)
  with I show ?thesis
    using mset_distinct_count [OF I(2)] set_mset_mono by (cases st) fastforce+
qed

text \<open>A manager on an empty disk, and a request.\<close>

definition idle_os :: os where
  "idle_os = \<lparr>files = [], calls = 0, faults = (\<lambda>n. None)\<rparr>"

definition demo_config :: ModelManagerConfig where
  "demo_config = \<lparr>BatchWaitTimeMin = 0, BatchWaitTimeMax = 0, HttpClientMaxConns = 0, ReloadTimeout = 0, ModelConfigFilePerms = 0,
     RequestChannelSize = 0\<rparr>"

definition demo_request :: mm_request where
  "demo_request = \<lparr>rq_id = 7, rq_type = RLoad, rq_modelId = ''a'', rq_basePath = ''/models/a''\<rparr>"

lemma demo_manager:
  obtains m0 s1 where "NewOvmsModelManager demo_ext (\<lambda>u. Ok ()) ''http://localhost:8001'' ''/c.json'' demo_config idle_os = (Ok m0, s1)"
proof -
  have "is_ok (fst (NewOvmsModelManager demo_ext (\<lambda>u. Ok ()) ''http://localhost:8001'' ''/c.json'' demo_config idle_os))" by code_simp
  with that show ?thesis by (metis is_ok_iff prod.collapse)
qed

lemma demo_reach:
  assumes "loaded_ok m0" "requests_open m0"
  obtains m where "ov_reach X m0 [demo_request] (Gathering (load_batch demo_request new_batch), m)" "requests_open m"
proof -
  let ?s = "gather_receive (\<lambda>i. None) demo_request new_batch m0"
  have g: "?s = (Ok (load_batch demo_request new_batch),
      (answer_all [] {} m0)\<lparr>loadedModelsMap := AList.update ''a'' (load_entry demo_request) (loadedModelsMap m0)\<rparr>)"
    by (simp add: gather_receive_def gather_load_form demo_request_def live_pending_def evicted_def new_batch_def)
  have "ov_step X (Receive (\<lambda>i. None) demo_request) (Gathering new_batch, m0) = Some (Gathering (load_batch demo_request new_batch), snd ?s)"
    using assms(2) by (simp add: g after_step_def)
  from ov_reach.receive [OF ov_reach.start _ this] that [of "snd ?s"] assms(2) show ?thesis by (simp add: g)
qed

theorem requests_answered_once_witness:
  "\<exists>m0 s1 m. NewOvmsModelManager demo_ext (\<lambda>u. Ok ()) ''http://localhost:8001'' ''/c.json'' demo_config idle_os = (Ok m0, s1) \<and>
     ov_reach demo_ext m0 [demo_request] (Gathering (load_batch demo_request new_batch), m) \<and> count (replied m) 7 = 0"
proof -
  obtain m0 s1 where n: "NewOvmsModelManager demo_ext (\<lambda>u. Ok ()) ''http://localhost:8001'' ''/c.json'' demo_config idle_os = (Ok m0, s1)"
    by (rule demo_manager)
  from new_manager_ok [OF n] obtain m where r: "ov_reach demo_ext m0 [demo_request] (Gathering (load_batch demo_request new_batch), m)"
    by (auto intro: demo_reach)
  from requests_answered_once [OF n r] have "replied m + {#7#} = {#7#}" by (simp add: demo_request_def new_batch_def)
  then have "count (replied m) 7 = 0" by simp
  with n r show ?thesis by blast
qed

text \<open>
  C4: What a load request is told when its batch ends without a panic. It gets exactly one reply; the reply is success if and only if the
  context was not cancelled by then, OVMS confirmed the reload, and its answer lists the model with a first
  version that is available; and the model stays in the configuration exactly in that case, with the path
  of the request.
\<close>

theorem load_outcome:
  fixes ctx :: "nat \<Rightarrow> ctxerr option"
  assumes "NewOvmsModelManager X nr address file cfg s0 = (Ok m0, s1)" "ov_reach X m0 log (Gathering b, m)"
    and "ov_step X (TimerFires ctx reload config) (Gathering b, m) = Some (st, m')" "\<And>p. st \<noteq> Crashed p"
    and "(k, r) \<in> set (requestMap b)"
  shows "let ok = ctx (rq_id r) = None \<and> available (cachedModelConfigResponse m') k \<and>
        is_ok (fst (updateModelConfig X reload config (snd (drop_cancelled ctx (requestMap b) m))))
    in (\<exists>!v. (rq_id r, v) \<in> set (completed m')) \<and> ((rq_id r, None) \<in> set (completed m') \<longleftrightarrow> ok) \<and>
       map_of (loadedModelsMap m') k = (if ok then Some \<lparr>cfg_Name = k, cfg_BasePath = rq_basePath r\<rparr> else None)"
proof -
  have I: "ov_inv log (Gathering b, m)" "distinct (map rq_id log)"
    using ov_reach_inv [OF assms(2)] new_manager_ok [OF assms(1)] by simp_all
  have run: "fst (run_batch X ctx reload config b m) = Ok ()" and m': "snd (run_batch X ctx reload config b m) = m'"
    and st: "st = Gathering new_batch \<or> st = Exited"
    using assms(3,4) by (auto simp: after_step_def split: if_splits prod.splits res.splits)
  then have rb: "run_batch X ctx reload config b m = (Ok (), m')" by (simp add: prod_eq_iff)
  from batch_outcome [OF rb] have
    c: "set (completed m') = set (completed m) \<union> load_reply ctx (fst (updateModelConfig X reload config (snd (drop_cancelled ctx (requestMap b) m)))) (cachedModelConfigResponse m') ` set (requestMap b)"
    and l: "loadedModelsMap m' = without {k. \<exists>r. (k, r) \<in> set (requestMap b) \<and> \<not> load_succeeds ctx
        (fst (updateModelConfig X reload config (snd (drop_cancelled ctx (requestMap b) m)))) (cachedModelConfigResponse m') (k, r)} (loadedModelsMap m)"
    and n: "\<forall>e \<in> set (requestMap b). snd (load_reply ctx (fst (updateModelConfig X reload config (snd (drop_cancelled ctx (requestMap b) m)))) (cachedModelConfigResponse m') e) = None
        \<longleftrightarrow> load_succeeds ctx (fst (updateModelConfig X reload config (snd (drop_cancelled ctx (requestMap b) m)))) (cachedModelConfigResponse m') e"
    by blast+
  define R where "R = load_reply ctx (fst (updateModelConfig X reload config (snd (drop_cancelled ctx (requestMap b) m)))) (cachedModelConfigResponse m')"
  define S where "S = load_succeeds ctx (fst (updateModelConfig X reload config (snd (drop_cancelled ctx (requestMap b) m)))) (cachedModelConfigResponse m')"
  note c = c [folded R_def] and l = l [folded S_def] and n = n [folded R_def S_def]
  have "ov_inv log (st, m')" using ov_inv_fire [OF I(1), of X ctx reload config] assms(3) by (auto split: if_splits)
  with st have "mset (map fst (completed m')) = mset (map rq_id log)" by (auto simp: replied_def new_batch_def)
  then have d: "distinct (map fst (completed m'))" using I(2) mset_eq_imp_distinct_iff by blast
  have R: "R (k, r) = (rq_id r, snd (R (k, r)))" by (simp add: R_def prod_eq_iff)
  have in_c: "(rq_id r, v) \<in> set (completed m') \<longleftrightarrow> v = snd (R (k, r))" for v
    using c assms(5) R d by (metis UnI2 eq_key_imp_eq_value imageI)
  have "S (k, r) \<longleftrightarrow> ctx (rq_id r) = None \<and> available (cachedModelConfigResponse m') k \<and>
      is_ok (fst (updateModelConfig X reload config (snd (drop_cancelled ctx (requestMap b) m))))"
    by (auto simp: S_def load_succeeds_def is_live_def)
  moreover have B: "distinct (map fst (requestMap b))" "map_of (loadedModelsMap m) k = Some \<lparr>cfg_Name = k, cfg_BasePath = rq_basePath r\<rparr>"
    using I(1) assms(5) by (auto simp: batch_ok_def)
  then have "map_of (loadedModelsMap m') k = (if S (k, r) then Some \<lparr>cfg_Name = k, cfg_BasePath = rq_basePath r\<rparr> else None)"
    using assms(5) by (auto simp: l map_of_without dest: eq_key_imp_eq_value)
  ultimately show ?thesis unfolding Let_def using in_c n assms(5) by auto
qed

lemma no_response_fails: "\<not> is_ok (fst (updateModelConfig X (NoResponse e) config m))"
  by (auto simp: updateModelConfig_def andThen_def split: prod.split res.split)

theorem load_outcome_witness:
  "\<exists>m0 s1 m m'. NewOvmsModelManager demo_ext (\<lambda>u. Ok ()) ''http://localhost:8001'' ''/c.json'' demo_config idle_os = (Ok m0, s1) \<and>
     ov_reach demo_ext m0 [demo_request] (Gathering (load_batch demo_request new_batch), m) \<and>
     ov_step demo_ext (TimerFires (\<lambda>i. None) (NoResponse (ExtErr [])) (NoResponse (ExtErr [])))
       (Gathering (load_batch demo_request new_batch), m) = Some (Gathering new_batch, m') \<and> map_of (loadedModelsMap m') ''a'' = None"
proof -
  let ?c = "NoResponse (ExtErr [])" and ?b = "load_batch demo_request new_batch"
  obtain m0 s1 where n: "NewOvmsModelManager demo_ext (\<lambda>u. Ok ()) ''http://localhost:8001'' ''/c.json'' demo_config idle_os = (Ok m0, s1)"
    by (rule demo_manager)
  from new_manager_ok [OF n] obtain m where r: "ov_reach demo_ext m0 [demo_request] (Gathering ?b, m)" and o: "requests_open m"
    by (auto intro: demo_reach)
  have "fst (run_batch demo_ext (\<lambda>i. None) ?c ?c ?b m) = Ok ()"
  proof (rule run_batch_form [of demo_ext ?c ?c "\<lambda>i. None" ?b m])
    fix u m2
    assume "updateModelConfig demo_ext ?c ?c (answer_all (map (ctx_reply (\<lambda>i. None) \<circ> snd) (filter (\<lambda>e. \<not> is_live (\<lambda>i. None) e) (requestMap ?b)))
      (fst ` set (filter (\<lambda>e. \<not> is_live (\<lambda>i. None) e) (requestMap ?b))) m) = (u, m2)"
    from updateModelConfig_frame [OF this] arg_cong [OF this, of fst] no_response_fails have "(\<forall>p. u \<noteq> Panic p) \<and> \<not> is_ok u" by (metis fst_conv)
    then have "\<exists>e. u = Err e" by (cases u) simp_all
    then show "run_batch demo_ext (\<lambda>i. None) ?c ?c ?b m = (case u of Err e \<Rightarrow> (Ok (), answer_all (map (fail_reply e \<circ> snd)
        (filter (is_live (\<lambda>i. None)) (requestMap ?b))) (fst ` set (filter (is_live (\<lambda>i. None)) (requestMap ?b))) m2)
      | _ \<Rightarrow> complete_loads (filter (is_live (\<lambda>i. None)) (requestMap ?b)) m2) \<Longrightarrow> ?thesis" by auto
  qed
  moreover have "stopChan ?b = Some WaitMin" by (simp add: load_batch_def new_batch_def start_timer_def)
  ultimately have st: "ov_step demo_ext (TimerFires (\<lambda>i. None) ?c ?c) (Gathering ?b, m) =
      Some (Gathering new_batch, snd (run_batch demo_ext (\<lambda>i. None) ?c ?c ?b m))"
    using o by (auto simp: after_step_def split: prod.split)
  have k: "(''a'', demo_request) \<in> set (requestMap ?b)" by (simp add: new_batch_def demo_request_def)
  have "map_of (loadedModelsMap (snd (run_batch demo_ext (\<lambda>i. None) ?c ?c ?b m))) ''a'' = None"
    using load_outcome [OF n r st _ k] no_response_fails by (simp add: Let_def)
  with n r st show ?thesis by blast
qed

text \<open>
  C35: Which requests stop the manager. A request whose own context is not cancelled makes the gathering panic exactly if it supersedes a
  pending load whose context is not cancelled either: a load or an unload one of the same model, an unload of all
  any one. (The code then asks a nil context error for its text, for a log message.) So two loads of one model, or a load and
  an unload, within one batch stop the process although no caller gave up.
\<close>

theorem superseding_request_panics:
  "(\<exists>p m'. gather_receive ctx r b m = (Panic p, m')) \<longleftrightarrow>
     ctx (rq_id r) = None \<and>
     (\<exists>k p. (k, p) \<in> (if rq_type r = RUnloadAll then set (requestMap b)
                else {(k, p). k = rq_modelId r \<and> map_of (requestMap b) k = Some p}) \<and> ctx (rq_id p) = None)"
proof (cases "ctx (rq_id r)")
  case None
  have "list_ex (is_live ctx) rs \<longleftrightarrow> (\<exists>k p. (k, p) \<in> set rs \<and> ctx (rq_id p) = None)" for rs
    by (auto simp: list_ex_iff is_live_def)
  with None show ?thesis
    by (cases "rq_type r")
      (simp_all add: gather_receive_def gather_load_form gather_unload_form gather_unloadAll_form live_pending_def)
next
  case (Some e)
  then show ?thesis by (simp add: gather_receive_def andThen_def completeRequest_form)
qed

text \<open>
  C32: A pending load waits for a bounded time only. Whenever the manager gathers with a pending load, the short timer runs; no later
  request starts it again, and a batch starts at most two timers, the long one first; when the timer
  fires, the step is possible whatever OVMS answers, and unless it panics no request is left without a reply.
\<close>

theorem pending_load_wait_bounded:
  assumes "NewOvmsModelManager X nr address file cfg s0 = (Ok m0, s1)" "ov_reach X m0 log (Gathering b, m)" "requestMap b \<noteq> []"
  shows "stopChan b = Some WaitMin \<and> timers b \<le> 2 \<and>
    (\<forall>ctx r b' m'. gather_receive ctx r b m = (Ok b', m') \<longrightarrow> stopChan b' = Some WaitMin \<and> timers b' = timers b) \<and>
    (\<exists>s. ov_step X (TimerFires ctx reload config) (Gathering b, m) = Some s \<and>
       ((\<forall>p. fst s \<noteq> Crashed p) \<longrightarrow> replied (snd s) = mset (map rq_id log)))"
proof -
  have I: "ov_inv log (Gathering b, m)" using ov_reach_inv [OF assms(2)] new_manager_ok [OF assms(1)] by simp
  then have B: "stopChan b = Some WaitMin" "timer_ok b" using assms(3) by (simp_all add: batch_ok_def)
  then have t: "timers b \<le> 2" "shortTimerSet b" by (simp_all add: timer_ok_def)
  have keep: "stopChan b' = Some WaitMin \<and> timers b' = timers b" if "gather_receive ctx r b m = (Ok b', m')" for ctx r b' m'
    using that B(1) t(2)
    by (cases "ctx (rq_id r)"; cases "rq_type r")
       (auto simp: gather_receive_def andThen_def completeRequest_form gather_load_form gather_unload_form gather_unloadAll_form
         load_batch_def unload_batch_def reset_batch_def Let_def split: if_splits)
  obtain s where s: "ov_step X (TimerFires ctx reload config) (Gathering b, m) = Some s" using B(1) by simp
  then have "ov_inv log s" using ov_inv_fire [OF I, of X ctx reload config] B(1) by simp
  moreover have "fst s = Gathering new_batch \<or> fst s = Exited \<or> (\<exists>p. fst s = Crashed p)"
    using s B(1) by (auto simp: after_step_def split: prod.split res.split)
  ultimately have "(\<forall>p. fst s \<noteq> Crashed p) \<longrightarrow> replied (snd s) = mset (map rq_id log)"
    by (cases s) (auto simp: new_batch_def)
  with s B(1) t(1) keep show ?thesis by blast
qed

theorem pending_load_wait_bounded_witness:
  "\<exists>m0 s1 m. NewOvmsModelManager demo_ext (\<lambda>u. Ok ()) ''http://localhost:8001'' ''/c.json'' demo_config idle_os = (Ok m0, s1) \<and>
     ov_reach demo_ext m0 [demo_request] (Gathering (load_batch demo_request new_batch), m) \<and>
     stopChan (load_batch demo_request new_batch) = Some WaitMin"
proof -
  obtain m0 s1 where n: "NewOvmsModelManager demo_ext (\<lambda>u. Ok ()) ''http://localhost:8001'' ''/c.json'' demo_config idle_os = (Ok m0, s1)"
    by (rule demo_manager)
  from new_manager_ok [OF n] obtain m where r: "ov_reach demo_ext m0 [demo_request] (Gathering (load_batch demo_request new_batch), m)"
    by (auto intro: demo_reach)
  have "requestMap (load_batch demo_request new_batch) \<noteq> []" by (simp add: new_batch_def)
  from pending_load_wait_bounded [OF n r this] n r show ?thesis by blast
qed

section \<open>The configuration file\<close>

text \<open>Decoding what was encoded.\<close>

lemma dec_enc_entry: "dec_config_entry (enc_config_entry c) = Some c"
proof -
  have k: "to_lower ''config'' = ''config''" "to_lower ''name'' = ''name''" "to_lower ''base_path'' = ''base_path''"
    "(''name'' :: string) \<noteq> ''base_path''" by code_simp+
  show ?thesis by (simp add: enc_config_entry_def k)
qed

lemma dec_enc_repository: "dec_repository_config (enc_repository_config cs) = Some cs"
proof -
  have "dec_all dec_config_entry (map enc_config_entry cs) = Some cs" by (induction cs) (simp_all add: dec_enc_entry)
  then show ?thesis by (simp add: enc_repository_config_def)
qed

lemma update_fresh: "k \<notin> fst ` set m \<Longrightarrow> AList.update k v m = m @ [(k, v)]"
  by (induction m) auto

lemma foldl_update_fresh:
  "distinct (map cfg_Name cs) \<Longrightarrow> \<forall>c \<in> set cs. cfg_Name c \<notin> fst ` set m \<Longrightarrow>
     foldl (\<lambda>m c. AList.update (cfg_Name c) c m) m cs = m @ map (\<lambda>c. (cfg_Name c, c)) cs"
proof (induction cs arbitrary: m)
  case Nil
  then show ?case by simp
next
  case (Cons c cs)
  then have "AList.update (cfg_Name c) c m = m @ [(cfg_Name c, c)]" by (simp add: update_fresh)
  moreover have "\<forall>c' \<in> set cs. cfg_Name c' \<notin> fst ` set (m @ [(cfg_Name c, c)])" using Cons.prems by (auto simp: image_iff)
  ultimately show ?case using Cons.IH [of "m @ [(cfg_Name c, c)]"] Cons.prems(1) by simp
qed

lemma load_config_written:
  assumes "names_ok l" "x_parse X text = Some (enc_repository_config (map snd l))"
  shows "load_config_file X (Ok text) = l"
proof -
  have n: "map cfg_Name (map snd l) = map fst l" "map (\<lambda>c. (cfg_Name c, c)) (map snd l) = l"
    using assms(1) by (auto simp: names_ok_def intro!: map_idI)
  have "distinct (map cfg_Name (map snd l))" using assms(1) unfolding n by (simp add: names_ok_def)
  then have "foldl (\<lambda>m c. AList.update (cfg_Name c) c m) [] (map snd l) = l"
    using foldl_update_fresh [of "map snd l" "[]"] n(2) by simp
  with assms(2) show ?thesis by (simp add: load_config_file_def dec_enc_repository)
qed

text \<open>
  C33: After a crash the adapter knows its models again. A new manager that reads the configuration file which an earlier one has written
  starts with exactly the models and paths, in the same order, that the earlier one had registered. (The JSON text parses back
  to what was printed.)
\<close>

theorem restart_restores_configuration:
  assumes "loaded_ok m" "writeConfig X m = (Ok (), m')"
    and "x_parse X (x_print X (enc_repository_config (map snd (loadedModelsMap m)))) = Some (enc_repository_config (map snd (loadedModelsMap m)))"
    and "files s = files (mm_os m')" "faults s (calls s) = None"
    and "NewOvmsModelManager X nr address (modelConfigFilename m) cfg s = (Ok m0, s')"
  shows "loadedModelsMap m0 = loadedModelsMap m"
proof -
  let ?text = "x_print X (enc_repository_config (map snd (loadedModelsMap m)))"
  from assms(2) have w: "os_WriteFile (modelConfigFilename m) ?text (ModelConfigFilePerms (mm_config m)) (mm_os m) = (Ok (), mm_os m')"
    by (auto simp: writeConfig_def Let_def on_err_Ok_iff split: prod.splits)
  obtain r u where ru: "os_ReadFile (modelConfigFilename m) s = (r, u)" by (cases "os_ReadFile (modelConfigFilename m) s")
  with os_WriteFile_ReadFile [OF w assms(4) ru assms(5)] have "attempt (os_ReadFile (modelConfigFilename m)) s = (Ok (Ok ?text), u)"
    by (simp add: attempt_def)
  with new_manager_loaded [OF assms(6)] have "loadedModelsMap m0 = load_config_file X (Ok ?text)" by blast
  also have "\<dots> = loadedModelsMap m"
    using assms(1,3) by (intro load_config_written) (simp_all add: loaded_ok_names)
  finally show ?thesis .
qed

definition demo_saved :: OvmsModelManager where
  "demo_saved = \<lparr>modelConfigFilename = ''/c.json'', mm_config = demo_config, cachedModelConfigResponse = [],
     loadedModelsMap = [(''a'', load_entry demo_request)], requests_open = True, mm_os = idle_os, completed = []\<rparr>"

definition demo_json_ext :: ext where
  "demo_json_ext = demo_ext\<lparr>x_parse := (\<lambda>s. Some (enc_repository_config [load_entry demo_request])), x_print := (\<lambda>v. ''{}'')\<rparr>"

theorem restart_restores_configuration_witness:
  "\<exists>m' m0 s'. writeConfig demo_json_ext demo_saved = (Ok (), m') \<and>
     NewOvmsModelManager demo_json_ext (\<lambda>u. Ok ()) [] ''/c.json'' demo_config (mm_os m') = (Ok m0, s') \<and>
     map fst (loadedModelsMap m0) = [''a'']"
proof -
  let ?m = "snd (writeConfig demo_json_ext demo_saved)"
  have w: "writeConfig demo_json_ext demo_saved = (Ok (), ?m)"
  proof -
    have "fst (writeConfig demo_json_ext demo_saved) = Ok ()" by code_simp
    then show ?thesis by (simp add: prod_eq_iff)
  qed
  have "is_ok (fst (NewOvmsModelManager demo_json_ext (\<lambda>u. Ok ()) [] ''/c.json'' demo_config (mm_os ?m)))" by code_simp
  then obtain m0 s' where n: "NewOvmsModelManager demo_json_ext (\<lambda>u. Ok ()) [] ''/c.json'' demo_config (mm_os ?m) = (Ok m0, s')"
    by (metis is_ok_iff prod.collapse)
  have "loaded_ok demo_saved" by (simp add: loaded_ok_def demo_saved_def load_entry_def demo_request_def)
  moreover have "faults (mm_os ?m) (calls (mm_os ?m)) = None" by code_simp
  moreover have "x_parse demo_json_ext v = Some (enc_repository_config (map snd (loadedModelsMap demo_saved)))" for v
    by (simp add: demo_json_ext_def demo_saved_def)
  moreover have "modelConfigFilename demo_saved = ''/c.json''" by (simp add: demo_saved_def)
  ultimately have "loadedModelsMap m0 = loadedModelsMap demo_saved"
    using restart_restores_configuration [OF _ w, of "mm_os ?m" "\<lambda>u. Ok ()" "[]" demo_config m0 s'] n by simp
  with w n show ?thesis by (auto simp: demo_saved_def)
qed

end
