(* ===== verification/Dotpath.thy ===== *)
theory Dotpath
  imports Util "HOL-Library.Multiset"
begin

text \<open>
  \<open>model-serving-puller/puller/dotpath.go\<close>: overriding entries of a nested configuration by paths such as \<open>a.b.c\<close>.

  Go changes the nested maps in place; here the outer map is rebuilt with the changed inner one. On an error
  nothing has been changed by the failing call.
\<close>

section \<open>Operations\<close>

definition fieldsFromDotpath :: "string \<Rightarrow> string list" where
  "fieldsFromDotpath dotpath = split_on CHR ''.'' dotpath"

text \<open>\<open>set\<close> on the fields left to visit, \<open>i\<close> of \<open>fields\<close> visited.\<close>

fun set_fields :: "string list \<Rightarrow> nat \<Rightarrow> string list \<Rightarrow> string \<Rightarrow> gomap \<Rightarrow> gomap res" where
  "set_fields flds i [] val params = Ok params"
| "set_fields flds i [lastField] val params =
     (case map_of params lastField of
        Some v \<Rightarrow>
          if as_string v = None
          then Err (ErrMsg ''expected a string at '%s', but got %v'' [join_with CHR ''.'' flds])
          else Ok (AList.update lastField (JStr val) params)
      | None \<Rightarrow> Ok (AList.update lastField (JStr val) params))"
| "set_fields flds i (fld # f # fs) val params =
     (case map_of params fld of
        None \<Rightarrow> res_bind (set_fields flds (Suc i) (f # fs) val [])
                  (\<lambda>next_map. Ok (AList.update fld (JObj next_map) params))
      | Some obj \<Rightarrow> (case as_map obj of
            None \<Rightarrow> Err (ErrMsg ''expected an object at '%s' '' [join_with CHR ''.'' (take i flds)])
          | Some inner \<Rightarrow> res_bind (set_fields flds (Suc i) (f # fs) val inner)
                  (\<lambda>next_map. Ok (AList.update fld (JObj next_map) params))))"

text \<open>\<open>params\<close> can be the nil map, \<open>None\<close>.\<close>

definition dotpath_set :: "string \<Rightarrow> string \<Rightarrow> gomap option \<Rightarrow> gomap option res" where
  "dotpath_set dotpath val params =
     (case params of
        None \<Rightarrow> Err (ErrMsg ''got nil map, unable to set value'' [])
      | Some m \<Rightarrow>
          (let flds = fieldsFromDotpath dotpath
           in res_bind (set_fields flds 0 flds val m) (\<lambda>m'. Ok (Some m'))))"

text \<open>The overrides in the order in which the map \<open>overrides\<close> is iterated, which Go leaves open.\<close>

fun ApplyParameterOverrides :: "(string \<times> string) list \<Rightarrow> gomap option \<Rightarrow> gomap option res" where
  "ApplyParameterOverrides [] params = Ok params"
| "ApplyParameterOverrides ((dotpath, val) # overrides) params =
     res_bind (dotpath_set dotpath val params) (ApplyParameterOverrides overrides)"

section \<open>The abstract configuration\<close>

text \<open>
  What a configuration holds at a path: an object, a string, or another value. The paths are lists of fields.
\<close>

datatype cell = CObj | CStr string | COther json

fun cell_of :: "json \<Rightarrow> cell" where
  "cell_of (JObj m) = CObj"
| "cell_of (JStr s) = CStr s"
| "cell_of v = COther v"

fun view :: "gomap \<Rightarrow> string list \<Rightarrow> cell option" where
  "view m [] = Some CObj"
| "view m (k # ks) = (case map_of m k of
     None \<Rightarrow> None
   | Some (JObj m') \<Rightarrow> view m' ks
   | Some v \<Rightarrow> if ks = [] then Some (cell_of v) else None)"

text \<open>
  Setting a path is allowed when no field on the way holds something other than an object, and the last
  nothing or a string; it makes objects on the way.
\<close>

definition settable :: "string list \<Rightarrow> (string list \<Rightarrow> cell option) \<Rightarrow> bool" where
  "settable p c \<longleftrightarrow> (\<forall>q. strict_prefix q p \<longrightarrow> c q \<in> {None, Some CObj}) \<and> (c p = None \<or> (\<exists>s. c p = Some (CStr s)))"

definition set_cells :: "string list \<Rightarrow> string \<Rightarrow> (string list \<Rightarrow> cell option) \<Rightarrow> (string list \<Rightarrow> cell option)" where
  "set_cells p v c = (\<lambda>q. if q = p then Some (CStr v) else if strict_prefix q p then Some CObj else c q)"

lemma view_obj: "map_of m k = Some (JObj m') \<Longrightarrow> view m (k # ks) = view m' ks"
  by simp

lemma view_update: "view (AList.update k (JObj m') m) (k' # ks) = (if k' = k then view m' ks else view m (k' # ks))"
  by (simp add: update_conv')

lemma view_update_str:
  "view (AList.update k (JStr s) m) (k' # ks) = (if k' = k then (if ks = [] then Some (CStr s) else None) else view m (k' # ks))"
  by (simp add: update_conv')

lemma view_Nil_map: "ks \<noteq> [] \<Longrightarrow> view [] ks = None"
  by (cases ks) simp_all

lemma strict_prefix_Cons_iff: "strict_prefix q (k # p) \<longleftrightarrow> q = [] \<or> (\<exists>q'. q = k # q' \<and> strict_prefix q' p)"
  by (cases q) (auto simp: strict_prefix_def)

lemma settable_Cons: "settable (k # p) c \<longleftrightarrow> c [] \<in> {None, Some CObj} \<and> settable p (\<lambda>q. c (k # q))"
  unfolding settable_def strict_prefix_Cons_iff by auto

lemma set_cells_Cons: "set_cells (k # p) v c (k' # q) = (if k' = k then set_cells p v (\<lambda>q. c (k # q)) q else c (k' # q))"
  by (simp add: set_cells_def strict_prefix_Cons_iff)

text \<open>The refinement: \<open>set\<close> succeeds exactly when the path is settable, and then does what the abstract update does.\<close>

lemma set_fields_refines:
  assumes "p \<noteq> []"
  shows "if settable p (view m) then \<exists>m'. set_fields fs i p v m = Ok m' \<and> view m' = set_cells p v (view m)
    else \<exists>e. set_fields fs i p v m = Err e"
  using assms
proof (induction fs i p v m rule: set_fields.induct)
  case (1 flds i val params)
  then show ?case by simp
next
  case (2 flds i k val m)
  have s: "settable [k] (view m) \<longleftrightarrow> (case map_of m k of None \<Rightarrow> True | Some v \<Rightarrow> as_string v \<noteq> None)"
    by (auto simp: settable_def strict_prefix_Cons_iff split: option.splits json.splits)
  have eq: "view (AList.update k (JStr val) m) = set_cells [k] val (view m)" if "settable [k] (view m)"
  proof
    fix q
    have below: "view m (k # ks) = None" if "ks \<noteq> []" for ks
    proof (cases "map_of m k")
      case (Some v)
      with \<open>settable [k] (view m)\<close> s obtain u where "v = JStr u" by (cases v) auto
      with Some that show ?thesis by simp
    qed simp
    show "view (AList.update k (JStr val) m) q = set_cells [k] val (view m) q"
    proof (cases q)
      case Nil
      then show ?thesis by (simp add: set_cells_def strict_prefix_Cons_iff)
    next
      case (Cons k' ks)
      then show ?thesis
        using below by (simp add: set_cells_def strict_prefix_Cons_iff view_update_str del: view.simps(2))
    qed
  qed
  show ?case
  proof (cases "map_of m k")
    case None
    with s eq show ?thesis by simp
  next
    case (Some v)
    with s eq show ?thesis by (cases "as_string v") simp_all
  qed
next
  case (3 flds i k f fs val m)
  let ?p = "f # fs"
  show ?case
  proof (cases "map_of m k")
    case None
    have s: "settable (k # ?p) (view m)" "settable ?p (view [])"
      using None by (auto simp: settable_def strict_prefix_Cons_iff view_Nil_map)
    from 3(1) [OF None] s(2) obtain m' where m': "set_fields flds (Suc i) ?p val [] = Ok m'" "view m' = set_cells ?p val (view [])"
      by auto
    have "view (AList.update k (JObj m') m) q = set_cells (k # ?p) val (view m) q" for q
      using None by (cases q) (auto simp: set_cells_def strict_prefix_Cons_iff view_update m'(2) view_Nil_map simp del: view.simps(2), simp)
    with s m'(1) None show ?thesis by auto
  next
    case (Some obj)
    show ?thesis
    proof (cases "as_map obj")
      case None
      have "view m [k] \<noteq> None \<and> view m [k] \<noteq> Some CObj"
        using Some None by (cases obj) simp_all
      moreover have "view m [k] \<in> {None, Some CObj}" if "settable (k # ?p) (view m)"
        using that by (auto simp: settable_def strict_prefix_Cons_iff simp del: view.simps(2))
      ultimately have "\<not> settable (k # ?p) (view m)" by auto
      with Some None show ?thesis by simp
    next
      case inner: (Some inner)
      then have obj: "obj = JObj inner" by (cases obj) simp_all
      have s: "settable (k # ?p) (view m) \<longleftrightarrow> settable ?p (view inner)"
        using Some obj by (simp add: settable_Cons)
      show ?thesis
      proof (cases "settable ?p (view inner)")
        case True
        with 3(2) [OF Some inner] obtain m' where m': "set_fields flds (Suc i) ?p val inner = Ok m'" "view m' = set_cells ?p val (view inner)"
          by auto
        have "view (AList.update k (JObj m') m) q = set_cells (k # ?p) val (view m) q" for q
        proof (cases q)
          case Nil
          then show ?thesis by (simp add: set_cells_def)
        next
          case (Cons k' ks)
          have "(\<lambda>q. view m (k # q)) = view inner" using Some obj by simp
          with Cons show ?thesis by (simp add: set_cells_Cons view_update m'(2) del: view.simps(2))
        qed
        with s True m'(1) Some inner show ?thesis by auto
      next
        case False
        with 3(2) [OF Some inner] s Some inner show ?thesis by auto
      qed
    qed
  qed
qed

section \<open>Overrides in any order\<close>

definition set_opt :: "string list \<times> string \<Rightarrow> (string list \<Rightarrow> cell option) option \<Rightarrow> (string list \<Rightarrow> cell option) option" where
  "set_opt pv c = (case c of None \<Rightarrow> None
     | Some c \<Rightarrow> if settable (fst pv) c then Some (set_cells (fst pv) (snd pv) c) else None)"

lemma settable_set_cells:
  assumes "p \<noteq> q"
  shows "settable q c \<Longrightarrow> settable p c \<Longrightarrow> settable q (set_cells p v c) \<longleftrightarrow> \<not> strict_prefix p q \<and> \<not> strict_prefix q p"
  using assms unfolding settable_def set_cells_def by (auto split: if_splits)

lemma settable_back: "settable q (set_cells p v c) \<Longrightarrow> settable p c \<Longrightarrow> p \<noteq> q \<Longrightarrow> settable q c"
  unfolding settable_def set_cells_def by (auto split: if_splits dest: prefix_order.less_trans)

lemma set_cells_commute:
  "p \<noteq> q \<Longrightarrow> \<not> strict_prefix p q \<Longrightarrow> \<not> strict_prefix q p \<Longrightarrow> set_cells p v (set_cells q w c) = set_cells q w (set_cells p v c)"
  unfolding set_cells_def by auto

lemma set_opt_commute:
  assumes "fst a \<noteq> fst b"
  shows "set_opt a \<circ> set_opt b = set_opt b \<circ> set_opt a"
proof
  fix c
  obtain p v q w where ab: "a = (p, v)" "b = (q, w)" by fastforce
  with assms have ne: "p \<noteq> q" by simp
  show "(set_opt a \<circ> set_opt b) c = (set_opt b \<circ> set_opt a) c"
  proof (cases c)
    case None
    then show ?thesis by (simp add: set_opt_def)
  next
    case (Some c)
    then show ?thesis
      using settable_set_cells [OF ne, of c v] settable_set_cells [OF ne [symmetric], of c w]
        settable_back [of q p v c] settable_back [of p q w c] set_cells_commute [OF ne, of v w c] ne
      by (auto simp: set_opt_def ab)
  qed
qed

text \<open>The overrides as the paths and values they stand for.\<close>

definition abs_overrides :: "(string \<times> string) list \<Rightarrow> (string list \<times> string) list" where
  "abs_overrides os = map (\<lambda>(d, v). (fieldsFromDotpath d, v)) os"

lemma ApplyParameterOverrides_refines:
  "case ApplyParameterOverrides os (Some m) of
     Ok r \<Rightarrow> (\<exists>m'. r = Some m' \<and> fold set_opt (abs_overrides os) (Some (view m)) = Some (view m'))
   | Err e \<Rightarrow> fold set_opt (abs_overrides os) (Some (view m)) = None
   | Panic x \<Rightarrow> False"
proof (induction os arbitrary: m)
  case Nil
  then show ?case by (simp add: abs_overrides_def)
next
  case (Cons e os)
  obtain d v where e: "e = (d, v)" by fastforce
  let ?p = "fieldsFromDotpath d"
  have p: "?p \<noteq> []" by (simp add: fieldsFromDotpath_def)
  have none: "fold set_opt xs None = None" for xs by (induction xs) (simp_all add: set_opt_def)
  show ?case
  proof (cases "settable ?p (view m)")
    case True
    with set_fields_refines [OF p, of m ?p 0 v] obtain m' where
      "set_fields ?p 0 ?p v m = Ok m'" "view m' = set_cells ?p v (view m)" by auto
    with True have "ApplyParameterOverrides (e # os) (Some m) = ApplyParameterOverrides os (Some m')"
      "fold set_opt (abs_overrides (e # os)) (Some (view m)) = fold set_opt (abs_overrides os) (Some (view m'))"
      by (simp_all add: e dotpath_set_def Let_def abs_overrides_def set_opt_def)
    with Cons.IH [of m'] show ?thesis by (simp only:)
  next
    case False
    with set_fields_refines [OF p, of m ?p 0 v] obtain x where "set_fields ?p 0 ?p v m = Err x" by auto
    with False none show ?thesis by (simp add: e dotpath_set_def Let_def abs_overrides_def set_opt_def)
  qed
qed

lemma fieldsFromDotpath_inj: "fieldsFromDotpath d = fieldsFromDotpath d' \<Longrightarrow> d = d'"
  unfolding fieldsFromDotpath_def by (metis join_split)

lemma fold_set_opt_mset:
  assumes "distinct (map fst os)" "mset os = mset os'"
  shows "fold set_opt (abs_overrides os) c = fold set_opt (abs_overrides os') c"
proof -
  have d: "fst a \<noteq> fst b" if "a \<in> set (abs_overrides os)" "b \<in> set (abs_overrides os)" "a \<noteq> b" for a b
    using that assms(1) unfolding abs_overrides_def
    by (auto dest!: fieldsFromDotpath_inj dest: eq_key_imp_eq_value)
  have "mset (abs_overrides os) = mset (abs_overrides os')" using assms(2) by (simp add: abs_overrides_def)
  moreover have "set_opt a \<circ> set_opt b = set_opt b \<circ> set_opt a"
    if "a \<in> set (abs_overrides os)" "b \<in> set (abs_overrides os)" for a b
    using d [OF that] set_opt_commute [of a b] by (cases "a = b") auto
  ultimately have "fold set_opt (abs_overrides os) = fold set_opt (abs_overrides os')"
    by (intro fold_multiset_equiv) (auto simp: fun_eq_iff)
  then show ?thesis by simp
qed

text \<open>
  C27: Parameter overrides do what the abstract update of a tree of paths does, whatever order Go iterates over the map
  of overrides in: the order decides neither whether there is an error nor what the configuration holds at any path
  afterwards. An override fails exactly when it would replace a value that is not a string, or pass through a value that is
  not an object; the code does not panic.
\<close>

theorem overrides_order_irrelevant:
  assumes "distinct (map fst os)" "mset os = mset os'"
  shows "case ApplyParameterOverrides os (Some m) of
      Ok r \<Rightarrow> (\<exists>m1 m2. r = Some m1 \<and> ApplyParameterOverrides os' (Some m) = Ok (Some m2) \<and> view m1 = view m2 \<and>
        fold set_opt (abs_overrides os) (Some (view m)) = Some (view m1))
    | Err e \<Rightarrow> (\<exists>e'. ApplyParameterOverrides os' (Some m) = Err e') \<and> fold set_opt (abs_overrides os) (Some (view m)) = None
    | Panic x \<Rightarrow> False"
  using ApplyParameterOverrides_refines [of os m] ApplyParameterOverrides_refines [of os' m] fold_set_opt_mset [OF assms, of "Some (view m)"]
  by (auto split: res.splits)

theorem overrides_order_irrelevant_witness:
  "\<exists>m1 m2. ApplyParameterOverrides [(''a.b'', ''x''), (''c'', ''y'')] (Some [(''c'', JStr ''z'')]) = Ok (Some m1) \<and>
     ApplyParameterOverrides [(''c'', ''y''), (''a.b'', ''x'')] (Some [(''c'', JStr ''z'')]) = Ok (Some m2) \<and>
     view m1 = view m2 \<and> view m1 [''a'', ''b''] = Some (CStr ''x'')"
  using overrides_order_irrelevant [of "[(''a.b'', ''x''), (''c'', ''y'')]" "[(''c'', ''y''), (''a.b'', ''x'')]" "[(''c'', JStr ''z'')]"]
  by (simp add: dotpath_set_def fieldsFromDotpath_def)

end
