(* ===== verification/PullConfig.thy ===== *)
theory PullConfig
  imports Util
begin

unbundle bit_operations_syntax

text \<open>
  The package \<open>pullman\<close>, its data: \<open>config.go\<close> (the configuration of a repository), \<open>types.go\<close> (a pull command) and
  \<open>helpers.go\<close> (opening a target file, and the hash that storage providers make their keys of).
\<close>

section \<open>config.go\<close>

record RepositoryConfig =
  config :: gomap
  storageType :: string

definition storageTypeKey :: string where
  "storageTypeKey = ''type''"

text \<open>\<open>None\<close> is the nil map.\<close>

definition NewRepositoryConfig :: "string \<Rightarrow> gomap option \<Rightarrow> RepositoryConfig" where
  "NewRepositoryConfig st c =
     (let m = (case c of None \<Rightarrow> [] | Some m \<Rightarrow> m)
      in \<lparr>config = AList.update storageTypeKey (JStr st) m, storageType = st\<rparr>)"

definition GetType :: "RepositoryConfig \<Rightarrow> string" where
  "GetType rc = storageType rc"

definition rc_Get :: "RepositoryConfig \<Rightarrow> string \<Rightarrow> json option" where
  "rc_Get rc key = map_of (config rc) key"

definition GetString :: "RepositoryConfig \<Rightarrow> string \<Rightarrow> string option" where
  "GetString rc key = (case rc_Get rc key of None \<Rightarrow> None | Some val \<Rightarrow> as_string val)"

definition rc_Set :: "string \<Rightarrow> json \<Rightarrow> RepositoryConfig \<Rightarrow> RepositoryConfig" where
  "rc_Set key val rc =
     (let rc1 = (if key = storageTypeKey
                 then (case as_string val of Some st \<Rightarrow> rc\<lparr>storageType := st\<rparr> | None \<Rightarrow> rc)
                 else rc)
      in rc1\<lparr>config := AList.update key val (config rc1)\<rparr>)"

definition MarshalJSON :: "ext \<Rightarrow> RepositoryConfig \<Rightarrow> string" where
  "MarshalJSON X rc = x_print X (JObj (config rc))"

definition UnmarshalJSON :: "ext \<Rightarrow> string \<Rightarrow> RepositoryConfig res" where
  "UnmarshalJSON X bs =
     (case unmarshal_map X bs of
        None \<Rightarrow> Err (ErrWrap ''error parsing config JSON: %w'' [] (ExtErr ''json''))
      | Some storageMap \<Rightarrow>
          (case map_of storageMap storageTypeKey of
             None \<Rightarrow> Err (ErrMsg ''storage config missing `%s` field'' [storageTypeKey])
           | Some v \<Rightarrow>
               (case as_string v of
                  None \<Rightarrow> Err (ErrMsg ''storage config field `%s` must have a string value'' [storageTypeKey])
                | Some st \<Rightarrow> Ok \<lparr>config = storageMap, storageType = st\<rparr>)))"

text \<open>
  The field \<open>storageType\<close> and the entry \<open>type\<close> agree: the entry is there, and is the type whenever it is a string.
  (\<open>Set\<close> can store a value that is not a string under \<open>type\<close>; the field then keeps the old type.)
\<close>

definition config_wf :: "RepositoryConfig \<Rightarrow> bool" where
  "config_wf rc \<longleftrightarrow> (\<exists>v. rc_Get rc storageTypeKey = Some v \<and> (\<forall>st. as_string v = Some st \<longrightarrow> st = GetType rc))"

text \<open>The JSON library reads back what it printed (for a value without duplicate keys).\<close>

definition json_reads_back :: "ext \<Rightarrow> bool" where
  "json_reads_back X \<longleftrightarrow> (\<forall>m. distinct (map fst m) \<longrightarrow> x_parse X (x_print X (JObj m)) = Some (JObj m))"

lemma GetString_update:
  "GetString \<lparr>config = AList.update k v m, storageType = t\<rparr> k' =
     (if k' = k then as_string v else GetString \<lparr>config = m, storageType = t\<rparr> k')"
  by (simp add: GetString_def rc_Get_def update_conv')

lemma config_wf_New: "config_wf (NewRepositoryConfig st c)"
  by (simp add: config_wf_def NewRepositoryConfig_def rc_Get_def GetType_def Let_def update_conv')

lemma config_wf_Set: "config_wf rc \<Longrightarrow> config_wf (rc_Set key val rc)"
  by (auto simp: config_wf_def rc_Set_def rc_Get_def GetType_def Let_def update_conv' split: option.splits)

lemma config_wf_Unmarshal: "UnmarshalJSON X bs = Ok rc \<Longrightarrow> config_wf rc"
  by (auto simp: UnmarshalJSON_def config_wf_def rc_Get_def GetType_def split: option.splits)

lemma last_wins_id: "distinct (map fst m) \<Longrightarrow> last_wins m = m"
  by (induction m rule: last_wins.induct) auto

text \<open>
  Whatever sequence of \<open>Set\<close> calls is made on a \<open>RepositoryConfig\<close> made by \<open>NewRepositoryConfig\<close> or read by
  \<open>UnmarshalJSON\<close>, \<open>GetType\<close> and the entry \<open>type\<close> agree: the entry is present, and \<open>GetString("type")\<close>, when it
  finds a string, finds the value of \<open>GetType\<close>. In particular the type that \<open>PullManager\<close> selects the
  provider by is the one the provider reads.
\<close>

lemma config_type_agrees:
  "config_wf (fold (\<lambda>(k, v) rc. rc_Set k v rc) sets (NewRepositoryConfig st c)) \<and>
   (case UnmarshalJSON X bs of
      Ok rc \<Rightarrow> config_wf (fold (\<lambda>(k, v) rc. rc_Set k v rc) sets rc)
    | Err e \<Rightarrow> unmarshal_map X bs = None \<or>
        (\<exists>m. unmarshal_map X bs = Some m \<and> as_string (gm_get m ''type'') = None)
    | Panic p \<Rightarrow> False)"
proof -
  have sets: "config_wf (fold (\<lambda>(k, v) rc. rc_Set k v rc) sets rc)" if "config_wf rc" for rc
    using that by (induction sets arbitrary: rc) (auto simp: config_wf_Set)
  have "case UnmarshalJSON X bs of
      Ok rc \<Rightarrow> config_wf rc
    | Err e \<Rightarrow> unmarshal_map X bs = None \<or>
        (\<exists>m. unmarshal_map X bs = Some m \<and> as_string (gm_get m ''type'') = None)
    | Panic p \<Rightarrow> False"
    using config_wf_Unmarshal [of X bs]
    by (auto simp: UnmarshalJSON_def gm_get_def storageTypeKey_def split: option.splits)
  then show ?thesis using sets config_wf_New by (cases "UnmarshalJSON X bs") simp_all
qed

section \<open>types.go\<close>

record Target =
  RemotePath :: string
  LocalPath :: string

record PullCommand =
  pc_RepositoryConfig :: RepositoryConfig
  Directory :: string
  Targets :: "Target list"

section \<open>helpers.go\<close>

text \<open>The file is open for writing and empty; the result stands for the open file.\<close>

definition OpenFile :: "string \<Rightarrow> (os, string) step" where
  "OpenFile path = andThen (attempt (os_Stat path)) (\<lambda>r.
     let create = andThen (wrapErr (ErrWrap ''os error creating file: %w'' []) (os_Create path)) (\<lambda>_. ret path)
     in case r of
       Ok info \<Rightarrow> if fi_dir info then fail_with (ErrMsg ''file already exists as a directory'' []) else create
     | Err err \<Rightarrow>
         if os_IsNotExist err
         then andThen (wrapErr (ErrWrap ''error creating directories: %w'' []) (os_MkdirAll (path_Dir path))) (\<lambda>_. create)
         else fail_with (ErrWrap ''error trying to stat local file: %w'' [] err)
     | Panic m \<Rightarrow> lift_res (Panic m))"

lemma keeps_attempt_files: "keeps P m \<Longrightarrow> P s \<Longrightarrow> P (snd (attempt m s))"
  using keeps_attempt by (rule keepsD)

text \<open>Opening a file below a directory, without links on the way, changes nothing outside of it.\<close>

lemma OpenFile_confined:
  assumes "no_links t0 p" "list_all plain_name p" "prefix root p" "p \<noteq> []"
  shows "keeps (\<lambda>s. confined root t0 (files s)) (OpenFile (path_str p))"
proof -
  let ?P = "\<lambda>s. confined root t0 (files s)"
  have stat: "keeps ?P (os_Stat (path_str p))" by (simp add: keeps_def)
  have create: "keeps ?P (os_Create (path_str p))"
    unfolding keeps_def os_Create_def using confined_WriteFile [of root t0 _ p] assms by simp
  obtain b x where p: "p = b @ [x]" using assms(4) by (metis rev_exhaust)
  then have c: "comps (path_Dir (path_str p)) = b" using assms(2) by (simp add: comps_path_Dir)
  have "prefix root b \<or> prefix b root" using assms(3) p by (auto simp: prefix_snoc)
  then have mkdir: "keeps ?P (os_MkdirAll (path_Dir (path_str p)))"
    unfolding keeps_def using confined_MkdirAll [of root t0 _ "path_Dir (path_str p)"] c assms(1,2) p no_links_appendD [of t0 b "[x]"]
    by (simp add: plain_no_dotdot)
  show ?thesis
    unfolding OpenFile_def Let_def
    by (rule keeps_andThen [OF keeps_attempt [OF stat]])
       (auto split: res.split intro!: keeps_intro create mkdir)
qed

lemma os_calls_not_panic:
  "os_Stat p s \<noteq> (Panic m, s')" "os_Create p s \<noteq> (Panic m, s')" "os_MkdirAll p s \<noteq> (Panic m, s')"
  by (simp_all add: os_defs syscall_not_panic)

lemma OpenFile_not_panic: "OpenFile p s \<noteq> (Panic m, s')"
  unfolding OpenFile_def
  by (auto simp: andThen_def attempt_def Let_def on_err_Panic_iff os_calls_not_panic
      split: prod.splits res.splits if_splits dest!: arg_cong [of _ _ fst])
    (metis os_calls_not_panic prod.collapse)+

text \<open>The 64-bit FNV-1a hash of \<open>hash/fnv\<close>, and \<open>%#x\<close>.\<close>

definition fnv_offset :: "64 word" where
  "fnv_offset = 14695981039346656037"

definition fnv_prime :: "64 word" where
  "fnv_prime = 1099511628211"

definition fnv_byte :: "char \<Rightarrow> 64 word \<Rightarrow> 64 word" where
  "fnv_byte c h = (h XOR of_char c) * fnv_prime"

definition fnv_write :: "string \<Rightarrow> 64 word \<Rightarrow> 64 word" where
  "fnv_write s h = fold fnv_byte s h"

definition hex_char :: "nat \<Rightarrow> char" where
  "hex_char n = char_of (if n < 10 then 48 + n else 87 + n)"

fun hex_digits :: "nat \<Rightarrow> string" where
  "hex_digits n = (if n < 16 then [hex_char n] else hex_digits (n div 16) @ [hex_char (n mod 16)])"

declare hex_digits.simps [simp del]

definition HashStrings :: "string list \<Rightarrow> string" where
  "HashStrings strs = ''0x'' @ hex_digits (unat (fold fnv_write strs fnv_offset))"

lemma fold_write_concat: "fold fnv_write strs h = fnv_write (concat strs) h"
  by (induction strs arbitrary: h) (simp_all add: fnv_write_def)

text \<open>Every byte step is a bijection on 64-bit words: the prime is odd, and this is its inverse.\<close>

definition fnv_inverse :: "64 word" where
  "fnv_inverse = 14886173955864302971"

lemma fnv_prime_inverse: "fnv_prime * fnv_inverse = 1"
  by (simp add: fnv_prime_def fnv_inverse_def)

lemma fnv_mult_cancel: "x * fnv_prime = y * fnv_prime \<Longrightarrow> x = y"
proof -
  assume "x * fnv_prime = y * fnv_prime"
  then have "x * (fnv_prime * fnv_inverse) = y * (fnv_prime * fnv_inverse)"
    by (simp only: mult.assoc [symmetric])
  then show "x = y" by (simp add: fnv_prime_inverse)
qed

lemma xor_cancel_right: "x XOR b = y XOR b \<Longrightarrow> x = (y :: 64 word)"
proof -
  assume "x XOR b = y XOR b"
  then have "(x XOR b) XOR b = (y XOR b) XOR b" by (rule arg_cong)
  then show "x = y" by (simp add: xor.assoc)
qed

lemma xor_cancel_left: "x XOR a = x XOR b \<Longrightarrow> a = (b :: 64 word)"
  by (rule xor_cancel_right [of a x b]) (simp add: xor.commute)

lemma fnv_byte_inj: "fnv_byte c x = fnv_byte c y \<Longrightarrow> x = y"
  unfolding fnv_byte_def by (blast dest: fnv_mult_cancel xor_cancel_right)

lemma fnv_write_inj: "fnv_write s x = fnv_write s y \<Longrightarrow> x = y"
  by (induction s arbitrary: x y) (auto simp: fnv_write_def dest: fnv_byte_inj)

lemma of_char_word_inj: "(of_char a :: 64 word) = of_char b \<Longrightarrow> a = b"
proof -
  assume "(of_char a :: 64 word) = of_char b"
  then have "(word_of_nat (of_char a) :: 64 word) = word_of_nat (of_char b)" by (simp only: of_nat_of_char)
  moreover have "(of_char c :: nat) < 2 ^ LENGTH(64)" for c
  proof -
    have "(of_char c :: nat) mod 256 < 256" by simp
    then have "(of_char c :: nat) < 256" by (simp only: of_char_mod_256)
    then show ?thesis by (rule less_le_trans) simp
  qed
  ultimately have "(of_char a :: nat) = of_char b" by (metis of_nat_inverse)
  then show "a = b" by simp
qed

lemma of_char_hex_char: "k < 16 \<Longrightarrow> (of_char (hex_char k) :: nat) = (if k < 10 then 48 + k else 87 + k)"
  by (simp add: hex_char_def)

lemma hex_char_inj: "n < 16 \<Longrightarrow> m < 16 \<Longrightarrow> hex_char n = hex_char m \<Longrightarrow> n = m"
proof -
  assume nm: "n < 16" "m < 16" "hex_char n = hex_char m"
  then have "(if n < 10 then 48 + n else 87 + n) = (if m < 10 then 48 + m else 87 + m)"
    using of_char_hex_char [OF nm(1)] of_char_hex_char [OF nm(2)] by (simp only:)
  then show "n = m" by (auto split: if_splits)
qed

lemma hex_digits_nonempty: "hex_digits n \<noteq> []"
  by (subst hex_digits.simps) simp

lemma hex_digits_small: "n < 16 \<Longrightarrow> hex_digits n = [hex_char n]"
  by (subst hex_digits.simps) simp

lemma hex_digits_big: "\<not> n < 16 \<Longrightarrow> hex_digits n = hex_digits (n div 16) @ [hex_char (n mod 16)]"
  by (subst hex_digits.simps) simp

lemma hex_digits_inj: "hex_digits n = hex_digits m \<Longrightarrow> n = m"
proof (induction n arbitrary: m rule: less_induct)
  case (less n)
  show ?case
  proof (cases "n < 16"; cases "m < 16")
    assume "n < 16" "m < 16"
    with less.prems show ?thesis by (auto simp: hex_digits_small dest: hex_char_inj)
  next
    assume "n < 16" "\<not> m < 16"
    with less.prems show ?thesis by (auto simp: hex_digits_small hex_digits_big hex_digits_nonempty hex_digits_nonempty [symmetric])
  next
    assume "\<not> n < 16" "m < 16"
    with less.prems show ?thesis by (auto simp: hex_digits_small hex_digits_big hex_digits_nonempty hex_digits_nonempty [symmetric])
  next
    assume big: "\<not> n < 16" "\<not> m < 16"
    with less.prems have eq: "hex_digits (n div 16) = hex_digits (m div 16)" "hex_char (n mod 16) = hex_char (m mod 16)"
      by (simp_all add: hex_digits_big)
    have "n div 16 < n" using big(1) by simp
    from less.IH [OF this eq(1)] have "n div 16 = m div 16" .
    moreover have "n mod 16 = m mod 16" by (rule hex_char_inj [OF _ _ eq(2)]) simp_all
    ultimately show ?thesis by (metis div_mult_mod_eq)
  qed
qed

text \<open>
  \<open>HashStrings\<close> depends on the concatenation of its arguments only, so two configurations whose fields have
  the same concatenation have the same key; and it tells apart any two argument lists whose
  concatenations differ in a single byte, since every step of FNV-1a is a bijection of the 64-bit state and
  the hexadecimal form is injective.
\<close>

lemma HashStrings_concat_and_byte:
  "HashStrings strs = HashStrings [concat strs] \<and>
   (HashStrings [p @ a # q] = HashStrings [p @ b # q] \<longleftrightarrow> a = b)"
proof -
  have "fnv_write (p @ x # q) fnv_offset = fnv_write q (fnv_byte x (fnv_write p fnv_offset))" for x
    by (simp add: fnv_write_def)
  moreover have "fnv_byte a h = fnv_byte b h \<Longrightarrow> a = b" for h
    unfolding fnv_byte_def by (blast dest: fnv_mult_cancel xor_cancel_left of_char_word_inj)
  ultimately have "fnv_write (p @ a # q) fnv_offset = fnv_write (p @ b # q) fnv_offset \<Longrightarrow> a = b"
    by (metis fnv_write_inj)
  then show ?thesis
    by (auto simp: HashStrings_def fold_write_concat dest!: hex_digits_inj dest: word_unat_eq_iff [THEN iffD2])
qed

end
