(* ===== verification/ClientCache.thy ===== *)
theory ClientCache
  imports PullConfig
begin

text \<open>
  \<open>pullman/cache.go\<close>: the cache of repository clients, and the background clean-up that runs beside it.

  Entries are shared by pointer between the map and the list that a running clean-up has collected without the
  lock, so the model has a heap of entries. Times are in nanoseconds; a function that reads the clock takes the time.
\<close>

section \<open>State and operations\<close>

record 'c cacheEntry =
  e_key :: string
  e_client :: 'c
  e_ttl :: int
  e_expiry :: int

text \<open>
  \<open>cache\<close> maps a key to the address of its entry in \<open>heap\<close>; \<open>to_check\<close> is the list \<open>entriesToCheck\<close> of the
  clean-up that is under way, \<open>None\<close> between two of them; \<open>ticking\<close> tells whether the background process was started.
\<close>

record 'c clientCache =
  heap :: "'c cacheEntry list"
  cache :: "string \<Rightarrow> nat option"
  cc_ttl :: int
  ticking :: bool
  to_check :: "nat list option"

definition resetExpiry :: "int \<Rightarrow> 'c cacheEntry \<Rightarrow> 'c cacheEntry" where
  "resetExpiry now ce = (if e_ttl ce > 0 then ce\<lparr>e_expiry := now + e_ttl ce\<rparr> else ce)"

definition isExpired :: "int \<Rightarrow> 'c cacheEntry \<Rightarrow> bool" where
  "isExpired now ce = (if e_ttl ce \<le> 0 then False else e_expiry ce < now)"

definition newClientCache :: "int \<Rightarrow> int \<Rightarrow> 'c clientCache" where
  "newClientCache ttl cleanupPeriod =
     \<lparr>heap = [], cache = Map.empty, cc_ttl = ttl, ticking = (cleanupPeriod > 0), to_check = None\<rparr>"

definition getEntry :: "string \<Rightarrow> 'c clientCache \<Rightarrow> nat option" where
  "getEntry key cc = cache cc key"

definition getClient :: "int \<Rightarrow> string \<Rightarrow> 'c clientCache \<Rightarrow> 'c option \<times> 'c clientCache" where
  "getClient now key cc =
     (case getEntry key cc of
        None \<Rightarrow> (None, cc)
      | Some a \<Rightarrow> let ce = resetExpiry now (heap cc ! a)
                  in (Some (e_client ce), cc\<lparr>heap := (heap cc)[a := ce]\<rparr>))"

definition setClient :: "int \<Rightarrow> string \<Rightarrow> 'c \<Rightarrow> 'c clientCache \<Rightarrow> 'c clientCache" where
  "setClient now key c cc =
     (case getEntry key cc of
        Some a \<Rightarrow> cc\<lparr>heap := (heap cc)[a := resetExpiry now ((heap cc ! a)\<lparr>e_client := c\<rparr>)]\<rparr>
      | None \<Rightarrow>
          let newEntry = resetExpiry now \<lparr>e_key = key, e_client = c, e_ttl = cc_ttl cc, e_expiry = 0\<rparr>
          in cc\<lparr>heap := heap cc @ [newEntry], cache := (cache cc)(key \<mapsto> length (heap cc))\<rparr>)"

text \<open>
  \<open>runCleanup\<close>, in the three parts that other operations can run between: its start, the check of one entry
  without the lock (any entry of the map, any number of times: iteration over a map that changes), and its end, with
  the lock from the second check to the last deletion.
\<close>

definition cleanup_begin :: "'c clientCache \<Rightarrow> 'c clientCache" where
  "cleanup_begin cc = (if ticking cc \<and> to_check cc = None then cc\<lparr>to_check := Some []\<rparr> else cc)"

definition cleanup_check :: "int \<Rightarrow> string \<Rightarrow> 'c clientCache \<Rightarrow> 'c clientCache" where
  "cleanup_check now key cc =
     (case (to_check cc, getEntry key cc) of
        (Some as, Some a) \<Rightarrow> if isExpired now (heap cc ! a) then cc\<lparr>to_check := Some (as @ [a])\<rparr> else cc
      | _ \<Rightarrow> cc)"

fun delete_expired :: "int \<Rightarrow> 'c cacheEntry list \<Rightarrow> nat list \<Rightarrow> (string \<Rightarrow> nat option) \<Rightarrow> (string \<Rightarrow> nat option)" where
  "delete_expired now h [] m = m"
| "delete_expired now h (a # as) m =
     delete_expired now h as (if isExpired now (h ! a) then m(e_key (h ! a) := None) else m)"

definition cleanup_end :: "int \<Rightarrow> 'c clientCache \<Rightarrow> 'c clientCache" where
  "cleanup_end now cc =
     (case to_check cc of
        None \<Rightarrow> cc
      | Some as \<Rightarrow> cc\<lparr>cache := delete_expired now (heap cc) as (cache cc), to_check := None\<rparr>)"

text \<open>What other goroutines do to the cache: steps of the background clean-up.\<close>

datatype tidy = TBegin | TCheck int string | TEnd int

fun tidy_step :: "tidy \<Rightarrow> 'c clientCache \<Rightarrow> 'c clientCache" where
  "tidy_step TBegin cc = cleanup_begin cc"
| "tidy_step (TCheck now key) cc = cleanup_check now key cc"
| "tidy_step (TEnd now) cc = cleanup_end now cc"

definition tidy_steps :: "tidy list \<Rightarrow> 'c clientCache \<Rightarrow> 'c clientCache" where
  "tidy_steps ts cc = fold tidy_step ts cc"

text \<open>A whole clean-up without interruption: every key is checked once.\<close>

definition runCleanup :: "int \<Rightarrow> string list \<Rightarrow> 'c clientCache \<Rightarrow> 'c clientCache" where
  "runCleanup now keys cc = tidy_steps (TBegin # map (TCheck now) keys @ [TEnd now]) cc"

section \<open>Invariant\<close>

text \<open>The entry of a key has that key and the cache's time to live, and a collected entry is still the entry of its key.\<close>

definition cache_inv :: "'c clientCache \<Rightarrow> bool" where
  "cache_inv cc \<longleftrightarrow>
     (\<forall>k a. cache cc k = Some a \<longrightarrow>
        a < length (heap cc) \<and> e_key (heap cc ! a) = k \<and> e_ttl (heap cc ! a) = cc_ttl cc) \<and>
     (\<forall>as. to_check cc = Some as \<longrightarrow> (\<forall>a \<in> set as. \<exists>k. cache cc k = Some a))"

text \<open>The abstract cache: the client held for a key.\<close>

definition held :: "'c clientCache \<Rightarrow> string \<Rightarrow> 'c option" where
  "held cc k = map_option (\<lambda>a. e_client (heap cc ! a)) (cache cc k)"

lemma cache_invD:
  assumes "cache_inv cc"
  shows "cache cc k = Some a \<Longrightarrow> a < length (heap cc)"
    and "cache cc k = Some a \<Longrightarrow> e_key (heap cc ! a) = k"
    and "to_check cc = Some as \<Longrightarrow> a \<in> set as \<Longrightarrow> cache cc (e_key (heap cc ! a)) = Some a"
    and "cache cc k = Some a \<Longrightarrow> cache cc k' = Some a \<Longrightarrow> k' = k"
    and "cache cc k = Some a \<Longrightarrow> e_ttl (heap cc ! a) = cc_ttl cc"
  using assms unfolding cache_inv_def by (blast, blast, metis, metis, blast)

lemma resetExpiry_fields [simp]:
  "e_key (resetExpiry now ce) = e_key ce" "e_client (resetExpiry now ce) = e_client ce" "e_ttl (resetExpiry now ce) = e_ttl ce"
  by (simp_all add: resetExpiry_def)

lemma delete_expired_lookup:
  "delete_expired now h as m k =
     (if \<exists>a \<in> set as. isExpired now (h ! a) \<and> e_key (h ! a) = k then None else m k)"
  by (induction now h as m rule: delete_expired.induct) auto

lemma inv_new: "cache_inv (newClientCache ttl p)"
  by (simp add: cache_inv_def newClientCache_def)

lemma cache_invI:
  assumes "\<And>k a. cache cc k = Some a \<Longrightarrow> a < length (heap cc) \<and> e_key (heap cc ! a) = k \<and> e_ttl (heap cc ! a) = cc_ttl cc"
    and "\<And>as a. to_check cc = Some as \<Longrightarrow> a \<in> set as \<Longrightarrow> \<exists>k. cache cc k = Some a"
  shows "cache_inv cc"
  using assms unfolding cache_inv_def by blast

lemma cache_inv_check: "cache_inv cc \<Longrightarrow> to_check cc = Some as \<Longrightarrow> a \<in> set as \<Longrightarrow> \<exists>k. cache cc k = Some a"
  unfolding cache_inv_def by blast

lemma inv_update_entry:
  assumes inv: "cache_inv cc" and a: "cache cc k = Some a" and ce: "e_key ce = k" "e_ttl ce = cc_ttl cc"
  shows "cache_inv (cc\<lparr>heap := (heap cc)[a := ce]\<rparr>)"
proof (rule cache_invI)
  fix k' a'
  assume "cache (cc\<lparr>heap := (heap cc)[a := ce]\<rparr>) k' = Some a'"
  then have c: "cache cc k' = Some a'" by simp
  note d = cache_invD(1,2,5) [OF inv c]
  have "k' = k" if "a' = a" using cache_invD(4) [OF inv a] c that by blast
  with d ce show "a' < length (heap (cc\<lparr>heap := (heap cc)[a := ce]\<rparr>)) \<and>
      e_key (heap (cc\<lparr>heap := (heap cc)[a := ce]\<rparr>) ! a') = k' \<and>
      e_ttl (heap (cc\<lparr>heap := (heap cc)[a := ce]\<rparr>) ! a') = cc_ttl (cc\<lparr>heap := (heap cc)[a := ce]\<rparr>)"
    by (cases "a' = a") simp_all
qed (use cache_inv_check [OF inv] in auto)

lemma inv_getClient:
  assumes "cache_inv cc"
  shows "cache_inv (snd (getClient now k cc))"
  using assms inv_update_entry [OF assms, of k] cache_invD [OF assms]
  by (auto simp: getClient_def getEntry_def Let_def split: option.splits)

lemma inv_setClient:
  assumes inv: "cache_inv cc"
  shows "cache_inv (setClient now k c cc)"
proof (cases "cache cc k")
  case (Some a)
  with inv_update_entry [OF inv this] cache_invD [OF inv] show ?thesis
    by (simp add: setClient_def getEntry_def)
next
  case None
  let ?e = "resetExpiry now \<lparr>e_key = k, e_client = c, e_ttl = cc_ttl cc, e_expiry = 0\<rparr>"
  have eq: "setClient now k c cc = cc\<lparr>heap := heap cc @ [?e], cache := (cache cc)(k \<mapsto> length (heap cc))\<rparr>"
    using None by (simp add: setClient_def getEntry_def Let_def)
  show ?thesis unfolding eq
  proof (rule cache_invI)
    fix k' a'
    let ?cc = "cc\<lparr>heap := heap cc @ [?e], cache := (cache cc)(k \<mapsto> length (heap cc))\<rparr>"
    assume c: "cache ?cc k' = Some a'"
    show "a' < length (heap ?cc) \<and> e_key (heap ?cc ! a') = k' \<and> e_ttl (heap ?cc ! a') = cc_ttl ?cc"
    proof (cases "k' = k")
      case True
      with c show ?thesis by auto
    next
      case False
      with c have "cache cc k' = Some a'" by simp
      from cache_invD(1,2,5) [OF inv this] show ?thesis by (simp add: nth_append)
    qed
  next
    fix as a
    assume "to_check (cc\<lparr>heap := heap cc @ [?e], cache := (cache cc)(k \<mapsto> length (heap cc))\<rparr>) = Some as" "a \<in> set as"
    then obtain k' where "cache cc k' = Some a" using cache_inv_check [OF inv] by auto
    with None have "((cache cc)(k \<mapsto> length (heap cc))) k' = Some a" by auto
    then show "\<exists>k'. cache (cc\<lparr>heap := heap cc @ [?e], cache := (cache cc)(k \<mapsto> length (heap cc))\<rparr>) k' = Some a"
      by (intro exI [of _ k']) simp
  qed
qed

lemma inv_tidy_step:
  assumes inv: "cache_inv cc"
  shows "cache_inv (tidy_step t cc)"
proof (cases t)
  case TBegin
  with inv show ?thesis by (simp add: cleanup_begin_def cache_inv_def)
next
  case (TCheck now key)
  show ?thesis
    unfolding TCheck tidy_step.simps cleanup_check_def getEntry_def
    using inv cache_invD(1,2,5) [OF inv] cache_inv_check [OF inv]
    by (auto split: option.splits intro!: cache_invI) blast
next
  case (TEnd now)
  show ?thesis
    unfolding TEnd tidy_step.simps cleanup_end_def
    using inv cache_invD [OF inv]
    by (auto simp: delete_expired_lookup split: option.splits if_splits intro!: cache_invI)
qed

lemma tidy_steps_simps [simp]:
  "tidy_steps [] cc = cc" "tidy_steps (t # ts) cc = tidy_steps ts (tidy_step t cc)"
  by (simp_all add: tidy_steps_def)

lemma inv_tidy_steps: "cache_inv cc \<Longrightarrow> cache_inv (tidy_steps ts cc)"
  by (induction ts arbitrary: cc) (simp_all add: inv_tidy_step)

section \<open>What the operations do to the clients held\<close>

lemma held_update_entry:
  assumes "cache_inv cc" "cache cc k = Some a"
  shows "held (cc\<lparr>heap := (heap cc)[a := ce]\<rparr>) = (held cc)(k \<mapsto> e_client ce)"
  using assms cache_invD(1,4) [OF assms(1)]
  by (fastforce simp: held_def fun_eq_iff nth_list_update option.map_comp intro!: option.map_cong)

lemma getClient_held: "cache_inv cc \<Longrightarrow> getClient now k cc = (r, cc') \<Longrightarrow> r = held cc k \<and> held cc' = held cc"
  by (auto simp: getClient_def getEntry_def Let_def held_update_entry split: option.splits)
     (auto simp: held_def fun_eq_iff)

lemma setClient_held: "cache_inv cc \<Longrightarrow> held (setClient now k c cc) = (held cc)(k \<mapsto> c)"
proof (cases "cache cc k")
  case (Some a)
  then show "cache_inv cc \<Longrightarrow> ?thesis" by (simp add: setClient_def getEntry_def held_update_entry)
next
  case None
  assume inv: "cache_inv cc"
  have "map_option (\<lambda>a. e_client ((heap cc @ [e]) ! a)) (cache cc k') = held cc k'" for k' e
    using cache_invD(1) [OF inv] by (cases "cache cc k'") (auto simp: held_def nth_append)
  with None show ?thesis by (auto simp: setClient_def getEntry_def Let_def held_def fun_eq_iff)
qed

lemma cleanup_end_held:
  assumes "cache_inv cc"
  shows "held (cleanup_end now cc) k =
    (if \<exists>as a. to_check cc = Some as \<and> a \<in> set as \<and> cache cc k = Some a \<and> isExpired now (heap cc ! a)
     then None else held cc k)"
proof (cases "to_check cc")
  case None
  then show ?thesis by (simp add: cleanup_end_def)
next
  case (Some as)
  then have "(\<exists>a \<in> set as. isExpired now (heap cc ! a) \<and> e_key (heap cc ! a) = k) \<longleftrightarrow>
      (\<exists>a \<in> set as. cache cc k = Some a \<and> isExpired now (heap cc ! a))"
    using cache_invD [OF assms] by blast
  with Some show ?thesis by (auto simp: cleanup_end_def held_def delete_expired_lookup)
qed

lemma tidy_step_held: "cache_inv cc \<Longrightarrow> held (tidy_step t cc) \<subseteq>\<^sub>m held cc"
proof (cases t)
  case (TEnd now)
  then show "cache_inv cc \<Longrightarrow> ?thesis" by (auto simp: map_le_def dom_def cleanup_end_held split: if_splits)
qed (auto simp: cleanup_begin_def cleanup_check_def held_def fun_eq_iff map_le_def split: option.splits)

lemma tidy_steps_held: "cache_inv cc \<Longrightarrow> held (tidy_steps ts cc) \<subseteq>\<^sub>m held cc"
  by (induction ts arbitrary: cc) (auto intro: map_le_trans tidy_step_held inv_tidy_step)

section \<open>The interface\<close>

text \<open>
  What \<open>PullManager\<close> relies on: a lookup gives the client held and changes none, storing a client makes it the one
  held, and what happens in the background only drops clients.
\<close>

locale client_store =
  fixes inv :: "'s \<Rightarrow> bool"
    and view :: "'s \<Rightarrow> string \<Rightarrow> 'c option"
    and get_client :: "int \<Rightarrow> string \<Rightarrow> 's \<Rightarrow> 'c option \<times> 's"
    and set_client :: "int \<Rightarrow> string \<Rightarrow> 'c \<Rightarrow> 's \<Rightarrow> 's"
    and background :: "'t list \<Rightarrow> 's \<Rightarrow> 's"
  assumes get_inv: "inv s \<Longrightarrow> inv (snd (get_client now k s))"
    and get_view: "inv s \<Longrightarrow> get_client now k s = (r, s') \<Longrightarrow> r = view s k \<and> view s' = view s"
    and set_inv: "inv s \<Longrightarrow> inv (set_client now k c s)"
    and set_view: "inv s \<Longrightarrow> view (set_client now k c s) = (view s)(k \<mapsto> c)"
    and background_inv: "inv s \<Longrightarrow> inv (background ts s)"
    and background_view: "inv s \<Longrightarrow> view (background ts s) \<subseteq>\<^sub>m view s"
begin

text \<open>A relation between keys and clients that holds of all the clients held.\<close>

definition all_held :: "(string \<Rightarrow> 'c \<Rightarrow> bool) \<Rightarrow> 's \<Rightarrow> bool" where
  "all_held R s \<longleftrightarrow> inv s \<and> (\<forall>k c. view s k = Some c \<longrightarrow> R k c)"

lemma get_all_held:
  assumes "all_held R s" "get_client now k s = (r, s')"
  shows "all_held R s'" and "r = Some c \<Longrightarrow> R k c"
proof -
  from assms(1) have "inv s" by (simp add: all_held_def)
  with get_inv [OF this, of now k] get_view [OF this assms(2)] assms
  show "all_held R s'" and "r = Some c \<Longrightarrow> R k c" by (auto simp: all_held_def)
qed

lemma set_all_held: "all_held R s \<Longrightarrow> R k c \<Longrightarrow> all_held R (set_client now k c s)"
  by (auto simp: all_held_def set_inv set_view)

lemma background_all_held: "all_held R s \<Longrightarrow> all_held R (background ts s)"
  unfolding all_held_def using background_inv background_view by (auto simp: map_le_def dom_def) (metis option.distinct(1))

text \<open>A lookup right after a store finds the client, whatever was held before.\<close>

lemma get_after_set: "inv s \<Longrightarrow> fst (get_client now' k (set_client now k c s)) = Some c"
  using get_view [OF set_inv, of s now' k now k c] set_view
  by (cases "get_client now' k (set_client now k c s)") auto

end

interpretation cc: client_store cache_inv held getClient setClient tidy_steps
  by unfold_locales
    (auto simp: inv_getClient inv_setClient inv_tidy_steps setClient_held tidy_steps_held dest: getClient_held)

section \<open>Reachable caches and expiry\<close>

inductive cache_reach :: "int \<Rightarrow> int \<Rightarrow> 'c clientCache \<Rightarrow> bool" for ttl period where
  reach_new: "cache_reach ttl period (newClientCache ttl period)"
| reach_get: "cache_reach ttl period cc \<Longrightarrow> cache_reach ttl period (snd (getClient now k cc))"
| reach_set: "cache_reach ttl period cc \<Longrightarrow> cache_reach ttl period (setClient now k c cc)"
| reach_tidy: "cache_reach ttl period cc \<Longrightarrow> cache_reach ttl period (tidy_step t cc)"

lemma getClient_params [simp]:
  "cc_ttl (snd (getClient now k cc)) = cc_ttl cc" "ticking (snd (getClient now k cc)) = ticking cc"
  "to_check (snd (getClient now k cc)) = to_check cc" "cache (snd (getClient now k cc)) = cache cc"
  by (simp_all add: getClient_def Let_def split: option.splits)

lemma setClient_params [simp]:
  "cc_ttl (setClient now k c cc) = cc_ttl cc" "ticking (setClient now k c cc) = ticking cc"
  "to_check (setClient now k c cc) = to_check cc"
  by (simp_all add: setClient_def Let_def split: option.splits)

lemma tidy_step_params [simp]:
  "cc_ttl (tidy_step t cc) = cc_ttl cc" "ticking (tidy_step t cc) = ticking cc" "heap (tidy_step t cc) = heap cc"
  by (cases t; simp add: cleanup_begin_def cleanup_check_def cleanup_end_def split: option.splits)+

lemma reach_inv: "cache_reach ttl period cc \<Longrightarrow> cache_inv cc \<and> cc_ttl cc = ttl \<and> ticking cc = (period > 0)"
  by (induction rule: cache_reach.induct)
     (simp_all add: inv_new inv_getClient inv_setClient inv_tidy_step, simp_all add: newClientCache_def)

text \<open>
  C20: The cache refines a map from keys to clients: in every reachable cache, \<open>getClient\<close> returns the client held and changes
  no client, \<open>setClient\<close> stores exactly one client (over an existing entry too), and the interleaved steps of the background
  clean-up never replace a client: they only drop some.
\<close>

theorem cache_refines_map:
  assumes "cache_reach ttl period cc"
  shows "fst (getClient now k cc) = held cc k \<and> held (snd (getClient now k cc)) = held cc \<and>
    held (setClient now k c cc) = (held cc)(k \<mapsto> c) \<and> held (tidy_steps ts cc) \<subseteq>\<^sub>m held cc"
proof -
  have inv: "cache_inv cc" using reach_inv [OF assms] by simp
  show ?thesis
    using getClient_held [OF inv, of now k "fst (getClient now k cc)" "snd (getClient now k cc)"]
      setClient_held [OF inv] tidy_steps_held [OF inv] by simp
qed

text \<open>An entry that is not expired at any of the clean-up's deletion times survives the clean-up.\<close>

fun end_times :: "tidy list \<Rightarrow> int list" where
  "end_times [] = []"
| "end_times (TEnd now # ts) = now # end_times ts"
| "end_times (t # ts) = end_times ts"

lemma tidy_step_keeps:
  assumes inv: "cache_inv cc" and c: "cache cc k = Some a" and t: "\<And>now. t = TEnd now \<Longrightarrow> \<not> isExpired now (heap cc ! a)"
  shows "cache (tidy_step t cc) k = Some a"
proof (cases t)
  case (TEnd now)
  have "\<not> isExpired now (heap cc ! b)" if "e_key (heap cc ! b) = k" "to_check cc = Some as" "b \<in> set as" for b as
    using cache_invD(3) [OF inv that(2,3)] that(1) c t [OF TEnd] by simp
  with TEnd c show ?thesis by (auto simp: cleanup_end_def delete_expired_lookup split: option.splits)
qed (use c in \<open>auto simp: cleanup_begin_def cleanup_check_def split: option.splits\<close>)

lemma tidy_steps_keep:
  assumes "cache_inv cc" "cache cc k = Some a" "\<And>now. now \<in> set (end_times ts) \<Longrightarrow> \<not> isExpired now (heap cc ! a)"
  shows "cache (tidy_steps ts cc) k = Some a \<and> heap (tidy_steps ts cc) = heap cc"
  using assms
proof (induction ts arbitrary: cc)
  case Nil
  then show ?case by simp
next
  case (Cons t ts)
  have "\<not> isExpired now (heap cc ! a)" if "now \<in> set (end_times ts)" for now
    using Cons.prems(3) that by (cases t) auto
  moreover have "cache (tidy_step t cc) k = Some a"
    using Cons.prems by (intro tidy_step_keeps) auto
  ultimately show ?case
    using Cons.IH [of "tidy_step t cc"] Cons.prems(1) by (simp add: inv_tidy_step)
qed

lemma entry_after_get:
  assumes "cache_inv cc" "cache cc k = Some a"
  shows "heap (snd (getClient now k cc)) ! a = resetExpiry now (heap cc ! a)"
  using assms cache_invD(1) [OF assms] by (simp add: getClient_def getEntry_def Let_def)

text \<open>The cache holds the client \<open>c\<close> for the key, and not to be expired up to the time \<open>now + ttl\<close>.\<close>

definition fresh_at :: "int \<Rightarrow> string \<Rightarrow> 'c \<Rightarrow> 'c clientCache \<Rightarrow> bool" where
  "fresh_at now k c cc \<longleftrightarrow> (\<exists>a. cache cc k = Some a \<and> e_client (heap cc ! a) = c \<and>
     (0 < cc_ttl cc \<longrightarrow> e_expiry (heap cc ! a) = now + cc_ttl cc))"

lemma fresh_after_get:
  assumes inv: "cache_inv cc" and g: "getClient now k cc = (Some c, cc')"
  shows "fresh_at now k c cc'"
proof -
  have "held cc k = Some c" using getClient_held [OF inv g] by simp
  then obtain a where a: "cache cc k = Some a" "e_client (heap cc ! a) = c" by (auto simp: held_def)
  have cc': "cc' = snd (getClient now k cc)" using g by simp
  show ?thesis
    unfolding cc' fresh_at_def using a entry_after_get [OF inv a(1), of now] cache_invD(5) [OF inv a(1)]
    by (simp add: resetExpiry_def)
qed

lemma fresh_after_set:
  assumes inv: "cache_inv cc"
  shows "fresh_at now k c (setClient now k c cc)"
proof (cases "cache cc k")
  case (Some a)
  with cache_invD(1,5) [OF inv Some] show ?thesis
    by (simp add: setClient_def getEntry_def fresh_at_def resetExpiry_def)
next
  case None
  then show ?thesis by (simp add: setClient_def getEntry_def Let_def fresh_at_def resetExpiry_def)
qed

lemma fresh_survives:
  assumes inv: "cache_inv cc" and f: "fresh_at now k c cc"
    and t: "cc_ttl cc \<le> 0 \<or> (\<forall>t \<in> set (end_times ts). t \<le> now + cc_ttl cc)"
  shows "held (tidy_steps ts cc) k = Some c"
proof -
  from f obtain a where a: "cache cc k = Some a" "e_client (heap cc ! a) = c"
    "0 < cc_ttl cc \<longrightarrow> e_expiry (heap cc ! a) = now + cc_ttl cc" by (auto simp: fresh_at_def)
  have "\<not> isExpired u (heap cc ! a)" if "u \<in> set (end_times ts)" for u
    using t that a(3) cache_invD(5) [OF inv a(1)] by (auto simp: isExpired_def)
  from tidy_steps_keep [OF inv a(1) this] a show ?thesis by (simp add: held_def)
qed

text \<open>
  C19: A client that was just used is not expired under the user's feet: if \<open>getClient\<close> found it at time \<open>now\<close>, then no
  interleaving of the background clean-up, also of one that had collected the entry before the lookup, drops it as long
  as the deletions happen no later than \<open>now + ttl\<close>; with a time to live of zero or less it is never dropped.
\<close>

theorem used_client_survives_cleanup:
  assumes "cache_reach ttl period cc" "fst (getClient now k cc) = Some c"
    "ttl \<le> 0 \<or> (\<forall>t \<in> set (end_times ts). t \<le> now + ttl)"
  shows "held (tidy_steps ts (snd (getClient now k cc))) k = Some c"
proof -
  have inv: "cache_inv cc" and ttl: "cc_ttl cc = ttl" using reach_inv [OF assms(1)] by auto
  have "getClient now k cc = (Some c, snd (getClient now k cc))" using assms(2) by (simp add: prod_eq_iff)
  from fresh_survives [OF inv_getClient [OF inv] fresh_after_get [OF inv this]] assms(3) ttl
  show ?thesis by simp
qed

definition demo_cache :: "nat clientCache" where
  "demo_cache = tidy_steps [TBegin, TCheck 200 ''a''] (setClient 0 ''a'' 7 (newClientCache 100 50))"

lemma demo_cache_reach: "cache_reach 100 50 demo_cache"
  unfolding demo_cache_def tidy_steps_simps by (intro cache_reach.intros)

theorem cache_refines_map_witness:
  "fst (getClient 1 ''a'' demo_cache) = held demo_cache ''a'' \<and> held demo_cache ''a'' = Some 7 \<and>
   held (tidy_steps [TEnd 300] demo_cache) \<subseteq>\<^sub>m held demo_cache"
  using cache_refines_map [OF demo_cache_reach, of 1 "''a''" 0 "[TEnd 300]"]
  by (simp add: demo_cache_def held_def setClient_def getEntry_def newClientCache_def cleanup_begin_def cleanup_check_def
      isExpired_def resetExpiry_def)

theorem used_client_survives_cleanup_witness:
  "held (tidy_steps [TEnd 260] (snd (getClient 210 ''a'' demo_cache))) ''a'' = Some 7 \<and>
   held (tidy_steps [TEnd 260] demo_cache) ''a'' = None"
  using used_client_survives_cleanup [OF demo_cache_reach, of 210 "''a''" 7 "[TEnd 260]"]
  by (simp add: demo_cache_def held_def setClient_def getClient_def getEntry_def newClientCache_def cleanup_begin_def cleanup_check_def
      cleanup_end_def isExpired_def resetExpiry_def)

end
