(* ===== verification/PullManager.thy ===== *)
theory PullManager
  imports ClientCache
begin

text \<open>
  \<open>pullman/pullman.go\<close>: the pull manager, which selects a storage provider by the type of a configuration and keeps one
  repository client per key.

  A provider is the pair of its two methods; \<open>'c\<close> is the type of its clients. A call runs under the manager's lock, so
  only the background clean-up of the cache runs beside it: its steps between the cache lookup and the cache
  update are an argument.
\<close>

record 'c provider =
  p_GetKey :: "RepositoryConfig \<Rightarrow> string"
  p_NewRepository :: "RepositoryConfig \<Rightarrow> 'c res"

type_synonym 'c registry = "string \<Rightarrow> 'c provider option"

record 'c PullManager =
  storageProviders :: "'c registry"
  clientCache :: "'c clientCache option"

definition RegisterProvider :: "string \<Rightarrow> 'c provider \<Rightarrow> 'c registry \<Rightarrow> 'c registry res" where
  "RegisterProvider providerType p reg =
     (if reg providerType \<noteq> None then Panic (''cannot register a second StorageProvider of type '' @ providerType)
      else Ok (reg(providerType \<mapsto> p)))"

text \<open>Durations in nanoseconds.\<close>

definition hour :: int where
  "hour = 3600000000000"

definition defaultCacheTTL :: int where
  "defaultCacheTTL = 1 * hour"

definition defaultCachePeriod :: int where
  "defaultCachePeriod = 4 * hour"

text \<open>An option of \<open>NewPullManager\<close> changes the manager under construction.\<close>

definition CacheOptions :: "int \<Rightarrow> int \<Rightarrow> 'c PullManager \<Rightarrow> 'c PullManager" where
  "CacheOptions ttl cleanupPeriod pm = pm\<lparr>clientCache := Some (newClientCache ttl cleanupPeriod)\<rparr>"

definition NewPullManager :: "'c registry \<Rightarrow> ('c PullManager \<Rightarrow> 'c PullManager) list \<Rightarrow> 'c PullManager" where
  "NewPullManager reg options =
     (let pm = fold (\<lambda>opt pm. opt pm) options \<lparr>storageProviders = reg, clientCache = None\<rparr>
      in if clientCache pm = None
         then pm\<lparr>clientCache := Some (newClientCache defaultCacheTTL defaultCachePeriod)\<rparr> else pm)"

definition cacheKey_of :: "string \<Rightarrow> string \<Rightarrow> string" where
  "cacheKey_of repoType k = repoType @ ''|'' @ k"

text \<open>
  \<open>getRepositoryClient\<close> at time \<open>now\<close>; \<open>mid\<close> are the clean-up's steps until the new client is stored at time \<open>now'\<close>.
\<close>

definition getRepositoryClient ::
  "int \<Rightarrow> tidy list \<Rightarrow> int \<Rightarrow> RepositoryConfig \<Rightarrow> ('c PullManager, 'c) step" where
  "getRepositoryClient now mid now' cfg p =
     (let repoType = GetType cfg
      in case storageProviders p repoType of
           None \<Rightarrow> (Err (ErrMsg ''no provider registered for repositories of type %s'' [repoType]), p)
         | Some provider \<Rightarrow>
             let cacheKey = cacheKey_of repoType (p_GetKey provider cfg)
             in case clientCache p of
                  None \<Rightarrow> (Panic ''nil pointer dereference'', p)
                | Some cc \<Rightarrow>
                    (case getClient now cacheKey cc of
                       (Some rc, cc1) \<Rightarrow> (Ok rc, p\<lparr>clientCache := Some cc1\<rparr>)
                     | (None, cc1) \<Rightarrow>
                         let cc2 = tidy_steps mid cc1
                         in case p_NewRepository provider cfg of
                              Err err \<Rightarrow> (Err (ErrWrap ''unable to create repository of type '%s': %w'' [repoType] err),
                                p\<lparr>clientCache := Some cc2\<rparr>)
                            | Panic m \<Rightarrow> (Panic m, p\<lparr>clientCache := Some cc2\<rparr>)
                            | Ok newClient \<Rightarrow> (Ok newClient, p\<lparr>clientCache := Some (setClient now' cacheKey newClient cc2)\<rparr>)))"

text \<open>\<open>Pull\<close>: the client's own pull, \<open>repo_Pull\<close>, works on the rest of the world.\<close>

definition PullManager_Pull ::
  "('c \<Rightarrow> PullCommand \<Rightarrow> ('w, unit) step) \<Rightarrow> int \<Rightarrow> tidy list \<Rightarrow> int \<Rightarrow> PullCommand \<Rightarrow>
     ('c PullManager \<times> 'w, unit) step" where
  "PullManager_Pull repo_Pull now mid now' pc = (\<lambda>(p, w).
     case getRepositoryClient now mid now' (pc_RepositoryConfig pc) p of
       (Err err, p') \<Rightarrow> (Err (ErrWrap ''could not process pull command: %w'' [] err), (p', w))
     | (Panic m, p') \<Rightarrow> (Panic m, (p', w))
     | (Ok repo, p') \<Rightarrow> (let (r, w') = repo_Pull repo pc w in (r, (p', w'))))"

section \<open>Which client a command gets\<close>

text \<open>
  What the manager may hold under a key: a client that the provider of the key's type made from a
  configuration with that type and that key.
\<close>

definition made_for :: "'c registry \<Rightarrow> string \<Rightarrow> 'c \<Rightarrow> bool" where
  "made_for reg k c \<longleftrightarrow> (\<exists>p cfg. reg (GetType cfg) = Some p \<and> k = cacheKey_of (GetType cfg) (p_GetKey p cfg) \<and>
     p_NewRepository p cfg = Ok c)"

definition pm_inv :: "'c registry \<Rightarrow> 'c PullManager \<Rightarrow> bool" where
  "pm_inv reg pm \<longleftrightarrow> storageProviders pm = reg \<and> (\<exists>cc. clientCache pm = Some cc \<and> cc.all_held (made_for reg) cc)"

lemma cacheKey_of_inj:
  "CHR ''|'' \<notin> set t \<Longrightarrow> CHR ''|'' \<notin> set t' \<Longrightarrow> cacheKey_of t k = cacheKey_of t' k' \<Longrightarrow> t = t' \<and> k = k'"
  unfolding cacheKey_of_def
proof (induction t arbitrary: t')
  case Nil
  then show ?case by (cases t') simp_all
next
  case (Cons x xs)
  show ?case
  proof (cases t')
    case Nil
    with Cons.prems show ?thesis by simp
  next
    case (Cons y ys)
    with Cons.prems Cons.IH [of ys] show ?thesis by simp
  qed
qed

lemma pm_inv_getRepositoryClient:
  assumes "pm_inv reg pm" "getRepositoryClient now mid now' cfg pm = (r, pm')"
  shows "pm_inv reg pm'"
    and "r = Ok c \<Longrightarrow> \<exists>p. reg (GetType cfg) = Some p \<and> made_for reg (cacheKey_of (GetType cfg) (p_GetKey p cfg)) c"
    and "\<not> (\<exists>m. r = Panic m \<and> reg (GetType cfg) = None)"
proof -
  obtain cc where cc: "clientCache pm = Some cc" "cc.all_held (made_for reg) cc" and reg: "storageProviders pm = reg"
    using assms(1) by (auto simp: pm_inv_def)
  have "pm_inv reg pm' \<and> (\<forall>c. r = Ok c \<longrightarrow> (\<exists>p. reg (GetType cfg) = Some p \<and>
      made_for reg (cacheKey_of (GetType cfg) (p_GetKey p cfg)) c)) \<and> \<not> (\<exists>m. r = Panic m \<and> reg (GetType cfg) = None)"
  proof (cases "reg (GetType cfg)")
    case None
    with assms reg show ?thesis by (auto simp: getRepositoryClient_def Let_def)
  next
    case (Some p)
    let ?k = "cacheKey_of (GetType cfg) (p_GetKey p cfg)"
    obtain q cc1 where g: "getClient now ?k cc = (q, cc1)" by fastforce
    note held = cc.get_all_held [OF cc(2) g]
    show ?thesis
    proof (cases q)
      case Some
      with held cc(1) \<open>reg (GetType cfg) = Some p\<close> reg g assms(2) show ?thesis
        by (auto simp: getRepositoryClient_def Let_def pm_inv_def)
    next
      case None
      note tidied = cc.background_all_held [OF held(1), of mid]
      show ?thesis
      proof (cases "p_NewRepository p cfg")
        case (Ok c)
        then have made: "made_for reg ?k c" using \<open>reg (GetType cfg) = Some p\<close> by (auto simp: made_for_def)
        with cc.set_all_held [OF tidied made, of now'] None Ok cc(1) \<open>reg (GetType cfg) = Some p\<close> reg g assms(2)
        show ?thesis by (auto simp: getRepositoryClient_def Let_def pm_inv_def)
      qed (use tidied None cc(1) \<open>reg (GetType cfg) = Some p\<close> reg g assms(2) in
           \<open>auto simp: getRepositoryClient_def Let_def pm_inv_def\<close>)
    qed
  qed
  then show "pm_inv reg pm'"
    and "r = Ok c \<Longrightarrow> \<exists>p. reg (GetType cfg) = Some p \<and> made_for reg (cacheKey_of (GetType cfg) (p_GetKey p cfg)) c"
    and "\<not> (\<exists>m. r = Panic m \<and> reg (GetType cfg) = None)" by auto
qed

text \<open>A history of the manager: calls, each with what the clean-up does in it and after it.\<close>

record pm_call =
  pc_now :: int
  pc_mid :: "tidy list"
  pc_now' :: int
  pc_cfg :: RepositoryConfig
  pc_after :: "tidy list"

definition pm_call_step :: "pm_call \<Rightarrow> 'c PullManager \<Rightarrow> 'c PullManager" where
  "pm_call_step c pm =
     (let pm' = snd (getRepositoryClient (pc_now c) (pc_mid c) (pc_now' c) (pc_cfg c) pm)
      in pm'\<lparr>clientCache := map_option (tidy_steps (pc_after c)) (clientCache pm')\<rparr>)"

definition pm_run :: "pm_call list \<Rightarrow> 'c PullManager \<Rightarrow> 'c PullManager" where
  "pm_run cs pm = fold pm_call_step cs pm"

lemma pm_inv_new: "pm_inv reg (NewPullManager reg [])"
  by (simp add: pm_inv_def NewPullManager_def cc.all_held_def inv_new)
     (simp add: held_def newClientCache_def)

lemma pm_inv_call: "pm_inv reg pm \<Longrightarrow> pm_inv reg (pm_call_step c pm)"
proof -
  assume inv: "pm_inv reg pm"
  let ?r = "getRepositoryClient (pc_now c) (pc_mid c) (pc_now' c) (pc_cfg c) pm"
  have "pm_inv reg (snd ?r)" by (rule pm_inv_getRepositoryClient(1) [OF inv, of _ _ _ _ "fst ?r" "snd ?r"]) simp
  then show ?thesis
    by (auto simp: pm_inv_def pm_call_step_def Let_def cc.background_all_held)
qed

lemma pm_inv_run: "pm_inv reg pm \<Longrightarrow> pm_inv reg (pm_run cs pm)"
  unfolding pm_run_def by (induction cs arbitrary: pm) (simp_all add: pm_inv_call)

text \<open>
  C18: A cached client is only ever reused for a configuration that its own configuration is interchangeable with: whatever calls and
  clean-ups came before, if \<open>getRepositoryClient\<close> returns a client for \<open>cfg\<close>, then the provider registered for
  \<open>cfg\<close>'s type made that client, from a configuration of the same type and with the same \<open>GetKey\<close>. (Provider
  types hold no \<open>|\<close>, as those that the repository registers.) A configuration of an unregistered type gets the
  error that names the type.
\<close>

theorem reused_client_has_equal_key:
  assumes "\<And>t. reg t \<noteq> None \<Longrightarrow> CHR ''|'' \<notin> set t"
    and "getRepositoryClient now mid now' cfg (pm_run history (NewPullManager reg [])) = (r, pm')"
  shows "case r of
      Ok c \<Rightarrow> (\<exists>p cfg0. reg (GetType cfg) = Some p \<and> GetType cfg0 = GetType cfg \<and>
        p_GetKey p cfg0 = p_GetKey p cfg \<and> p_NewRepository p cfg0 = Ok c)
    | Err e \<Rightarrow> reg (GetType cfg) = None \<longrightarrow>
        e = ErrMsg ''no provider registered for repositories of type %s'' [GetType cfg]
    | Panic m \<Rightarrow> reg (GetType cfg) \<noteq> None"
proof -
  let ?pm = "pm_run history (NewPullManager reg [])"
  have inv: "pm_inv reg ?pm" by (rule pm_inv_run [OF pm_inv_new])
  note facts = pm_inv_getRepositoryClient [OF inv assms(2)]
  show ?thesis
  proof (cases r)
    case (Ok c)
    from facts(2) [OF Ok] obtain p q cfg0 where p: "reg (GetType cfg) = Some p" "reg (GetType cfg0) = Some q"
      "cacheKey_of (GetType cfg) (p_GetKey p cfg) = cacheKey_of (GetType cfg0) (p_GetKey q cfg0)" "p_NewRepository q cfg0 = Ok c"
      by (auto simp: made_for_def)
    then have "GetType cfg = GetType cfg0 \<and> p_GetKey p cfg = p_GetKey q cfg0"
      using assms(1) [of "GetType cfg"] assms(1) [of "GetType cfg0"] by (intro cacheKey_of_inj) auto
    with p Ok show ?thesis by auto
  next
    case (Err e)
    with assms(2) inv show ?thesis by (auto simp: getRepositoryClient_def Let_def pm_inv_def)
  next
    case (Panic m)
    with facts(3) show ?thesis by auto
  qed
qed

text \<open>The caches that the manager goes through are reachable ones, with the default time to live.\<close>

lemma tidy_steps_params [simp]: "cc_ttl (tidy_steps ts cc) = cc_ttl cc"
  by (induction ts arbitrary: cc) simp_all

lemma getRepositoryClient_fresh:
  assumes "pm_inv reg pm" "clientCache pm = Some cc0" "reg (GetType cfg) = Some p"
    and "getRepositoryClient now mid now' cfg pm = (Ok c, pm1)"
  shows "\<exists>cc t. clientCache pm1 = Some cc \<and> cache_inv cc \<and> cc_ttl cc = cc_ttl cc0 \<and> t \<in> {now, now'} \<and>
    fresh_at t (cacheKey_of (GetType cfg) (p_GetKey p cfg)) c cc"
proof -
  let ?k = "cacheKey_of (GetType cfg) (p_GetKey p cfg)"
  have inv: "cache_inv cc0" and reg: "storageProviders pm = reg" using assms(1,2) by (auto simp: pm_inv_def cc.all_held_def)
  obtain q cc1 where g: "getClient now ?k cc0 = (q, cc1)" by fastforce
  have cc1: "cache_inv cc1" "cc_ttl cc1 = cc_ttl cc0"
    using inv_getClient [OF inv, of now ?k] getClient_params(1) [of now ?k cc0] g by simp_all
  show ?thesis
  proof (cases q)
    case (Some rc)
    with assms(2-4) reg g have "c = rc" "clientCache pm1 = Some cc1" by (auto simp: getRepositoryClient_def Let_def)
    with fresh_after_get [OF inv] g Some cc1 show ?thesis by blast
  next
    case None
    with assms(2-4) reg g have "clientCache pm1 = Some (setClient now' ?k c (tidy_steps mid cc1))"
      by (auto simp: getRepositoryClient_def Let_def split: res.splits)
    with fresh_after_set [OF inv_tidy_steps [OF cc1(1)]] inv_setClient [OF inv_tidy_steps [OF cc1(1)]] cc1(2)
    show ?thesis by (metis insertCI setClient_params(1) tidy_steps_params)
  qed
qed

lemma pm_run_ttl:
  assumes "pm_inv reg pm" "clientCache pm = Some cc"
  shows "\<exists>cc'. clientCache (pm_run cs pm) = Some cc' \<and> cc_ttl cc' = cc_ttl cc"
  using assms
proof (induction cs arbitrary: pm cc)
  case Nil
  then show ?case by (simp add: pm_run_def)
next
  case (Cons c cs)
  have "\<exists>cc1. clientCache (pm_call_step c pm) = Some cc1 \<and> cc_ttl cc1 = cc_ttl cc"
    using Cons.prems
    by (auto simp: pm_call_step_def getRepositoryClient_def Let_def pm_inv_def split: option.splits res.splits prod.splits)
      (metis fst_conv getClient_params(1) snd_conv)+
  then obtain cc1 where cc1: "clientCache (pm_call_step c pm) = Some cc1" "cc_ttl cc1 = cc_ttl cc" by blast
  from Cons.IH [OF pm_inv_call [OF Cons.prems(1)] cc1(1)] cc1(2) show ?case by (simp add: pm_run_def)
qed

text \<open>
  One client serves all configurations that share a key: after \<open>getRepositoryClient\<close> returned \<open>c\<close> for a
  configuration, a call with any configuration of that type and key returns the same \<open>c\<close> (no new repository is
  made, even if the provider would now refuse), when the clean-up's deletions in between come no later than the
  default time to live of one hour after the first call.
\<close>

lemma equal_key_reuses_client:
  assumes "reg (GetType cfg) = Some p" "GetType cfg2 = GetType cfg" "p_GetKey p cfg2 = p_GetKey p cfg"
    and "getRepositoryClient now mid now' cfg (pm_run history (NewPullManager reg [])) = (Ok c, pm1)"
    and "now \<le> now'" "\<forall>t \<in> set (end_times ts). t \<le> now + defaultCacheTTL"
  shows "fst (getRepositoryClient now2 mid2 now2' cfg2 (pm1\<lparr>clientCache := map_option (tidy_steps ts) (clientCache pm1)\<rparr>)) = Ok c"
proof -
  let ?pm = "pm_run history (NewPullManager reg [])"
  let ?k = "cacheKey_of (GetType cfg) (p_GetKey p cfg)"
  have inv: "pm_inv reg ?pm" by (rule pm_inv_run [OF pm_inv_new])
  have "\<exists>cc. clientCache (NewPullManager reg []) = Some cc \<and> cc_ttl cc = defaultCacheTTL"
    by (simp add: NewPullManager_def newClientCache_def)
  with pm_run_ttl [OF pm_inv_new] obtain cc0 where cc0: "clientCache ?pm = Some cc0" "cc_ttl cc0 = defaultCacheTTL"
    by metis
  from getRepositoryClient_fresh [OF inv cc0(1) assms(1,4)] cc0(2) obtain cc t where
    cc: "clientCache pm1 = Some cc" "cache_inv cc" "cc_ttl cc = defaultCacheTTL" "t \<in> {now, now'}" "fresh_at t ?k c cc"
    by auto
  from assms(5,6) cc(4) have "\<forall>u \<in> set (end_times ts). u \<le> t + cc_ttl cc" unfolding cc(3) by fastforce
  with fresh_survives [OF cc(2,5)] have h: "held (tidy_steps ts cc) ?k = Some c" by blast
  obtain q cc2 where g: "getClient now2 ?k (tidy_steps ts cc) = (q, cc2)" by fastforce
  have "q = Some c" using getClient_held [OF inv_tidy_steps [OF cc(2)] g] h by simp
  moreover have "storageProviders pm1 = reg"
    using pm_inv_getRepositoryClient(1) [OF inv assms(4)] by (simp add: pm_inv_def)
  ultimately show ?thesis using g cc(1) assms(1-3) by (simp add: getRepositoryClient_def Let_def)
qed

text \<open>A registry with one provider, whose clients are the value of the entry \<open>k\<close>.\<close>

definition demo_registry :: "string registry" where
  "demo_registry = [''s3'' \<mapsto> \<lparr>p_GetKey = (\<lambda>c. case GetString c ''k'' of Some s \<Rightarrow> s | None \<Rightarrow> []),
     p_NewRepository = (\<lambda>c. case GetString c ''v'' of Some s \<Rightarrow> Ok s | None \<Rightarrow> Err (ErrMsg ''no v'' []))\<rparr>]"

definition demo_config :: "string \<Rightarrow> RepositoryConfig" where
  "demo_config v = NewRepositoryConfig ''s3'' (Some [(''k'', JStr ''key''), (''v'', JStr v)])"

definition demo_history :: "pm_call list" where
  "demo_history = [\<lparr>pc_now = 10, pc_mid = [], pc_now' = 20, pc_cfg = demo_config ''first'', pc_after = [TBegin]\<rparr>]"

lemmas demo_defs = Let_def demo_registry_def demo_config_def demo_history_def pm_run_def pm_call_step_def NewPullManager_def
  getRepositoryClient_def GetType_def NewRepositoryConfig_def GetString_def rc_Get_def getClient_def setClient_def
  getEntry_def newClientCache_def cleanup_begin_def cleanup_check_def cleanup_end_def resetExpiry_def isExpired_def
  storageTypeKey_def cacheKey_of_def defaultCacheTTL_def defaultCachePeriod_def hour_def

theorem reused_client_has_equal_key_witness:
  "fst (getRepositoryClient 30 [] 40 (demo_config ''second'') (pm_run demo_history (NewPullManager demo_registry []))) = Ok ''first'' \<and>
   (\<exists>p cfg0. demo_registry ''s3'' = Some p \<and> p_GetKey p cfg0 = p_GetKey p (demo_config ''second'') \<and>
      p_NewRepository p cfg0 = Ok ''first'')"
proof -
  have "fst (getRepositoryClient 30 [] 40 (demo_config ''second'') (pm_run demo_history (NewPullManager demo_registry []))) = Ok ''first''"
    by (simp add: demo_defs)
  moreover have "CHR ''|'' \<notin> set t" if "demo_registry t \<noteq> None" for t
    using that by (auto simp: demo_registry_def split: if_splits)
  ultimately show ?thesis
    using reused_client_has_equal_key [of demo_registry 30 "[]" 40 "demo_config ''second''" demo_history "Ok ''first''"
      "snd (getRepositoryClient 30 [] 40 (demo_config ''second'') (pm_run demo_history (NewPullManager demo_registry [])))"]
    by (auto simp: prod_eq_iff) (auto simp: demo_config_def NewRepositoryConfig_def GetType_def)
qed

lemma equal_key_reuses_client_example:
  "fst (getRepositoryClient 9 [] 9 (demo_config ''second'')
     ((snd (getRepositoryClient 1 [] 2 (demo_config ''first'') (NewPullManager demo_registry [])))
        \<lparr>clientCache := map_option (tidy_steps [TBegin, TCheck 3 ''s3|key'', TEnd 4])
           (clientCache (snd (getRepositoryClient 1 [] 2 (demo_config ''first'') (NewPullManager demo_registry []))))\<rparr>)) = Ok ''first''"
proof -
  have 1: "getRepositoryClient 1 [] 2 (demo_config ''first'') (pm_run [] (NewPullManager demo_registry [])) =
      (Ok ''first'', snd (getRepositoryClient 1 [] 2 (demo_config ''first'') (NewPullManager demo_registry [])))"
    by (simp add: demo_defs)
  have 2: "demo_registry (GetType (demo_config ''first'')) = Some (the (demo_registry ''s3''))"
    by (simp add: demo_defs)
  have 3: "p_GetKey (the (demo_registry ''s3'')) (demo_config ''second'') = p_GetKey (the (demo_registry ''s3'')) (demo_config ''first'')"
    by (simp add: demo_defs)
  show ?thesis
    by (rule equal_key_reuses_client [OF 2 _ 3 1]) (simp_all add: demo_config_def NewRepositoryConfig_def GetType_def defaultCacheTTL_def hour_def)
qed

end
