(* ===== verification/ObjectStores.thy ===== *)
theory ObjectStores
  imports PullManager
begin

text \<open>
  The storage providers for object stores: \<open>pullman/storageproviders/s3\<close>, \<open>azure\<close> and \<open>gcs\<close>, each with its
  configuration (\<open>GetKey\<close>, \<open>NewRepository\<close>), its listing of objects and its \<open>Pull\<close>. The concurrent download of
  \<open>gcs\<close> is in \<open>GcsBatch\<close>.

  The SDKs are a parameter: what a listing or a download of an object gives is a function of the connection and the
  names. A download gives the bytes that were written and the error, if any, that ended it.
\<close>

section \<open>The SDKs\<close>

record obj =
  o_name :: string
  o_size :: int

record s3_conn =
  s3_accessKeyID :: string
  s3_secretAccessKey :: string
  s3_endpoint :: string
  s3_region :: string
  s3_certificate :: string

datatype az_conn =
    AzNoCredential string
  | AzConnectionString string string
  | AzServicePrincipal string string string string

text \<open>The credentials as a JSON map, \<open>None\<close> without authentication.\<close>

type_synonym gcs_conn = "(string \<times> string) list option"

text \<open>
  The pages of a listing come with the error that ended it; the pager of azure can be nil, and can hold an error before
  the first page.
\<close>

record sdk =
  sdk_s3_session :: "string \<Rightarrow> goerr option"
  sdk_s3_pages :: "s3_conn \<Rightarrow> string \<Rightarrow> string \<Rightarrow> obj list list \<times> goerr option"
  sdk_s3_object :: "s3_conn \<Rightarrow> string \<Rightarrow> string \<Rightarrow> string \<times> goerr option"
  sdk_az_credential :: "string \<Rightarrow> string \<Rightarrow> string \<Rightarrow> goerr option"
  sdk_az_container :: "az_conn \<Rightarrow> goerr option"
  sdk_az_pages :: "az_conn \<Rightarrow> string \<Rightarrow> (goerr option \<times> obj list list \<times> goerr option) option"
  sdk_az_blob :: "az_conn \<Rightarrow> string \<Rightarrow> string \<times> goerr option"
  sdk_gcs_client :: "gcs_conn \<Rightarrow> goerr option"
  sdk_gcs_iter :: "gcs_conn \<Rightarrow> string \<Rightarrow> string \<Rightarrow> obj list \<times> goerr option"
  sdk_gcs_reader :: "gcs_conn \<Rightarrow> string \<Rightarrow> string \<Rightarrow> (string \<times> goerr option) res"

text \<open>A missing string is the empty one, as in \<open>s, _ := GetString(...)\<close>.\<close>

definition GetString0 :: "RepositoryConfig \<Rightarrow> string \<Rightarrow> string" where
  "GetString0 c k = (case GetString c k of Some s \<Rightarrow> s | None \<Rightarrow> [])"

definition require_string :: "RepositoryConfig \<Rightarrow> string \<Rightarrow> string res" where
  "require_string c k = (case GetString c k of
     Some s \<Rightarrow> Ok s
   | None \<Rightarrow> Err (ErrMsg ''missing required string configuration '%s' '' [k]))"

text \<open>Bytes written to an open file from its start.\<close>

definition fd_write :: "string \<Rightarrow> string \<Rightarrow> (os, unit) step" where
  "fd_write p c = syscall p (\<lambda>t. case lookup t True p of
     Inl e \<Rightarrow> Inl e
   | Inr (q, File m old) \<Rightarrow> Inr ((), put q (File m (c @ drop (length c) old)) t)
   | Inr (q, n) \<Rightarrow> Inl EISDIR)"

section \<open>The targets of a pull\<close>

text \<open>
  The local name for an object: what is left of its path after the requested one, in the local directory; an object
  that is the requested path itself may be renamed by a local path that does not end with a slash.
\<close>

definition local_name :: "Target \<Rightarrow> string \<Rightarrow> string \<times> string" where
  "local_name pt objPath =
     (let localPath = LocalPath pt;
          relativePath = trim_prefix objPath (RemotePath pt)
      in if relativePath = []
         then if localPath \<noteq> [] \<and> \<not> has_suffix localPath [slash]
              then (path_Dir localPath, path_Base localPath)
              else (localPath, path_Base objPath)
         else (localPath, relativePath))"

fun resolve_objects :: "ext \<Rightarrow> string \<Rightarrow> Target \<Rightarrow> string list \<Rightarrow> (os, Target list) step" where
  "resolve_objects X destDir pt [] = ret []"
| "resolve_objects X destDir pt (objPath # objs) =
     (let (localPath, relativePath) = local_name pt objPath
      in andThen (wrapErr (ErrWrap ''error joining filepaths '%s' and '%s': %w'' [LocalPath pt, relativePath])
            (SecureJoin X [destDir, localPath, relativePath])) (\<lambda>filePath.
         andThen (resolve_objects X destDir pt objs) (\<lambda>rest.
         ret (\<lparr>RemotePath = objPath, LocalPath = filePath\<rparr> # rest))))"

fun resolve_targets ::
  "ext \<Rightarrow> string \<Rightarrow> (string \<Rightarrow> string list res) \<Rightarrow> (goerr \<Rightarrow> goerr) \<Rightarrow> Target list \<Rightarrow> (os, Target list) step" where
  "resolve_targets X destDir listObjects wrap [] = ret []"
| "resolve_targets X destDir listObjects wrap (pt # targets) =
     andThen (wrapErr wrap (lift_res (listObjects (RemotePath pt)))) (\<lambda>objPaths.
     andThen (resolve_objects X destDir pt objPaths) (\<lambda>ts.
     andThen (resolve_targets X destDir listObjects wrap targets) (\<lambda>rest.
     ret (ts @ rest))))"

section \<open>s3\<close>

definition s3_GetKey :: "RepositoryConfig \<Rightarrow> string" where
  "s3_GetKey c =
     (let accessKeyID = GetString0 c ''access_key_id'';
          secretAccessKey = GetString0 c ''secret_access_key'';
          endpoint = GetString0 c ''endpoint_url'';
          region = GetString0 c ''region'';
          certificate = GetString0 c ''certificate''
      in HashStrings [endpoint, region, accessKeyID, secretAccessKey, certificate])"

definition s3_newDownloader :: "sdk \<Rightarrow> string \<Rightarrow> string \<Rightarrow> string \<Rightarrow> string \<Rightarrow> string \<Rightarrow> s3_conn res" where
  "s3_newDownloader S accessKeyID secretAccessKey endpoint region certificate =
     (case sdk_s3_session S certificate of
        Some e \<Rightarrow> Panic ''session.Must''
      | None \<Rightarrow> Ok \<lparr>s3_accessKeyID = accessKeyID, s3_secretAccessKey = secretAccessKey, s3_endpoint = endpoint,
          s3_region = region, s3_certificate = certificate\<rparr>)"

definition s3_NewRepository :: "sdk \<Rightarrow> RepositoryConfig \<Rightarrow> s3_conn res" where
  "s3_NewRepository S c =
     res_bind (require_string c ''access_key_id'') (\<lambda>accessKeyID.
     res_bind (require_string c ''secret_access_key'') (\<lambda>secretAccessKey.
     res_bind (require_string c ''endpoint_url'') (\<lambda>endpoint.
     res_bind (require_string c ''region'') (\<lambda>region.
     let certificate = GetString0 c ''certificate''
     in s3_newDownloader S accessKeyID secretAccessKey endpoint region certificate))))"

definition s3_shouldIgnoreObject :: "obj \<Rightarrow> string \<Rightarrow> bool" where
  "s3_shouldIgnoreObject ob pre =
     (if o_size ob = 0 then True
      else if has_suffix (o_name ob) [slash] then True
      else if \<not> has_suffix pre [slash] \<and> \<not> has_prefix (o_name ob) (pre @ [slash]) \<and> o_name ob \<noteq> pre then True
      else False)"

text \<open>
  \<open>ListObjectsV2Pages\<close> of the SDK: pages are fetched as long as the callback returns true; the callback is told whether the
  page is the last one.
\<close>

fun ListObjectsV2Pages :: "('a \<Rightarrow> obj list \<Rightarrow> bool \<Rightarrow> 'a \<times> bool) \<Rightarrow> 'a \<Rightarrow> obj list list \<Rightarrow> goerr option \<Rightarrow> 'a \<times> goerr option" where
  "ListObjectsV2Pages f acc [] err = (acc, err)"
| "ListObjectsV2Pages f acc (page # pages) err =
     (let lastPage = (pages = [] \<and> err = None);
          (acc', more) = f acc page lastPage
      in if more then ListObjectsV2Pages f acc' pages err else (acc', None))"

definition s3_listObjects :: "sdk \<Rightarrow> s3_conn \<Rightarrow> string \<Rightarrow> string \<Rightarrow> string list res" where
  "s3_listObjects S d bucket pre =
     (let (pages, e) = sdk_s3_pages S d bucket pre;
          callback = (\<lambda>objectPaths page lastPage.
            (objectPaths @ map o_name (filter (\<lambda>ob. \<not> s3_shouldIgnoreObject ob pre) page), lastPage));
          (objectPaths, err) = ListObjectsV2Pages callback [] pages e
      in case err of Some e \<Rightarrow> Err e | None \<Rightarrow> Ok objectPaths)"

fun open_all :: "Target list \<Rightarrow> (os, unit) step" where
  "open_all [] = ret ()"
| "open_all (target # targets) =
     andThen (wrapErr (ErrWrap ''unable to open local file '%s' for writing: %w'' [LocalPath target]) (OpenFile (LocalPath target)))
       (\<lambda>_. open_all targets)"

text \<open>\<open>DownloadWithIterator\<close> of the SDK goes on after an error and reports one batch error; \<open>ok\<close> is whether there was none.\<close>

fun DownloadWithIterator :: "(string \<Rightarrow> string \<times> goerr option) \<Rightarrow> bool \<Rightarrow> Target list \<Rightarrow> (os, unit) step" where
  "DownloadWithIterator object ok [] = (if ok then ret () else fail_with (ExtErr ''BatchedDownloadIncomplete''))"
| "DownloadWithIterator object ok (target # targets) =
     (let (content, err) = object (RemotePath target)
      in andThen (attempt (fd_write (LocalPath target) content)) (\<lambda>r.
         DownloadWithIterator object (ok \<and> err = None \<and> is_ok r) targets))"

definition s3_downloadBatch :: "sdk \<Rightarrow> s3_conn \<Rightarrow> string \<Rightarrow> Target list \<Rightarrow> (os, unit) step" where
  "s3_downloadBatch S d bucket targets =
     andThen (open_all targets) (\<lambda>_.
       if targets = [] then ret ()
       else wrapErr (ErrWrap ''unable to download objects in bucket '%s': %w'' [bucket])
              (DownloadWithIterator (sdk_s3_object S d bucket) True targets))"

definition s3_Pull :: "sdk \<Rightarrow> ext \<Rightarrow> s3_conn \<Rightarrow> PullCommand \<Rightarrow> (os, unit) step" where
  "s3_Pull S X r pc =
     (let destDir = Directory pc; targets = Targets pc
      in case GetString (pc_RepositoryConfig pc) ''bucket'' of
           None \<Rightarrow> fail_with (ErrMsg ''required configuration 'bucket' missing from command'' [])
         | Some bucket \<Rightarrow>
             andThen (resolve_targets X destDir (s3_listObjects S r bucket)
                 (ErrWrap ''unable to list objects in bucket '%s': %w'' [bucket]) targets) (\<lambda>resolvedTargets.
             wrapErr (ErrWrap ''unable to download objects in bucket '%s': %w'' [bucket])
               (s3_downloadBatch S r bucket resolvedTargets)))"

section \<open>azure\<close>

definition azure_GetKey :: "RepositoryConfig \<Rightarrow> string" where
  "azure_GetKey c =
     (let clientId = GetString0 c ''client_id'';
          clientSecret = GetString0 c ''client_secret'';
          tenantId = GetString0 c ''tenant_id'';
          connectionString = GetString0 c ''connection_string'';
          accountName = GetString0 c ''account_name'';
          container = GetString0 c ''container''
      in HashStrings [clientId, clientSecret, tenantId, connectionString, accountName, container])"

definition azureBlobStorageURL :: string where
  "azureBlobStorageURL = ''.blob.core.windows.net/''"

definition az_newDownloaderWithNoCredential :: "sdk \<Rightarrow> string \<Rightarrow> az_conn res" where
  "az_newDownloaderWithNoCredential S containerUrl =
     (let conn = AzNoCredential containerUrl
      in case sdk_az_container S conn of Some e \<Rightarrow> Err e | None \<Rightarrow> Ok conn)"

definition az_newDownloaderWithConnectionString :: "sdk \<Rightarrow> string \<Rightarrow> string \<Rightarrow> az_conn res" where
  "az_newDownloaderWithConnectionString S containerName connectionString =
     (let conn = AzConnectionString containerName connectionString
      in case sdk_az_container S conn of Some e \<Rightarrow> Err e | None \<Rightarrow> Ok conn)"

definition az_newDownloaderWithServicePrincipal :: "sdk \<Rightarrow> string \<Rightarrow> string \<Rightarrow> string \<Rightarrow> string \<Rightarrow> az_conn res" where
  "az_newDownloaderWithServicePrincipal S containerUrl clientId clientSecret tenantId =
     (case sdk_az_credential S tenantId clientId clientSecret of
        Some e \<Rightarrow> Err e
      | None \<Rightarrow>
          (let conn = AzServicePrincipal containerUrl clientId clientSecret tenantId
           in case sdk_az_container S conn of Some e \<Rightarrow> Err e | None \<Rightarrow> Ok conn))"

definition azure_NewRepository :: "sdk \<Rightarrow> RepositoryConfig \<Rightarrow> az_conn res" where
  "azure_NewRepository S c =
     (let clientId = GetString0 c ''client_id'';
          clientSecret = GetString0 c ''client_secret'';
          tenantId = GetString0 c ''tenant_id'';
          connectionString = GetString0 c ''connection_string'';
          accountName = GetString0 c ''account_name'';
          container = GetString0 c ''container''
      in if accountName = [] \<or> container = []
         then Err (ErrMsg ''both the Azure account name and storage container name must be specified'' [])
         else let containerUrl = ''https://'' @ accountName @ azureBlobStorageURL @ container
              in if connectionString \<noteq> [] then az_newDownloaderWithConnectionString S container connectionString
                 else if clientId \<noteq> [] \<and> clientSecret \<noteq> [] \<and> tenantId \<noteq> []
                 then az_newDownloaderWithServicePrincipal S containerUrl clientId clientSecret tenantId
                 else az_newDownloaderWithNoCredential S containerUrl)"

definition azure_shouldIgnoreObject :: "obj \<Rightarrow> string \<Rightarrow> bool" where
  "azure_shouldIgnoreObject blob pre =
     (if o_size blob = 0 then True
      else if has_suffix (o_name blob) [slash] then True
      else if \<not> has_suffix pre [slash] \<and> \<not> has_prefix (o_name blob) (pre @ [slash]) \<and> o_name blob \<noteq> pre then True
      else False)"

text \<open>The error that ended the pages is not looked at.\<close>

definition azure_listObjects :: "sdk \<Rightarrow> az_conn \<Rightarrow> string \<Rightarrow> string list res" where
  "azure_listObjects S d pre =
     (case sdk_az_pages S d pre of
        None \<Rightarrow> Err (ErrMsg ''listObjects: nothing returned when listing Azure blobs with prefix %s'' [pre])
      | Some (Some e, pages, lastErr) \<Rightarrow> Err e
      | Some (None, pages, lastErr) \<Rightarrow>
          Ok (concat (map (\<lambda>page. map o_name (filter (\<lambda>blob. \<not> azure_shouldIgnoreObject blob pre) page)) pages)))"

fun azure_downloadBatch :: "sdk \<Rightarrow> az_conn \<Rightarrow> Target list \<Rightarrow> (os, unit) step" where
  "azure_downloadBatch S d [] = ret ()"
| "azure_downloadBatch S d (target # targets) =
     andThen (wrapErr (ErrWrap ''unable to open local file '%s' for writing: %w'' [LocalPath target]) (OpenFile (LocalPath target)))
       (\<lambda>file.
     let (content, err) = sdk_az_blob S d (RemotePath target)
     in andThen (wrapErr (ErrWrap ''unable to download blob '%s' to local file '%s' for writing: %w'' [RemotePath target, LocalPath target])
          (andThen (fd_write (LocalPath target) content) (\<lambda>_. case err of Some e \<Rightarrow> fail_with e | None \<Rightarrow> ret ())))
        (\<lambda>_. azure_downloadBatch S d targets))"

definition azure_Pull :: "sdk \<Rightarrow> ext \<Rightarrow> az_conn \<Rightarrow> PullCommand \<Rightarrow> (os, unit) step" where
  "azure_Pull S X r pc =
     (let destDir = Directory pc; targets = Targets pc
      in case GetString (pc_RepositoryConfig pc) ''container'' of
           None \<Rightarrow> fail_with (ErrMsg ''required configuration '%s' missing from command'' [''container''])
         | Some container \<Rightarrow>
             andThen (resolve_targets X destDir (azure_listObjects S r)
                 (ErrWrap ''unable to list objects in container '%s': %w'' [container]) targets) (\<lambda>resolvedTargets.
             wrapErr (ErrWrap ''unable to download objects in container '%s': %w'' [container])
               (azure_downloadBatch S r resolvedTargets)))"

section \<open>gcs\<close>

definition gcs_GetKey :: "RepositoryConfig \<Rightarrow> string" where
  "gcs_GetKey c =
     (let privateKey = GetString0 c ''private_key'';
          clientEmail = GetString0 c ''client_email'';
          tokenUri = GetString0 c ''token_uri''
      in HashStrings [privateKey, clientEmail, tokenUri])"

definition gcs_newDownloader :: "sdk \<Rightarrow> (string \<times> string) list \<Rightarrow> gcs_conn res" where
  "gcs_newDownloader S credentials =
     (let conn = (if credentials \<noteq> [] then Some credentials else None)
      in case sdk_gcs_client S conn of Some e \<Rightarrow> Err e | None \<Rightarrow> Ok conn)"

definition gcs_NewRepository :: "sdk \<Rightarrow> RepositoryConfig \<Rightarrow> gcs_conn res" where
  "gcs_NewRepository S c =
     (let privateKey = GetString0 c ''private_key'';
          clientEmail = GetString0 c ''client_email''
      in if (privateKey = []) \<noteq> (clientEmail = [])
         then Err (ErrMsg ''both private key and client email must be specified for authentication'' [])
         else let creds =
                (if privateKey \<noteq> [] \<and> clientEmail \<noteq> []
                 then let base = [(''type'', ''service_account''), (''private_key'', privateKey), (''client_email'', clientEmail)];
                          tokenUri = GetString0 c ''token_uri''
                      in if tokenUri \<noteq> [] then base @ [(''token_uri'', tokenUri)] else base
                 else [])
              in gcs_newDownloader S creds)"

definition gcs_shouldIgnoreObject :: "obj \<Rightarrow> string \<Rightarrow> bool" where
  "gcs_shouldIgnoreObject ob pre =
     (if o_size ob = 0 then True
      else if has_suffix (o_name ob) [slash] then True
      else if \<not> has_suffix pre [slash] \<and> \<not> has_prefix (o_name ob) (pre @ [slash]) \<and> o_name ob \<noteq> pre then True
      else False)"

definition gcs_listObjects :: "sdk \<Rightarrow> gcs_conn \<Rightarrow> string \<Rightarrow> string \<Rightarrow> string list res" where
  "gcs_listObjects S d bucket pre =
     (case sdk_gcs_iter S d bucket pre of
        (objs, Some e) \<Rightarrow> Err (ErrText ''GCS listObjects: unable to list bucket %q: %v'' [bucket] e)
      | (objs, None) \<Rightarrow> Ok (map o_name (filter (\<lambda>ob. \<not> gcs_shouldIgnoreObject ob pre) objs)))"

text \<open>The part of \<open>Pull\<close> before the download: the bucket and the resolved targets.\<close>

definition gcs_Pull_targets :: "sdk \<Rightarrow> ext \<Rightarrow> gcs_conn \<Rightarrow> PullCommand \<Rightarrow> (os, string \<times> Target list) step" where
  "gcs_Pull_targets S X r pc =
     (let destDir = Directory pc; targets = Targets pc
      in case GetString (pc_RepositoryConfig pc) ''bucket'' of
           None \<Rightarrow> fail_with (ErrMsg ''required configuration 'bucket' missing from command'' [])
         | Some bucket \<Rightarrow>
             andThen (resolve_targets X destDir (gcs_listObjects S r bucket)
                 (ErrWrap ''unable to list objects in bucket '%s': %w'' [bucket]) targets) (\<lambda>resolvedTargets.
             ret (bucket, resolvedTargets)))"

section \<open>Which objects a pull selects\<close>

text \<open>
  The abstract selection: objects with content that lie in the subtree of the requested path, the path read as a
  sequence of names. A single trailing slash of the request is dropped.
\<close>

definition request_elems :: "string \<Rightarrow> string list" where
  "request_elems pre = split_on slash (if has_suffix pre [slash] then butlast pre else pre)"

definition wanted :: "string \<Rightarrow> obj \<Rightarrow> bool" where
  "wanted pre ob \<longleftrightarrow> o_size ob \<noteq> 0 \<and> \<not> has_suffix (o_name ob) [slash] \<and>
     prefix (request_elems pre) (split_on slash (o_name ob))"

lemma join_with_Cons: "xs \<noteq> [] \<Longrightarrow> join_with c (x # xs) = x @ c # join_with c xs"
  by (cases xs) simp_all

lemma join_with_append: "xs \<noteq> [] \<Longrightarrow> ys \<noteq> [] \<Longrightarrow> join_with c (xs @ ys) = join_with c xs @ c # join_with c ys"
proof (induction xs)
  case Nil
  then show ?case by simp
next
  case (Cons x xs)
  show ?case
  proof (cases "xs = []")
    case True
    with Cons.prems show ?thesis by (simp add: join_with_Cons)
  next
    case False
    with Cons show ?thesis by (simp add: join_with_Cons)
  qed
qed

lemma prefix_elems_iff: "prefix (split_on c p) (split_on c n) \<longleftrightarrow> has_prefix n (p @ [c]) \<or> n = p"
proof
  assume "prefix (split_on c p) (split_on c n)"
  then obtain zs where zs: "split_on c n = split_on c p @ zs" by (auto simp: prefix_def)
  show "has_prefix n (p @ [c]) \<or> n = p"
  proof (cases "zs = []")
    case True
    then have "split_on c n = split_on c p" using zs by simp
    then have "n = p" by (metis join_split)
    then show ?thesis ..
  next
    case False
    have "n = join_with c (split_on c n)" by (simp add: join_split)
    also have "\<dots> = p @ c # join_with c zs" using zs False by (simp add: join_with_append join_split)
    finally show ?thesis by (auto simp: has_prefix_iff)
  qed
next
  assume "has_prefix n (p @ [c]) \<or> n = p"
  then show "prefix (split_on c p) (split_on c n)" by (auto simp: has_prefix_iff split_on_append_sep)
qed

text \<open>
  The contract of the three filters: of the objects that a listing by prefix gives, they drop exactly those that are
  not wanted.
\<close>

locale object_filter =
  fixes ignore_obj :: "obj \<Rightarrow> string \<Rightarrow> bool"
  assumes ignore_iff: "ignore_obj ob pre \<longleftrightarrow> o_size ob = 0 \<or> has_suffix (o_name ob) [slash] \<or>
    \<not> (has_suffix pre [slash] \<or> has_prefix (o_name ob) (pre @ [slash]) \<or> o_name ob = pre)"
begin

lemma keeps_wanted:
  assumes "has_prefix (o_name ob) pre"
  shows "ignore_obj ob pre \<longleftrightarrow> \<not> wanted pre ob"
proof (cases "has_suffix pre [slash]")
  case True
  then obtain q where q: "pre = q @ [slash]" by (auto simp: has_suffix_iff)
  have "request_elems pre = split_on slash q" using True q by (simp add: request_elems_def)
  with assms q have "prefix (request_elems pre) (split_on slash (o_name ob))" by (simp add: prefix_elems_iff)
  moreover have "ignore_obj ob pre \<longleftrightarrow> o_size ob = 0 \<or> has_suffix (o_name ob) [slash]"
    using True by (simp add: ignore_iff)
  ultimately show ?thesis by (simp add: wanted_def)
next
  case False
  then show ?thesis by (auto simp: ignore_iff wanted_def request_elems_def prefix_elems_iff)
qed

lemma filter_wanted:
  "\<forall>ob \<in> set obs. has_prefix (o_name ob) pre \<Longrightarrow>
     filter (\<lambda>ob. \<not> ignore_obj ob pre) obs = filter (wanted pre) obs"
  by (auto intro!: filter_cong simp: keeps_wanted)

text \<open>A kept object has a local name: the relative path is never empty, nor the base name a slash.\<close>

lemma kept_local_name:
  assumes "\<not> ignore_obj ob pre"
  shows "snd (local_name \<lparr>RemotePath = pre, LocalPath = l\<rparr> (o_name ob)) \<noteq> []"
  using path_Base_nonempty by (simp add: local_name_def Let_def)

end

interpretation s3_objects: object_filter s3_shouldIgnoreObject
  by unfold_locales (auto simp: s3_shouldIgnoreObject_def)

interpretation azure_objects: object_filter azure_shouldIgnoreObject
  by unfold_locales (auto simp: azure_shouldIgnoreObject_def)

interpretation gcs_objects: object_filter gcs_shouldIgnoreObject
  by unfold_locales (auto simp: gcs_shouldIgnoreObject_def)

lemma s3_listObjects_pages:
  assumes "sdk_s3_pages S c bucket pre = (pages, None)"
  shows "s3_listObjects S c bucket pre =
    Ok (map o_name (filter (\<lambda>ob. \<not> s3_shouldIgnoreObject ob pre) (if pages = [] then [] else hd pages)))"
  using assms by (cases pages) (simp_all add: s3_listObjects_def Let_def split_def)

text \<open>
  C29: Selection of objects. When the storage service lists by prefix (every name it gives starts with the prefix), a listing of
  azure (its pages) and of gcs (its iterator) selects exactly the non-empty objects in the subtree of the
  requested path, element by element of the path, so that \<open>models/mnist\<close> does not select \<open>models/mnist2/x\<close>. The
  listing of s3 does so for the first page only: its callback asks for more exactly when there is none, so
  objects of later pages are never selected.
\<close>

theorem listings_select_subtree:
  assumes "sdk_s3_pages S s3c bucket pre = (pages, None)" "sdk_az_pages S azc pre = Some (None, pages, err)"
    "sdk_gcs_iter S gcsc bucket pre = (concat pages, None)"
    and "\<forall>ob \<in> set (concat pages). has_prefix (o_name ob) pre"
  shows "azure_listObjects S azc pre = Ok (map o_name (filter (wanted pre) (concat pages))) \<and>
    gcs_listObjects S gcsc bucket pre = Ok (map o_name (filter (wanted pre) (concat pages))) \<and>
    s3_listObjects S s3c bucket pre = Ok (map o_name (filter (wanted pre) (concat (take 1 pages))))"
proof -
  have az: "concat (map (\<lambda>page. map o_name (filter (\<lambda>ob. \<not> azure_shouldIgnoreObject ob pre) page)) pages) =
      map o_name (filter (\<lambda>ob. \<not> azure_shouldIgnoreObject ob pre) (concat pages))"
    by (induction pages) simp_all
  have s3: "(if pages = [] then [] else hd pages) = concat (take 1 pages)" by (cases pages) simp_all
  have "\<forall>ob \<in> set (concat (take 1 pages)). has_prefix (o_name ob) pre"
    using assms(4) by (cases pages) auto
  then show ?thesis
    using assms az s3 azure_objects.filter_wanted [OF assms(4)] gcs_objects.filter_wanted [OF assms(4)] s3_objects.filter_wanted
    by (simp add: azure_listObjects_def gcs_listObjects_def s3_listObjects_pages [OF assms(1)])
qed

definition demo_objs :: "obj list" where
  "demo_objs = [\<lparr>o_name = ''m/a'', o_size = 3\<rparr>, \<lparr>o_name = ''m2/b'', o_size = 4\<rparr>, \<lparr>o_name = ''m/d/'', o_size = 0\<rparr>]"

definition demo_sdk :: sdk where
  "demo_sdk = \<lparr>sdk_s3_session = (\<lambda>c. None), sdk_s3_pages = (\<lambda>c b p. ([demo_objs, [\<lparr>o_name = ''m/z'', o_size = 9\<rparr>]], None)),
     sdk_s3_object = (\<lambda>c b k. (''data of '' @ k, None)), sdk_az_credential = (\<lambda>t i s. None), sdk_az_container = (\<lambda>c. None),
     sdk_az_pages = (\<lambda>c p. Some (None, [demo_objs, [\<lparr>o_name = ''m/z'', o_size = 9\<rparr>]], None)),
     sdk_az_blob = (\<lambda>c k. (''data of '' @ k, None)), sdk_gcs_client = (\<lambda>c. None),
     sdk_gcs_iter = (\<lambda>c b p. (demo_objs @ [\<lparr>o_name = ''m/z'', o_size = 9\<rparr>], None)),
     sdk_gcs_reader = (\<lambda>c b k. Ok (''data of '' @ k, None))\<rparr>"

theorem listings_select_subtree_witness:
  "azure_listObjects demo_sdk (AzNoCredential ''u'') ''m'' = Ok [''m/a'', ''m/z''] \<and>
   gcs_listObjects demo_sdk None ''b'' ''m'' = Ok [''m/a'', ''m/z''] \<and>
   s3_listObjects demo_sdk (\<lparr>s3_accessKeyID = [], s3_secretAccessKey = [], s3_endpoint = [], s3_region = [], s3_certificate = []\<rparr>)
     ''b'' ''m'' = Ok [''m/a'']"
  using listings_select_subtree [of demo_sdk
      "\<lparr>s3_accessKeyID = [], s3_secretAccessKey = [], s3_endpoint = [], s3_region = [], s3_certificate = []\<rparr>" "''b''" "''m''"
      "[demo_objs, [\<lparr>o_name = ''m/z'', o_size = 9\<rparr>]]" "AzNoCredential ''u''" None None]
  by (simp add: demo_sdk_def demo_objs_def wanted_def request_elems_def has_suffix_def has_prefix_def)

section \<open>Confinement of a pull\<close>

text \<open>The local path of a resolved target lies below the directory of the command.\<close>

definition below :: "fpath \<Rightarrow> fs \<Rightarrow> Target \<Rightarrow> bool" where
  "below root t0 tg \<longleftrightarrow> (\<exists>cs. LocalPath tg = path_str (root @ cs) \<and> list_all plain_name (root @ cs) \<and> no_links t0 (root @ cs))"

lemma SecureJoin_state: "SecureJoin X es s = (r, s') \<Longrightarrow> s' = s"
  by (simp add: SecureJoin_def)

lemma SecureJoin_below:
  assumes "securejoin_scoped X" "list_all plain_name root" "root \<noteq> []" "no_links (files s) root"
    and "SecureJoin X (path_str root # es) s = (Ok q, s')"
  shows "\<exists>cs. q = path_str (root @ cs) \<and> list_all plain_name (root @ cs) \<and> no_links (files s) (root @ cs)"
  using assms unfolding securejoin_scoped_def SecureJoin_def SecureJoin_at_def
  by (auto split: if_splits)

lemma resolve_objects_below:
  assumes "securejoin_scoped X" "list_all plain_name root" "root \<noteq> []" "no_links (files s) root"
    and "resolve_objects X (path_str root) pt objs s = (Ok ts, s')"
  shows "s' = s \<and> map RemotePath ts = objs \<and> list_all (below root (files s)) ts"
  using assms(5)
proof (induction objs arbitrary: ts s')
  case Nil
  then show ?case by simp
next
  case (Cons ob objs)
  obtain l r where lr: "local_name pt ob = (l, r)" by fastforce
  from Cons.prems lr obtain q s1 rest where
    "wrapErr (ErrWrap ''error joining filepaths '%s' and '%s': %w'' [LocalPath pt, r]) (SecureJoin X [path_str root, l, r]) s = (Ok q, s1)" and
    r: "resolve_objects X (path_str root) pt objs s1 = (Ok rest, s')" and ts: "ts = \<lparr>RemotePath = ob, LocalPath = q\<rparr> # rest"
    by (auto simp: andThen_Ok_iff simp del: wrapErr_apply)
  then have j: "SecureJoin X [path_str root, l, r] s = (Ok q, s1)" by (simp add: prod_eq_iff on_err_Ok_iff)
  have "s1 = s" by (rule SecureJoin_state [OF j])
  with Cons.IH r SecureJoin_below [OF assms(1-4) j] ts show ?case by (auto simp: below_def)
qed

lemma resolve_targets_below:
  assumes "securejoin_scoped X" "list_all plain_name root" "root \<noteq> []" "no_links (files s) root"
    and "resolve_targets X (path_str root) L w targets s = (Ok ts, s')"
  shows "s' = s \<and> list_all (below root (files s)) ts \<and>
    (\<exists>oss. list_all2 (\<lambda>pt os. L (RemotePath pt) = Ok os) targets oss \<and> map RemotePath ts = concat oss)"
  using assms(5)
proof (induction targets arbitrary: ts s')
  case Nil
  then show ?case by (auto intro: exI [of _ "[]"])
next
  case (Cons pt targets)
  from Cons.prems obtain os ts1 s1 ts2 where L: "L (RemotePath pt) = Ok os" and
    o: "resolve_objects X (path_str root) pt os s = (Ok ts1, s1)" and
    r: "resolve_targets X (path_str root) L w targets s1 = (Ok ts2, s')" and ts: "ts = ts1 @ ts2"
    by (auto simp: res_simps)
  note 1 = resolve_objects_below [OF assms(1-4) o]
  with Cons.IH r obtain oss where 2: "s' = s" "list_all (below root (files s)) ts2"
    "list_all2 (\<lambda>pt os. L (RemotePath pt) = Ok os) targets oss" "map RemotePath ts2 = concat oss" by auto
  with 1 L ts show ?case by (auto intro!: exI [of _ "os # oss"])
qed

lemma resolve_targets_state: "snd (resolve_targets X d L w targets s) = s"
proof (induction targets arbitrary: s)
  case Nil
  then show ?case by simp
next
  have objs: "snd (resolve_objects X d pt obs u) = u" for pt obs u
    by (induction obs arbitrary: u) (auto simp: andThen_def SecureJoin_def split: prod.splits res.splits, (metis snd_conv)+)
  case (Cons pt targets)
  with objs show ?case by (auto simp: andThen_def split: prod.splits res.splits) (metis snd_conv)+
qed

text \<open>The steps of a download on targets below the directory are confined to it.\<close>

lemma belowD:
  assumes "below root t0 tg" "root \<noteq> []"
  shows "\<exists>p. LocalPath tg = path_str p \<and> no_links t0 p \<and> list_all plain_name p \<and> prefix root p \<and> p \<noteq> []"
proof -
  from assms obtain cs where "LocalPath tg = path_str (root @ cs)" "list_all plain_name (root @ cs)" "no_links t0 (root @ cs)"
    by (auto simp: below_def)
  with assms(2) show ?thesis by (intro exI [of _ "root @ cs"]) simp
qed

lemma keeps_OpenFile_below:
  "below root t0 tg \<Longrightarrow> root \<noteq> [] \<Longrightarrow> keeps (\<lambda>s. confined root t0 (files s)) (OpenFile (LocalPath tg))"
  using belowD OpenFile_confined by metis

lemma keeps_fd_write_below:
  assumes "below root t0 tg" "root \<noteq> []"
  shows "keeps (\<lambda>s. confined root t0 (files s)) (fd_write (LocalPath tg) content)"
  unfolding keeps_def
proof (intro allI impI)
  fix s :: os assume c: "confined root t0 (files s)"
  obtain p where p: "LocalPath tg = path_str p" "no_links t0 p" "list_all plain_name p" "prefix root p" "p \<noteq> []"
    using belowD [OF assms] by blast
  have nl: "no_links (files s) p" using c p(2) by (simp add: confined_no_links)
  have put: "confined root t0 (put p (File m d) (files s))" if "get (files s) p = Some (File m' d')" for m d m' d'
    using confined_put [OF c p(5), of "File m d"] that p(4) by simp
  show "confined root t0 (files (snd (fd_write (LocalPath tg) content s)))"
    unfolding fd_write_def p(1)
    by (rule confined_syscall [OF c])
       (use put in \<open>auto simp: lookup_def split: sum.splits option.splits node.splits dest!: resolve_no_links [OF nl p(3)]\<close>)
qed

lemma keeps_open_all:
  "list_all (below root t0) ts \<Longrightarrow> root \<noteq> [] \<Longrightarrow> keeps (\<lambda>s. confined root t0 (files s)) (open_all ts)"
  by (induction ts) (auto intro!: keeps_intro keeps_OpenFile_below)

lemma keeps_DownloadWithIterator:
  "list_all (below root t0) ts \<Longrightarrow> root \<noteq> [] \<Longrightarrow>
     keeps (\<lambda>s. confined root t0 (files s)) (DownloadWithIterator f ok ts)"
  by (induction ts arbitrary: ok) (auto simp: split_def Let_def intro!: keeps_intro keeps_fd_write_below)

lemma keeps_s3_downloadBatch:
  "list_all (below root t0) ts \<Longrightarrow> root \<noteq> [] \<Longrightarrow>
     keeps (\<lambda>s. confined root t0 (files s)) (s3_downloadBatch S d b ts)"
  unfolding s3_downloadBatch_def by (intro keeps_intro keeps_open_all keeps_DownloadWithIterator)

lemma keeps_azure_downloadBatch:
  "list_all (below root t0) ts \<Longrightarrow> root \<noteq> [] \<Longrightarrow>
     keeps (\<lambda>s. confined root t0 (files s)) (azure_downloadBatch S d ts)"
  by (induction ts) (auto simp: split_def Let_def split: option.split intro!: keeps_intro keeps_OpenFile_below keeps_fd_write_below)

lemma andThen_resolve_keeps:
  assumes X: "securejoin_scoped X" "list_all plain_name root" "root \<noteq> []" "no_links (files s) root"
    and k: "\<And>ts. list_all (below root (files s)) ts \<Longrightarrow> keeps (\<lambda>u. confined root (files s) (files u)) (k ts)"
  shows "confined root (files s) (files (snd (andThen (resolve_targets X (path_str root) L w targets) k s)))"
proof (cases "resolve_targets X (path_str root) L w targets s")
  case (Pair r s')
  then have s': "s' = s" using resolve_targets_state [of X "path_str root" L w targets s] by simp
  show ?thesis
  proof (cases r)
    case (Ok ts)
    with Pair resolve_targets_below [OF X] have "list_all (below root (files s)) ts" by blast
    from keepsD [OF k [OF this], of s] Ok Pair s' show ?thesis by (simp add: andThen_eval)
  qed (use Pair s' in \<open>simp_all add: andThen_eval\<close>)
qed

lemma s3_Pull_confined:
  assumes "securejoin_scoped X" "Directory pc = path_str root" "list_all plain_name root" "root \<noteq> []" "no_links (files s) root"
  shows "confined root (files s) (files (snd (s3_Pull S X c pc s)))"
  unfolding s3_Pull_def Let_def assms(2)
  by (auto split: option.split intro!: andThen_resolve_keeps [OF assms(1,3,4,5)] keeps_wrapErr keeps_s3_downloadBatch [OF _ assms(4)])

lemma azure_Pull_confined:
  assumes "securejoin_scoped X" "Directory pc = path_str root" "list_all plain_name root" "root \<noteq> []" "no_links (files s) root"
  shows "confined root (files s) (files (snd (azure_Pull S X d pc s)))"
  unfolding azure_Pull_def Let_def assms(2)
  by (auto split: option.split intro!: andThen_resolve_keeps [OF assms(1,3,4,5)] keeps_wrapErr keeps_azure_downloadBatch [OF _ assms(4)])

text \<open>A join below the directory, and what is done at the path.\<close>

lemma keeps_join:
  assumes X: "securejoin_scoped X" "list_all plain_name d" "d \<noteq> []"
    and f: "\<And>cs s. lay_inv d t0 (files s) \<Longrightarrow> list_all plain_name (d @ cs) \<Longrightarrow> no_links (files s) (d @ cs) \<Longrightarrow>
      lay_inv d t0 (files (snd (f (path_str (d @ cs)) s)))"
  shows "keeps (\<lambda>s. lay_inv d t0 (files s)) (andThen (wrapErr w (SecureJoin X (path_str d # es))) f)"
  unfolding keeps_def
proof (intro allI impI)
  fix s :: os assume I: "lay_inv d t0 (files s)"
  show "lay_inv d t0 (files (snd (andThen (wrapErr w (SecureJoin X (path_str d # es))) f s)))"
  proof (cases "SecureJoin_at X (files s) (path_str d # es)")
    case (Ok q)
    then have j: "SecureJoin X (path_str d # es) s = (Ok q, s)" by (simp add: SecureJoin_def)
    from I have "no_links (files s) d" by (simp add: lay_inv_def)
    from SecureJoin_below [OF X this j] f [OF I] j show ?thesis by (auto simp: andThen_def)
  qed (use I in \<open>simp_all add: andThen_def SecureJoin_def\<close>)
qed

lemmas keeps_join_raw = keeps_join [where w = "\<lambda>e. e", unfolded wrapErr_id]

text \<open>
  The contract that a user of a repository client relies on: a pull stays within the directory of its command, in the sense of \<open>R\<close>.
\<close>

locale scoped_pull = dir_scope R for R +
  fixes pull :: "ext \<Rightarrow> PullCommand \<Rightarrow> (os, unit) step"
  assumes pull_in_scope: "securejoin_scoped X \<Longrightarrow> Directory pc = path_str root \<Longrightarrow> list_all plain_name root \<Longrightarrow>
    root \<noteq> [] \<Longrightarrow> no_links (files s) root \<Longrightarrow> R root (files s) (files (snd (pull X pc s)))"

abbreviation confined_pull :: "(ext \<Rightarrow> PullCommand \<Rightarrow> (os, unit) step) \<Rightarrow> bool" where
  "confined_pull pull \<equiv> scoped_pull confined pull"

abbreviation bounded_pull :: "(ext \<Rightarrow> PullCommand \<Rightarrow> (os, unit) step) \<Rightarrow> bool" where
  "bounded_pull pull \<equiv> scoped_pull stays_below pull"

lemma confined_pull_bounded: "confined_pull pull \<Longrightarrow> bounded_pull pull"
  unfolding scoped_pull_def scoped_pull_axioms_def using stays.dir_scope_axioms stays_below_confined by blast

interpretation s3_pull: scoped_pull confined "\<lambda>X. s3_Pull S X c" for S c
  by unfold_locales (rule s3_Pull_confined)

interpretation azure_pull: scoped_pull confined "\<lambda>X. azure_Pull S X d" for S d
  by unfold_locales (rule azure_Pull_confined)

text \<open>
  A pull writes below its directory only. Whatever keys the storage service lists and whatever local paths the command asks
  for, a pull from s3 or azure, also one that fails half way, changes no file, directory or link outside the command's
  directory, except for making that directory and its missing parents; it changes and removes no
  symbolic link anywhere. (The joined path is what \<open>filepath-securejoin\<close> documents: below the root, links evaluated.)
\<close>

lemma object_store_pulls_confined:
  assumes "securejoin_scoped X" "Directory pc = path_str root" "list_all plain_name root" "root \<noteq> []"
    and "no_links (files s) root"
  shows "confined root (files s) (files (snd (s3_Pull S X c pc s))) \<and>
    confined root (files s) (files (snd (azure_Pull S X d pc s)))"
  using s3_pull.pull_in_scope [OF assms] azure_pull.pull_in_scope [OF assms] by blast

definition demo_os :: "fs \<Rightarrow> os" where
  "demo_os t = \<lparr>files = t, calls = 0, faults = (\<lambda>n. None)\<rparr>"

definition demo_pull :: PullCommand where
  "demo_pull = \<lparr>pc_RepositoryConfig = NewRepositoryConfig ''azure'' (Some [(''container'', JStr ''c'')]),
     Directory = ''/models'', Targets = [\<lparr>RemotePath = ''m'', LocalPath = ''out''\<rparr>]\<rparr>"

lemma object_store_pulls_confined_example:
  "confined [''models''] [([''etc''], Dir)] (files (snd (azure_Pull demo_sdk demo_ext (AzNoCredential ''u'') demo_pull (demo_os [([''etc''], Dir)]))))"
proof -
  have "Directory demo_pull = path_str [''models'']" "list_all plain_name [''models'']" "no_links (files (demo_os [([''etc''], Dir)])) [''models'']"
    by (simp_all add: demo_pull_def demo_os_def path_str_def plain_name_def no_links_list get_def is_link_def)
  from object_store_pulls_confined [OF demo_ext_laws(1) this(1,2) _ this(3)] show ?thesis by (simp add: demo_os_def)
qed

section \<open>Keys\<close>

text \<open>
  For each object store, \<open>GetKey\<close> and the repository that \<open>NewRepository\<close> makes are functions of the same configuration
  fields: configurations that agree on them share a key and get the same client. The converse of the
  documented contract fails: the key is a hash of the concatenation of the fields, so a configuration for another
  endpoint and region, or for another account, can have the same key, although its repository connects elsewhere.
\<close>

lemma object_store_keys:
  "((\<forall>k \<in> {''access_key_id'', ''secret_access_key'', ''endpoint_url'', ''region'', ''certificate''}.
       GetString c1 k = GetString c2 k) \<longrightarrow> s3_GetKey c1 = s3_GetKey c2 \<and> s3_NewRepository S c1 = s3_NewRepository S c2) \<and>
   ((\<forall>k \<in> {''client_id'', ''client_secret'', ''tenant_id'', ''connection_string'', ''account_name'', ''container''}.
       GetString c1 k = GetString c2 k) \<longrightarrow> azure_GetKey c1 = azure_GetKey c2 \<and> azure_NewRepository S c1 = azure_NewRepository S c2) \<and>
   ((\<forall>k \<in> {''private_key'', ''client_email'', ''token_uri''}. GetString c1 k = GetString c2 k) \<longrightarrow>
       gcs_GetKey c1 = gcs_GetKey c2 \<and> gcs_NewRepository S c1 = gcs_NewRepository S c2)"
  by (simp add: s3_GetKey_def s3_NewRepository_def azure_GetKey_def azure_NewRepository_def gcs_GetKey_def
      gcs_NewRepository_def GetString0_def require_string_def Let_def)

definition s3_config :: "string \<Rightarrow> string \<Rightarrow> RepositoryConfig" where
  "s3_config endpoint region = NewRepositoryConfig ''s3'' (Some [(''access_key_id'', JStr ''id''), (''secret_access_key'', JStr ''key''),
     (''endpoint_url'', JStr endpoint), (''region'', JStr region)])"

lemma object_store_keys_example:
  "s3_NewRepository demo_sdk (rc_Set ''bucket'' (JStr ''b'') (s3_config ''e'' ''r'')) = s3_NewRepository demo_sdk (s3_config ''e'' ''r'')"
  by (rule object_store_keys [THEN conjunct1, THEN mp, THEN conjunct2])
    (simp add: s3_config_def NewRepositoryConfig_def rc_Set_def GetString_def rc_Get_def storageTypeKey_def)

text \<open>
  The key of s3 does not separate its fields: for any endpoint and region, moving characters from one to the other gives a
  configuration with the same key, while the repositories made for the two differ.
\<close>

lemma s3_key_collision:
  "s3_GetKey (s3_config (e @ x) r) = s3_GetKey (s3_config e (x @ r)) \<and>
   (s3_NewRepository demo_sdk (s3_config (e @ x) r) = s3_NewRepository demo_sdk (s3_config e (x @ r)) \<longleftrightarrow> x = [])"
proof -
  have "GetString (s3_config e r) k = (if k = ''type'' then Some ''s3'' else if k = ''access_key_id'' then Some ''id''
      else if k = ''secret_access_key'' then Some ''key'' else if k = ''endpoint_url'' then Some e
      else if k = ''region'' then Some r else None)" for e r k
    by (auto simp: s3_config_def NewRepositoryConfig_def GetString_def rc_Get_def storageTypeKey_def)
  moreover have "HashStrings [e @ x, r, id, key, cert] = HashStrings [e, x @ r, id, key, cert]" for id key cert
    by (simp only: HashStrings_def fold_write_concat concat.simps append_assoc)
  ultimately show ?thesis
    by (simp add: s3_GetKey_def s3_NewRepository_def GetString0_def require_string_def s3_newDownloader_def demo_sdk_def)
qed

end
