(* ===== verification/HttpStore.thy ===== *)
theory HttpStore
  imports ObjectStores
begin

text \<open>
  \<open>pullman/storageproviders/http\<close>: a repository behind a URL. URLs, requests, TLS certificates and responses belong to Go's
  network library and are a parameter: a URL is its path and the rest of it, and a response gives a status, the bytes read
  and the error that ended the body, if any.
\<close>

section \<open>The network library\<close>

record url =
  u_rest :: string
  u_Path :: string

type_synonym header = "(string \<times> string list) list"

text \<open>A client is its TLS settings: the CA certificates and the client's key pair.\<close>

record http_client =
  hc_ca :: "string option"
  hc_tls :: "(string \<times> string) option"

record response =
  r_status :: nat
  r_body :: string
  r_readErr :: "goerr option"

record net =
  n_parse :: "string \<Rightarrow> url res"
  n_string :: "url \<Rightarrow> string"
  n_request :: "string \<Rightarrow> goerr option"
  n_do :: "http_client \<Rightarrow> string \<Rightarrow> header \<Rightarrow> response res"
  n_append_certs :: "string \<Rightarrow> bool"
  n_key_pair :: "string \<Rightarrow> string \<Rightarrow> goerr option"

section \<open>Client and repository\<close>

text \<open>
  The transport is made without a TLS configuration, so its field \<open>TLSClientConfig\<close> is nil; the settings are stored through that
  pointer.
\<close>

definition http_newClient :: "string option \<Rightarrow> (string \<times> string) option \<Rightarrow> http_client res" where
  "http_newClient ca client_tls =
     (if ca \<noteq> None then Panic ''nil pointer dereference: t.TLSClientConfig''
      else if client_tls \<noteq> None then Panic ''nil pointer dereference: t.TLSClientConfig''
      else Ok \<lparr>hc_ca = None, hc_tls = None\<rparr>)"

definition http_GetKey :: "RepositoryConfig \<Rightarrow> string" where
  "http_GetKey c =
     (let cert = GetString0 c ''certificate'';
          clientCert = GetString0 c ''client_certificate'';
          clientKey = GetString0 c ''client_key''
      in HashStrings [cert, clientCert, clientKey])"

definition http_NewRepository :: "net \<Rightarrow> RepositoryConfig \<Rightarrow> http_client res" where
  "http_NewRepository N c =
     (let cert = GetString0 c ''certificate'';
          clientCert = GetString0 c ''client_certificate'';
          clientKey = GetString0 c ''client_key''
      in if cert \<noteq> [] \<and> \<not> n_append_certs N cert
         then Err (ErrMsg ''failed to add certificate to CA pool'' [])
         else let ca = (if cert \<noteq> [] then Some cert else None)
              in if clientCert = [] \<and> clientKey \<noteq> []
                 then Err (ErrMsg ''missing required client certificate when client key is specified'' [])
                 else if clientCert \<noteq> [] \<and> clientKey = []
                 then Err (ErrMsg ''missing required client key when client certificate is specified'' [])
                 else if clientCert \<noteq> [] \<and> clientKey \<noteq> []
                 then (case n_key_pair N clientCert clientKey of
                     Some err \<Rightarrow> Err (ErrWrap ''failed to parse client TLS key pair: %w'' [] err)
                   | None \<Rightarrow> http_newClient ca (Some (clientCert, clientKey)))
                 else http_newClient ca None)"

section \<open>Headers\<close>

text \<open>\<open>result[k] = append(result[k], v)\<close>\<close>

definition mm_append :: "string \<Rightarrow> string \<Rightarrow> header \<Rightarrow> header" where
  "mm_append k v m = AList.update k ((case map_of m k of Some vs \<Rightarrow> vs | None \<Rightarrow> []) @ [v]) m"

fun parse_values :: "string \<Rightarrow> json list \<Rightarrow> header \<Rightarrow> header res" where
  "parse_values vKey [] result = Ok result"
| "parse_values vKey (v # vs) result =
     (case as_string v of
        None \<Rightarrow> Err (ErrMsg ''could not parse '%v' as string'' [])
      | Some vString \<Rightarrow> parse_values vKey vs (mm_append vKey vString result))"

fun parse_entries :: "gomap \<Rightarrow> header \<Rightarrow> header res" where
  "parse_entries [] result = Ok result"
| "parse_entries ((vKey, vVals) # vMap) result =
     (case as_slice vVals of
        Some vSlice \<Rightarrow> res_bind (parse_values vKey vSlice result) (parse_entries vMap)
      | None \<Rightarrow> (case as_string vVals of
            Some vString \<Rightarrow> parse_entries vMap (mm_append vKey vString result)
          | None \<Rightarrow> Err (ErrMsg ''could not parse '%v' as a string or a list of strings'' [])))"

text \<open>The entries are taken in the order of the association list, which stands for the map's iteration order.\<close>

definition parseStringMultiMap :: "json \<Rightarrow> header res" where
  "parseStringMultiMap v =
     (case as_map v of
        None \<Rightarrow> Err (ErrMsg ''could not parse '%v' as a map'' [])
      | Some vMap \<Rightarrow> parse_entries vMap [])"

section \<open>Pull\<close>

text \<open>The status of the response is not looked at.\<close>

definition http_download :: "net \<Rightarrow> http_client \<Rightarrow> string \<Rightarrow> header \<Rightarrow> string \<Rightarrow> (os, unit) step" where
  "http_download N c req hdr filename =
     andThen (wrapErr (ErrWrap ''error getting resource '%s': %w'' [req]) (lift_res (n_do N c req hdr))) (\<lambda>resp.
     andThen (wrapErr (ErrWrap ''unable to open local file '%s' for writing: %w'' [filename]) (OpenFile filename)) (\<lambda>_.
     wrapErr (ErrWrap ''error writing resource to local file '%s': %w'' [filename])
       (andThen (fd_write filename (r_body resp)) (\<lambda>_. case r_readErr resp of Some e \<Rightarrow> fail_with e | None \<Rightarrow> ret ()))))"

fun http_pull_targets :: "net \<Rightarrow> ext \<Rightarrow> http_client \<Rightarrow> url \<Rightarrow> header \<Rightarrow> string \<Rightarrow> Target list \<Rightarrow> (os, unit) step" where
  "http_pull_targets N X c baseURL hdr destDir [] = ret ()"
| "http_pull_targets N X c baseURL hdr destDir (pt # targets) =
     (let u = baseURL\<lparr>u_Path := path_Join [u_Path baseURL, RemotePath pt]\<rparr>
      in case n_request N (n_string N u) of
           Some err \<Rightarrow> fail_with (ErrWrap ''error building HTTP request for '%s': %w'' [RemotePath pt] err)
         | None \<Rightarrow>
             let localPath = (if LocalPath pt = [] then path_Base (RemotePath pt) else LocalPath pt)
             in andThen (wrapErr (ErrWrap ''error joining filepaths '%s' and '%s': %w'' [destDir, localPath])
                  (SecureJoin X [destDir, localPath])) (\<lambda>filePath.
                andThen (wrapErr (ErrWrap ''unable to download file from '%s': %w'' [n_string N baseURL])
                  (http_download N c (n_string N u) hdr filePath)) (\<lambda>_.
                http_pull_targets N X c baseURL hdr destDir targets)))"

definition http_Pull :: "net \<Rightarrow> ext \<Rightarrow> http_client \<Rightarrow> PullCommand \<Rightarrow> (os, unit) step" where
  "http_Pull N X c pc =
     (case GetString (pc_RepositoryConfig pc) ''url'' of
        None \<Rightarrow> fail_with (ErrMsg ''required configuration 'url' missing from command'' [])
      | Some pcURL \<Rightarrow>
          andThen (wrapErr (ErrWrap ''failed to parse url: %w'' []) (lift_res (n_parse N pcURL))) (\<lambda>baseURL.
          andThen (case rc_Get (pc_RepositoryConfig pc) ''headers'' of
              None \<Rightarrow> ret []
            | Some pcHeaders \<Rightarrow>
                wrapErr (ErrText ''could not parse '%v' as HTTP headers: %v'' []) (lift_res (parseStringMultiMap pcHeaders))) (\<lambda>hdr.
          http_pull_targets N X c baseURL hdr (Directory pc) (Targets pc))))"

section \<open>Properties\<close>

text \<open>The strings of an entry's value; \<open>None\<close> where the value has another form.\<close>

definition header_values :: "json \<Rightarrow> string list option" where
  "header_values v = (case v of
     JArr vs \<Rightarrow> (if list_all (\<lambda>x. as_string x \<noteq> None) vs then Some (map (\<lambda>x. the (as_string x)) vs) else None)
   | JStr s \<Rightarrow> Some [s]
   | _ \<Rightarrow> None)"

lemma mm_append_get: "map_of (mm_append k v m) k' =
    (if k' = k then Some ((case map_of m k of Some vs \<Rightarrow> vs | None \<Rightarrow> []) @ [v]) else map_of m k')"
  by (simp add: mm_append_def update_conv')

lemma parse_values_Ok:
  "parse_values k vs m = Ok m' \<longleftrightarrow> list_all (\<lambda>x. as_string x \<noteq> None) vs \<and> m' = fold (\<lambda>x. mm_append k (the (as_string x))) vs m"
  by (induction k vs m rule: parse_values.induct) (auto split: option.splits)

lemma fold_mm_append_get:
  "map_of (fold (\<lambda>x. mm_append k (f x)) vs m) k' =
     (if k' = k \<and> vs \<noteq> [] then Some ((case map_of m k of Some us \<Rightarrow> us | None \<Rightarrow> []) @ map f vs) else map_of m k')"
  by (induction vs arbitrary: m) (auto simp: mm_append_get)

text \<open>The strings of a key in the result: none for an empty list.\<close>

definition header_of :: "json option \<Rightarrow> string list option" where
  "header_of v = (case v of None \<Rightarrow> None
     | Some v \<Rightarrow> (case header_values v of None \<Rightarrow> None | Some vs \<Rightarrow> if vs = [] then None else Some vs))"

lemma parse_entry_Ok:
  "header_values v = Some vs \<Longrightarrow> parse_entries ((k, v) # vm) m = parse_entries vm (fold (mm_append k) vs m)"
  by (cases v) (auto simp: header_values_def parse_values_Ok [THEN iffD2] fold_map comp_def split: if_splits)

lemma parse_entry_Err:
  assumes "header_values v = None"
  shows "\<exists>x. parse_entries ((k, v) # vm) m = Err x"
proof (cases v)
  case (JArr vs)
  have "\<exists>x. parse_values k vs m = Err x" if "\<not> list_all (\<lambda>x. as_string x \<noteq> None) vs" for m
    using that by (induction vs arbitrary: m) (auto split: option.splits)
  moreover have "\<not> list_all (\<lambda>x. as_string x \<noteq> None) vs"
    using JArr assms by (simp add: header_values_def split: if_splits)
  ultimately obtain x where "parse_values k vs m = Err x" by blast
  with JArr show ?thesis by simp
qed (use assms in \<open>auto simp: header_values_def\<close>)

lemma parse_entries_Ok:
  assumes "distinct (map fst vm)" "\<forall>k \<in> set (map fst vm). map_of m k = None"
  shows "if \<forall>(k, v) \<in> set vm. header_values v \<noteq> None
    then \<exists>h. parse_entries vm m = Ok h \<and> (\<forall>k. map_of h k = (if map_of m k \<noteq> None then map_of m k else header_of (map_of vm k)))
    else \<exists>x. parse_entries vm m = Err x"
  using assms
proof (induction vm arbitrary: m)
  case Nil
  then show ?case by (simp add: header_of_def)
next
  case (Cons e vm)
  obtain k0 v0 where e: "e = (k0, v0)" by fastforce
  show ?case
  proof (cases "header_values v0")
    case None
    with parse_entry_Err [OF None] show ?thesis by (auto simp: e)
  next
    case (Some vs)
    let ?m = "fold (mm_append k0) vs m"
    have m1: "map_of ?m k = (if k = k0 then header_of (Some v0) else map_of m k)" for k
      using fold_mm_append_get [of k0 "\<lambda>x. x" vs m k] Cons.prems(2) Some by (simp add: e header_of_def)
    have "\<forall>k \<in> set (map fst vm). map_of ?m k = None" using Cons.prems m1 by (auto simp: e)
    from Cons.IH [OF _ this] Cons.prems(1) have IH: "if \<forall>(k, v) \<in> set vm. header_values v \<noteq> None
      then \<exists>h. parse_entries vm ?m = Ok h \<and> (\<forall>k. map_of h k = (if map_of ?m k \<noteq> None then map_of ?m k else header_of (map_of vm k)))
      else \<exists>x. parse_entries vm ?m = Err x" by simp
    have k0: "map_of vm k0 = None" "map_of m k0 = None" using Cons.prems by (auto simp: e map_of_eq_None_iff)
    have "(if map_of ?m k \<noteq> None then map_of ?m k else header_of (map_of vm k)) =
        (if map_of m k \<noteq> None then map_of m k else header_of (map_of (e # vm) k))" for k
      using k0 by (auto simp: m1 e) (simp add: header_of_def)
    with IH Some parse_entry_Ok [OF Some, of k0 vm m] show ?thesis by (auto simp: e split: if_splits)
  qed
qed

text \<open>
  \<open>parseStringMultiMap\<close> accepts exactly the maps whose values are strings or lists of strings, in any iteration order of the
  map; the result gives every key its strings in order, a key with an empty list is absent, and any other value is
  refused with an error.
\<close>

lemma parseStringMultiMap_spec:
  assumes "distinct (map fst m)"
  shows "if \<forall>(k, v) \<in> set m. header_values v \<noteq> None
    then \<exists>h. parseStringMultiMap (JObj m) = Ok h \<and> (\<forall>k. map_of h k = header_of (map_of m k))
    else \<exists>e. parseStringMultiMap (JObj m) = Err e"
  using parse_entries_Ok [OF assms, of "[]"] by (auto simp: parseStringMultiMap_def split: if_splits)

lemma parseStringMultiMap_spec_example:
  "\<exists>h. parseStringMultiMap (JObj [(''a'', JStr ''x''), (''b'', JArr [JStr ''y'', JStr ''z'']), (''c'', JArr [])]) = Ok h \<and>
     map_of h ''b'' = Some [''y'', ''z''] \<and> map_of h ''c'' = None"
  using parseStringMultiMap_spec [of "[(''a'', JStr ''x''), (''b'', JArr [JStr ''y'', JStr ''z'']), (''c'', JArr [])]"]
  by (auto simp: header_values_def header_of_def)

text \<open>
  TLS settings cannot be used: \<open>newClient\<close> stores them through a nil pointer, so \<open>NewRepository\<close> panics for every configuration
  with a certificate or a complete client key pair that it accepts, and the only client that is ever made
  has no TLS settings. Half a key pair, a bad certificate and a bad key pair are refused with an error.
\<close>

lemma http_tls_settings_panic:
  "case http_NewRepository N c of
     Ok cl \<Rightarrow> GetString0 c ''certificate'' = [] \<and> GetString0 c ''client_certificate'' = [] \<and> GetString0 c ''client_key'' = [] \<and>
       cl = \<lparr>hc_ca = None, hc_tls = None\<rparr>
   | Err e \<Rightarrow> (GetString0 c ''certificate'' \<noteq> [] \<and> \<not> n_append_certs N (GetString0 c ''certificate'')) \<or>
       (GetString0 c ''client_certificate'' = []) \<noteq> (GetString0 c ''client_key'' = []) \<or>
       n_key_pair N (GetString0 c ''client_certificate'') (GetString0 c ''client_key'') \<noteq> None
   | Panic m \<Rightarrow> (GetString0 c ''certificate'' \<noteq> [] \<and> n_append_certs N (GetString0 c ''certificate'')) \<or>
       (GetString0 c ''client_certificate'' \<noteq> [] \<and> n_key_pair N (GetString0 c ''client_certificate'') (GetString0 c ''client_key'') = None)"
  by (auto simp: http_NewRepository_def http_newClient_def Let_def split: res.splits option.splits if_splits)

lemma http_download_confined:
  assumes "below root t0 tg" "root \<noteq> []"
  shows "keeps (\<lambda>s. confined root t0 (files s)) (http_download N c req hdr (LocalPath tg))"
proof -
  have end_body: "keeps P (case e of Some e \<Rightarrow> fail_with e | None \<Rightarrow> ret ())" for P :: "os \<Rightarrow> bool" and e
    by (cases e) (simp_all add: keeps_ret keeps_fail)
  show ?thesis
    unfolding http_download_def
    by (intro keeps_intro keeps_OpenFile_below [OF assms] keeps_fd_write_below [OF assms] end_body)
qed

lemma http_pull_targets_confined:
  assumes "securejoin_scoped X" "list_all plain_name root" "root \<noteq> []" "no_links t0 root"
  shows "keeps (\<lambda>s. confined root t0 (files s)) (http_pull_targets N X c base hdr (path_str root) targets)"
proof (induction targets)
  case Nil
  then show ?case by (simp add: keeps_def)
next
  case (Cons pt targets)
  let ?l = "if LocalPath pt = [] then path_Base (RemotePath pt) else LocalPath pt"
  show ?case
    unfolding keeps_def
  proof (intro allI impI)
    fix s :: os assume c: "confined root t0 (files s)"
    have nl: "no_links (files s) root" using c assms(4) by (simp add: confined_no_links)
    let ?w = "wrapErr (ErrWrap ''error joining filepaths '%s' and '%s': %w'' [path_str root, ?l]) (SecureJoin X [path_str root, ?l])"
    have d: "keeps (\<lambda>s. confined root t0 (files s)) (http_download N c req hdr q)" if w: "?w s = (Ok q, s)" for req q
    proof -
      from w have "SecureJoin X [path_str root, ?l] s = (Ok q, s)" by (simp add: prod_eq_iff on_err_Ok_iff)
      from SecureJoin_below [OF assms(1-3) nl this] have "below root t0 \<lparr>RemotePath = [], LocalPath = q\<rparr>"
        using c by (simp add: below_def confined_no_links)
      from http_download_confined [OF this assms(3)] show ?thesis by simp
    qed
    have st: "snd (?w s) = s" by (simp add: SecureJoin_def)
    show "confined root t0 (files (snd (http_pull_targets N X c base hdr (path_str root) (pt # targets) s)))"
    proof (cases "n_request N (n_string N (base\<lparr>u_Path := path_Join [u_Path base, RemotePath pt]\<rparr>))")
      case (Some e)
      with c show ?thesis by (simp add: Let_def)
    next
      case None
      have seq: "confined root t0 (files (snd (andThen ?w f s)))"
        if "\<And>q. ?w s = (Ok q, s) \<Longrightarrow> keeps (\<lambda>s. confined root t0 (files s)) (f q)" for f :: "string \<Rightarrow> (os, unit) step"
        by (rule andThen_keeps_at [where P = "\<lambda>s. confined root t0 (files s)" and m = ?w and s = s]) (use st c that in simp_all)
      show ?thesis
        unfolding http_pull_targets.simps Let_def None option.case
        by (rule seq, intro keeps_andThen keeps_wrapErr, erule d, rule Cons.IH)
    qed
  qed
qed

lemma http_Pull_confined:
  assumes "securejoin_scoped X" "Directory pc = path_str root" "list_all plain_name root" "root \<noteq> []"
    and "no_links (files s) root"
  shows "confined root (files s) (files (snd (http_Pull N X c pc s)))"
proof -
  have "keeps (\<lambda>u. confined root (files s) (files u)) (http_Pull N X c pc)"
    unfolding http_Pull_def assms(2)
    by (auto split: option.split intro!: keeps_intro http_pull_targets_confined [OF assms(1,3,4,5)])
  from keepsD [OF this, of s] show ?thesis by simp
qed

interpretation http_pull: scoped_pull confined "\<lambda>X. http_Pull N X c" for N c
  by unfold_locales (rule http_Pull_confined)

text \<open>
  A pull over HTTP writes below its directory only: whatever the remote and local paths of the targets and the responses of the
  server are, also when it fails half way, nothing outside the command's directory changes, except for
  making that directory and its missing parents.
\<close>

lemma http_pull_confined:
  assumes "securejoin_scoped X" "Directory pc = path_str root" "list_all plain_name root" "root \<noteq> []"
    and "no_links (files s) root"
  shows "confined root (files s) (files (snd (http_Pull N X c pc s)))"
  by (rule http_pull.pull_in_scope [OF assms])

definition demo_net :: net where
  "demo_net = \<lparr>n_parse = (\<lambda>s. Ok \<lparr>u_rest = s, u_Path = ''/''\<rparr>), n_string = (\<lambda>u. u_rest u @ u_Path u), n_request = (\<lambda>u. None),
     n_do = (\<lambda>c r h. Ok \<lparr>r_status = 200, r_body = r, r_readErr = None\<rparr>), n_append_certs = (\<lambda>c. True), n_key_pair = (\<lambda>c k. None)\<rparr>"

definition demo_http_pull :: PullCommand where
  "demo_http_pull = \<lparr>pc_RepositoryConfig = NewRepositoryConfig ''http'' (Some [(''url'', JStr ''http://h'')]),
     Directory = ''/models'', Targets = [\<lparr>RemotePath = ''m'', LocalPath = ''out''\<rparr>]\<rparr>"

lemma http_pull_confined_example:
  "confined [''models''] [] (files (snd (http_Pull demo_net demo_ext \<lparr>hc_ca = None, hc_tls = None\<rparr> demo_http_pull (demo_os []))))"
proof -
  have "Directory demo_http_pull = path_str [''models'']" "list_all plain_name [''models'']" "no_links (files (demo_os [])) [''models'']"
    by (simp_all add: demo_http_pull_def demo_os_def path_str_def plain_name_def no_links_list get_def is_link_def)
  from http_pull_confined [OF demo_ext_laws(1) this(1,2) _ this(3)] show ?thesis by (simp add: demo_os_def)
qed

definition tls_config :: RepositoryConfig where
  "tls_config = NewRepositoryConfig ''http'' (Some [(''url'', JStr ''https://h''), (''certificate'', JStr ''pem'')])"

lemma http_tls_settings_panic_example:
  "\<exists>m. http_NewRepository demo_net tls_config = Panic m"
proof -
  have "GetString0 tls_config ''certificate'' = ''pem''" "GetString0 tls_config ''client_certificate'' = []"
    "GetString0 tls_config ''client_key'' = []"
    by (simp_all add: tls_config_def GetString0_def GetString_def rc_Get_def NewRepositoryConfig_def storageTypeKey_def)
  with http_tls_settings_panic [where N = demo_net and c = tls_config] show ?thesis
    by (cases "http_NewRepository demo_net tls_config") (simp_all add: demo_net_def)
qed

end
