(* ===== verification/PvcStore.thy ===== *)
theory PvcStore
  imports ObjectStores
begin

text \<open>
  \<open>pullman/storageproviders/pvc\<close>: a repository on mounted volumes. Nothing is copied: a pull makes one symbolic link per
  target in the directory of the command, to a path below the volume's mount.
\<close>

section \<open>Operations\<close>

definition defaultPVCMountBase :: string where
  "defaultPVCMountBase = ''/pvc_mounts''"

definition pvc_GetKey :: "RepositoryConfig \<Rightarrow> string" where
  "pvc_GetKey c = []"

text \<open>The client is the provider's mount base.\<close>

definition pvc_NewRepository :: "string \<Rightarrow> RepositoryConfig \<Rightarrow> (os, string) step" where
  "pvc_NewRepository pvcMountBase c =
     (let base = (if pvcMountBase = [] then defaultPVCMountBase else pvcMountBase)
      in andThen (attempt (os_Stat base)) (\<lambda>r. case r of
           Err err \<Rightarrow>
             if os_IsNotExist err
             then fail_with (ErrWrap ''the PVC mount base '%s' doesn't exist: %w'' [base] err)
             else fail_with (ErrWrap ''failed to access the PVC mount base '%s': %w'' [base] err)
         | Ok fileInfo \<Rightarrow>
             if \<not> fi_dir fileInfo then fail_with (ErrMsg ''the PVC mount base '%s' is not a directory'' [base])
             else ret base
         | Panic m \<Rightarrow> lift_res (Panic m)))"

fun pvc_link_targets :: "ext \<Rightarrow> string \<Rightarrow> string \<Rightarrow> Target list \<Rightarrow> (os, unit) step" where
  "pvc_link_targets X pvcDir destDir [] = ret ()"
| "pvc_link_targets X pvcDir destDir (pt # targets) =
     andThen (wrapErr (ErrText ''unable to join paths '%s' and '%s': %v'' [pvcDir, RemotePath pt])
       (SecureJoin X [pvcDir, RemotePath pt])) (\<lambda>fullModelPath.
     andThen (wrapErr (ErrWrap ''unable to access model local path '%s': %w'' [fullModelPath]) (os_Stat fullModelPath)) (\<lambda>_.
     andThen (wrapErr (ErrText ''unable to join paths '%s' and '%s': %v'' [destDir, path_Base fullModelPath])
       (SecureJoin X [destDir, path_Base fullModelPath])) (\<lambda>linkPath.
     andThen (wrapErr (ErrWrap ''unable to create symlink '%s': %w'' [linkPath]) (os_Symlink fullModelPath linkPath)) (\<lambda>_.
     pvc_link_targets X pvcDir destDir targets))))"

definition pvc_Pull :: "ext \<Rightarrow> string \<Rightarrow> PullCommand \<Rightarrow> (os, unit) step" where
  "pvc_Pull X pvcMountBase pc =
     (let targets = Targets pc; destDir = Directory pc
      in case GetString (pc_RepositoryConfig pc) ''name'' of
           None \<Rightarrow> fail_with (ErrMsg ''required configuration '%s' missing from command'' [''name''])
         | Some pvcName \<Rightarrow>
             andThen (wrapErr (ErrWrap ''unable to create directories '%s': %w'' [destDir]) (os_MkdirAll destDir)) (\<lambda>_.
             andThen (wrapErr (ErrText ''unable to join paths '%s' and '%s': %v'' [pvcMountBase, pvcName])
               (SecureJoin X [pvcMountBase, pvcName])) (\<lambda>pvcDir.
             pvc_link_targets X pvcDir destDir targets)))"

section \<open>What a pull makes\<close>

text \<open>
  Compared to \<open>t0\<close>, nothing that existed has changed, and every new entry is a directory on the way to \<open>dest\<close> or a
  link below \<open>dest\<close> to a path below \<open>mount\<close>.
\<close>

definition links_only :: "fpath \<Rightarrow> fpath \<Rightarrow> fs \<Rightarrow> fs \<Rightarrow> bool" where
  "links_only dest mount t0 t \<longleftrightarrow> (\<forall>p. get t p \<noteq> get t0 p \<longrightarrow> get t0 p = None \<and>
     ((prefix p dest \<and> get t p = Some Dir) \<or>
      (prefix dest p \<and> (\<exists>cs. list_all plain_name (mount @ cs) \<and> get t p = Some (Link (path_str (mount @ cs)))))))"

lemma links_only_refl [simp]: "links_only dest mount t t"
  by (simp add: links_only_def)

lemma links_only_put:
  assumes l: "links_only dest mount t0 t" and p: "get t p = None"
    and n: "(prefix p dest \<and> n = Dir) \<or> (prefix dest p \<and> (\<exists>cs. list_all plain_name (mount @ cs) \<and> n = Link (path_str (mount @ cs))))"
  shows "links_only dest mount t0 (put p n t)"
proof -
  have "p \<noteq> []" using p by auto
  then have g: "get (put p n t) q = (if q = p then Some n else get t q)" for q
    by (cases "q = []") (auto simp: get_put)
  have "get t0 p = None" using l p unfolding links_only_def by metis
  with l n show ?thesis unfolding links_only_def g by auto
qed

text \<open>A path that does not lead into \<open>dest\<close> keeps being free of links.\<close>

lemma links_only_no_links:
  assumes "links_only dest mount t0 t" "no_links t0 q" "\<not> prefix dest q"
  shows "no_links t q"
  unfolding no_links_def
proof (intro allI impI notI)
  fix i l assume i: "i \<le> length q" and e: "get t (take i q) = Some (Link l)"
  have "get t0 (take i q) \<noteq> Some (Link l)" using assms(2) i by (simp add: no_links_def)
  with assms(1) e have "prefix dest (take i q)" unfolding links_only_def by (metis node.distinct(3) option.inject)
  then have "prefix dest q" using take_is_prefix prefix_order.trans by blast
  with assms(3) show False by simp
qed

text \<open>The invariant of the loop: the directory is there, reached without links.\<close>

definition pvc_inv :: "fpath \<Rightarrow> fpath \<Rightarrow> fs \<Rightarrow> fs \<Rightarrow> bool" where
  "pvc_inv dest mount t0 t \<longleftrightarrow> links_only dest mount t0 t \<and> no_links t dest \<and> get t dest = Some Dir"

lemma mkdir_prefixes_links_only:
  assumes "no_links t (d @ cs)" "''..'' \<notin> set (d @ cs)" "prefix (d @ cs) dest" "get t d = Some Dir"
    "links_only dest mount t0 t" "mkdir_prefixes t d cs = Inr t'"
  shows "links_only dest mount t0 t' \<and> no_links t' (d @ cs) \<and> get t' (d @ cs) = Some Dir"
  using assms
proof (induction cs arbitrary: d t)
  case Nil
  then show ?case by simp
next
  case (Cons c cs)
  have nl: "no_links t (d @ [c])" using no_links_appendD [of t "d @ [c]" cs] Cons.prems(1) by simp
  have w: "r = d @ [c]" if "walk maxlinks t f [] (d @ [c]) = Inr r" for f r
    using walk_no_links [of t "[]" "d @ [c]" maxlinks f r] nl that Cons.prems(2) by simp
  have pre: "prefix (d @ [c]) dest"
    using Cons.prems(3) prefix_order.trans [of "d @ [c]" "(d @ [c]) @ cs" dest] by simp
  let ?t = "put (d @ [c]) Dir t"
  have put: "links_only dest mount t0 ?t" "no_links ?t (d @ c # cs)" "get ?t (d @ [c]) = Some Dir" if "get t (d @ [c]) = None"
  proof -
    have "get ?t q = (if q = d @ [c] then Some Dir else get t q)" for q by (cases "q = []") (auto simp: get_put)
    then show "links_only dest mount t0 ?t" "no_links ?t (d @ c # cs)" "get ?t (d @ [c]) = Some Dir"
      using links_only_put [OF Cons.prems(5) that, of Dir] pre Cons.prems(1) by (auto simp: no_links_def)
  qed
  have rest: "links_only dest mount t0 t' \<and> no_links t' (d @ c # cs) \<and> get t' (d @ c # cs) = Some Dir"
    if "links_only dest mount t0 u" "no_links u (d @ c # cs)" "get u (d @ [c]) = Some Dir"
      "mkdir_prefixes u (d @ [c]) cs = Inr t'" for u
    using Cons.IH [of u "d @ [c]"] Cons.prems(2,3) that by simp
  from Cons.prems(6) obtain q where q: "walk maxlinks t True [] (d @ [c]) = Inr q" by (auto split: sum.splits)
  have q': "q = d @ [c]" by (rule w [OF q])
  show ?case
  proof (cases "get t (d @ [c])")
    case None
    with Cons.prems(6) q q' obtain r where r: "walk maxlinks t False [] (d @ [c]) = Inr r"
      by (auto split: sum.splits)
    have "r = d @ [c]" by (rule w [OF r])
    with Cons.prems(6) q q' r None have "mkdir_prefixes ?t (d @ [c]) cs = Inr t'" by simp
    from rest [OF put [OF None] this] show ?thesis .
  next
    case (Some n)
    with Cons.prems(6) q q' have "n = Dir" "mkdir_prefixes t (d @ [c]) cs = Inr t'"
      by (auto split: node.splits)
    with rest [OF Cons.prems(5,1)] Some show ?thesis by simp
  qed
qed

lemma pvc_inv_MkdirAll:
  assumes "no_links (files s) dest" "list_all plain_name dest" "os_MkdirAll (path_str dest) s = (r, s')"
  shows "links_only dest mount (files s) (files s')" and "r = Ok () \<Longrightarrow> pvc_inv dest mount (files s) (files s')"
proof -
  have "files s' = files s \<or> (r = Ok () \<and> mkdir_prefixes (files s) [] dest = Inr (files s'))"
    using assms(3) comps_path_str [OF assms(2)]
    by (auto simp: os_MkdirAll_def syscall_def Let_def split: option.splits sum.splits)
  moreover have "r = Ok () \<Longrightarrow> mkdir_prefixes (files s) [] dest = Inr (files s')"
    using assms(3) comps_path_str [OF assms(2)] by (auto simp: os_MkdirAll_def syscall_Ok_iff split: sum.splits)
  ultimately show "links_only dest mount (files s) (files s')" and "r = Ok () \<Longrightarrow> pvc_inv dest mount (files s) (files s')"
    using mkdir_prefixes_links_only [of "files s" "[]" dest dest mount "files s" "files s'"] assms(1) plain_no_dotdot [OF assms(2)]
    by (auto simp: pvc_inv_def)
qed

lemma pvc_inv_Symlink:
  assumes inv: "pvc_inv dest mount t0 (files s)" and d: "list_all plain_name (dest @ cs)" "no_links (files s) (dest @ cs)"
    and m: "list_all plain_name (mount @ us)"
  shows "pvc_inv dest mount t0 (files (snd (os_Symlink (path_str (mount @ us)) (path_str (dest @ cs)) s)))"
proof -
  let ?n = "Link (path_str (mount @ us))"
  have put: "pvc_inv dest mount t0 (put (dest @ cs) ?n (files s))" if new: "get (files s) (dest @ cs) = None"
  proof -
    have ne: "cs \<noteq> []" using inv new by (auto simp: pvc_inv_def)
    have "get (put (dest @ cs) ?n (files s)) q = (if q = dest @ cs then Some ?n else get (files s) q)" for q
      using ne by (cases "q = []") (auto simp: get_put)
    moreover have "take i dest \<noteq> dest @ cs" for i using ne by (metis length_append length_take min.cobounded2 not_add_less1 length_greater_0_conv add_less_cancel_left le_less_trans less_add_same_cancel1 leD min.cobounded1)
    ultimately show ?thesis
      using inv links_only_put [of dest mount t0 "files s" "dest @ cs" ?n] m new ne by (auto simp: pvc_inv_def no_links_def)
  qed
  show ?thesis
    unfolding os_Symlink_def syscall_def Let_def
    using inv put by (auto split: option.splits sum.splits if_splits dest!: resolve_no_links [OF d(2,1)])
qed

lemma pvc_inv_link_targets:
  assumes X: "securejoin_scoped X" and dest: "list_all plain_name dest" "dest \<noteq> []"
    and m: "list_all plain_name (mount @ v)" "mount \<noteq> []"
    and dis: "\<not> prefix dest mount" "\<not> prefix mount dest" and nl: "no_links t0 (mount @ v)"
  shows "keeps (\<lambda>s. pvc_inv dest mount t0 (files s)) (pvc_link_targets X (path_str (mount @ v)) (path_str dest) ts)"
proof (induction ts)
  case Nil
  then show ?case by (simp add: keeps_def)
next
  case (Cons pt ts)
  let ?P = "\<lambda>s. pvc_inv dest mount t0 (files s)"
  have stat: "keeps ?P (os_Stat p)" for p by (simp add: keeps_def)
  have link: "keeps ?P (andThen (wrapErr w (SecureJoin X [path_str dest, b])) (\<lambda>l. andThen (wrapErr (w' l) (os_Symlink (path_str (mount @ us)) l)) k))"
    if us: "list_all plain_name (mount @ us)" and k: "\<And>u. keeps ?P (k u)" for w w' b us k
    unfolding keeps_def
  proof (intro allI impI)
    fix s :: os assume P: "?P s"
    show "?P (snd (andThen (wrapErr w (SecureJoin X [path_str dest, b]))
        (\<lambda>l. andThen (wrapErr (w' l) (os_Symlink (path_str (mount @ us)) l)) k) s))"
    proof (cases "SecureJoin_at X (files s) [path_str dest, b]")
      case (Ok l)
      then have j: "SecureJoin X [path_str dest, b] s = (Ok l, s)" by (simp add: SecureJoin_def)
      from P have "no_links (files s) dest" by (simp add: pvc_inv_def)
      from SecureJoin_below [OF X dest this j] obtain cs where
        l: "l = path_str (dest @ cs)" "list_all plain_name (dest @ cs)" "no_links (files s) (dest @ cs)" by blast
      have "?P (snd (wrapErr (w' l) (os_Symlink (path_str (mount @ us)) l) s))"
        using pvc_inv_Symlink [OF P l(2,3) us] by (simp add: l(1))
      with k j show ?thesis
        by (cases "wrapErr (w' l) (os_Symlink (path_str (mount @ us)) l) s")
          (auto simp: andThen_def keeps_def split: res.splits)
    qed (use P in \<open>simp_all add: andThen_def SecureJoin_def\<close>)
  qed
  have "\<not> prefix dest (mount @ v)"
    using dis prefix_same_cases [of dest "mount @ v" mount] by auto
  then have nlv: "no_links (files s) (mount @ v)" if "?P s" for s
    using links_only_no_links [OF _ nl] that by (auto simp: pvc_inv_def)
  show ?case
    unfolding keeps_def
  proof (intro allI impI)
    fix s :: os assume P: "?P s"
    show "?P (snd (pvc_link_targets X (path_str (mount @ v)) (path_str dest) (pt # ts) s))"
    proof (cases "SecureJoin_at X (files s) [path_str (mount @ v), RemotePath pt]")
      case (Ok q)
      then have j: "SecureJoin X [path_str (mount @ v), RemotePath pt] s = (Ok q, s)" by (simp add: SecureJoin_def)
      from SecureJoin_below [OF X m(1) _ nlv [OF P] j] m(2) obtain cs where
        q: "q = path_str (mount @ (v @ cs))" "list_all plain_name (mount @ (v @ cs))" by auto
      note k = keeps_andThen [OF keeps_wrapErr [OF stat] link [OF q(2) Cons.IH]]
      have "andThen (wrapErr w (SecureJoin X [path_str (mount @ v), RemotePath pt])) f s = f q s"
        for w and f :: "string \<Rightarrow> (os, unit) step" by (simp add: andThen_def j)
      then show ?thesis unfolding pvc_link_targets.simps(2) unfolding q(1) by (simp only:) (rule keepsD [OF k P])
    qed (use P in \<open>simp_all add: andThen_def SecureJoin_def\<close>)
  qed
qed

lemma pvc_Pull_links:
  assumes "securejoin_scoped X" "Directory pc = path_str dest" "list_all plain_name dest" "dest \<noteq> []"
    and "list_all plain_name mount" "mount \<noteq> []" "\<not> prefix dest mount" "\<not> prefix mount dest"
    and "no_links (files s) dest" "no_links (files s) mount"
  shows "links_only dest mount (files s) (files (snd (pvc_Pull X (path_str mount) pc s)))"
proof (cases "GetString (pc_RepositoryConfig pc) ''name''")
  case None
  then show ?thesis by (simp add: pvc_Pull_def Let_def split: option.split)
next
  case (Some nm)
  obtain r s1 where mk: "os_MkdirAll (path_str dest) s = (r, s1)" by fastforce
  note mk_inv = pvc_inv_MkdirAll [OF assms(9,3) mk, of mount]
  show ?thesis
  proof (cases r)
    case (Ok u)
    then have inv: "pvc_inv dest mount (files s) (files s1)" using mk_inv(2) by simp
    have nl1: "no_links (files s1) mount"
      using links_only_no_links [OF mk_inv(1) assms(10,7)] .
    show ?thesis
    proof (cases "SecureJoin_at X (files s1) [path_str mount, nm]")
      case (Ok q)
      then have j: "SecureJoin X [path_str mount, nm] s1 = (Ok q, s1)" by (simp add: SecureJoin_def)
      from SecureJoin_below [OF assms(1,5,6) nl1 j] obtain v where
        v: "q = path_str (mount @ v)" "list_all plain_name (mount @ v)" "no_links (files s1) (mount @ v)" by blast
      have "no_links (files s) (mount @ v)"
        unfolding no_links_def
      proof (intro allI impI notI)
        fix i l assume i: "i \<le> length (mount @ v)" and e: "get (files s) (take i (mount @ v)) = Some (Link l)"
        have "get (files s1) (take i (mount @ v)) = get (files s) (take i (mount @ v))"
          using mk_inv(1) e unfolding links_only_def by (metis option.distinct(1))
        with v(3) i e show False by (simp add: no_links_def)
      qed
      from keepsD [OF pvc_inv_link_targets [OF assms(1,3,4) v(2) assms(6-8) this] inv]
      have "links_only dest mount (files s) (files (snd (pvc_link_targets X q (path_str dest) (Targets pc) s1)))"
        by (simp add: pvc_inv_def v(1))
      with Some mk \<open>r = Ok u\<close> j show ?thesis by (simp add: pvc_Pull_def Let_def assms(2) andThen_def)
    qed (use Some mk \<open>r = Ok u\<close> mk_inv(1) in \<open>simp_all add: pvc_Pull_def Let_def assms(2) andThen_def SecureJoin_def\<close>)
  qed (use Some mk mk_inv(1) in \<open>simp_all add: pvc_Pull_def Let_def assms(2) andThen_def\<close>)
qed

section \<open>How far a pull reaches\<close>

lemma links_made_below:
  assumes X: "securejoin_scoped X" "list_all plain_name dest" "dest \<noteq> []"
  shows "keeps (\<lambda>s. lay_inv dest t0 (files s)) (pvc_link_targets X pvcDir (path_str dest) ts)"
proof (induction ts)
  case Nil
  then show ?case by (simp add: keeps_def)
next
  case (Cons pt ts)
  let ?I = "\<lambda>s. lay_inv dest t0 (files s)" and ?rest = "pvc_link_targets X pvcDir (path_str dest) ts"
  have reads: "keeps ?I (SecureJoin X es)" "keeps ?I (os_Stat p)" for es p by (simp_all add: keeps_def SecureJoin_def)
  have linked: "?I (snd (andThen (wrapErr w (os_Symlink old (path_str (dest @ cs)))) (\<lambda>_. ?rest) s))"
    if "?I s" "list_all plain_name (dest @ cs)" "no_links (files s) (dest @ cs)" for w old cs s
    by (rule keeps_at [where P = ?I, OF _ Cons.IH]) (use lay_inv_Symlink [OF that] in simp)
  have "keeps ?I (andThen (wrapErr w (SecureJoin X [path_str dest, b])) (\<lambda>l. andThen (wrapErr (w' l) (os_Symlink old l)) (\<lambda>_. ?rest)))" for w w' b old
    by (rule keeps_join [OF X]) (rule linked)
  then show ?case
    unfolding pvc_link_targets.simps
    by - (rule keeps_andThen [OF keeps_wrapErr [OF reads(1)]], rule keeps_andThen [OF keeps_wrapErr [OF reads(2)]])
qed

text \<open>Whatever the volume holds and wherever it is mounted, a pull stays in the directory of its command.\<close>

lemma pvc_Pull_stays:
  assumes "securejoin_scoped X" "Directory pc = path_str dest" "list_all plain_name dest" "dest \<noteq> []" "no_links (files s) dest"
  shows "stays_below dest (files s) (files (snd (pvc_Pull X base pc s)))"
proof (cases "GetString (pc_RepositoryConfig pc) ''name''")
  case (Some nm)
  obtain r u where mk: "os_MkdirAll (path_str dest) s = (r, u)" by fastforce
  have "confined dest (files s) (files u)"
    using confined_MkdirAll [of dest "files s" s "path_str dest"] assms(5) mk plain_no_dotdot [OF assms(3)] by (simp add: comps_path_str [OF assms(3)])
  then have st: "stays_below dest (files s) (files u)" by (rule stays_below_confined)
  show ?thesis
  proof (cases r)
    case (Ok x)
    let ?I = "\<lambda>v. lay_inv dest (files s) (files v)"
    have I: "?I u" using pvc_inv_MkdirAll(2) [OF assms(5,3) mk] Ok st assms(5) by (simp add: lay_inv_def pvc_inv_def stays_below_def)
    have "keeps ?I (SecureJoin X [base, nm])" by (simp add: keeps_def SecureJoin_def)
    then have "keeps ?I (andThen (wrapErr w (SecureJoin X [base, nm])) (\<lambda>v. pvc_link_targets X v (path_str dest) (Targets pc)))" for w
      by (intro keeps_andThen [OF keeps_wrapErr] links_made_below assms(1,3,4))
    from keepsD [OF this I] have "?I (snd (pvc_Pull X base pc s))"
      unfolding pvc_Pull_def Let_def assms(2) Some option.case andThen_wrapErr_Ok [where m = "os_MkdirAll (path_str dest)", OF mk [unfolded Ok]] .
    then show ?thesis by (simp add: lay_inv_def stays_below_def)
  qed (use Some mk st in \<open>simp_all add: pvc_Pull_def Let_def assms(2) andThen_def\<close>)
qed (simp add: pvc_Pull_def Let_def split: option.split)

interpretation pvc_pull: scoped_pull stays_below "\<lambda>X. pvc_Pull X base" for base
  by unfold_locales (rule pvc_Pull_stays)

text \<open>
  C31: A pull from a volume makes only links, and only to the volume: whatever the targets are, and also when it fails half way,
  nothing that existed is changed or removed, and everything new is a directory on the way to the command's
  directory or a symbolic link below it whose destination lies below the mount of all volumes.
\<close>

theorem pvc_pull_makes_links_below_mount:
  assumes "securejoin_scoped X" "Directory pc = path_str dest" "list_all plain_name dest" "dest \<noteq> []"
    and "list_all plain_name mount" "mount \<noteq> []" "\<not> prefix dest mount" "\<not> prefix mount dest"
    and "no_links (files s) dest" "no_links (files s) mount"
  shows "links_only dest mount (files s) (files (snd (pvc_Pull X (path_str mount) pc s)))"
  by (rule pvc_Pull_links [OF assms])

definition demo_pvc_pull :: PullCommand where
  "demo_pvc_pull = \<lparr>pc_RepositoryConfig = NewRepositoryConfig ''pvc'' (Some [(''name'', JStr ''vol'')]),
     Directory = ''/models'', Targets = [\<lparr>RemotePath = ''m'', LocalPath = ''out''\<rparr>]\<rparr>"

definition demo_pvc_fs :: fs where
  "demo_pvc_fs = [([''pvc''], Dir), ([''pvc'', ''vol''], Dir), ([''pvc'', ''vol'', ''m''], File 420 ''data'')]"

theorem pvc_pull_makes_links_below_mount_witness:
  "links_only [''models''] [''pvc''] demo_pvc_fs (files (snd (pvc_Pull demo_ext ''/pvc'' demo_pvc_pull (demo_os demo_pvc_fs)))) \<and>
   get (files (snd (pvc_Pull demo_ext ''/pvc'' demo_pvc_pull (demo_os demo_pvc_fs)))) [''models'', ''m''] = Some (Link ''/pvc/vol/m'')"
proof
  have "Directory demo_pvc_pull = path_str [''models'']" "list_all plain_name [''models'']" "list_all plain_name [''pvc'']"
    "no_links (files (demo_os demo_pvc_fs)) [''models'']" "no_links (files (demo_os demo_pvc_fs)) [''pvc'']"
    by (simp_all add: demo_pvc_pull_def demo_pvc_fs_def demo_os_def path_str_def plain_name_def no_links_list get_def is_link_def)
  from pvc_pull_makes_links_below_mount [OF demo_ext_laws(1) this(1,2) _ this(3) _ _ _ this(4,5)]
  show "links_only [''models''] [''pvc''] demo_pvc_fs (files (snd (pvc_Pull demo_ext ''/pvc'' demo_pvc_pull (demo_os demo_pvc_fs))))"
    by (simp add: demo_os_def path_str_def)
  show "get (files (snd (pvc_Pull demo_ext ''/pvc'' demo_pvc_pull (demo_os demo_pvc_fs)))) [''models'', ''m''] = Some (Link ''/pvc/vol/m'')"
    by code_simp
qed

text \<open>
  A pull from a volume does not look at the local paths of the targets: the link is named after the remote path, so a command that asks
  for another local name (a schema file to be stored as \<open>_schema.json\<close>, a model to be renamed) gets the same result as one
  that does not.
\<close>

lemma pvc_ignores_LocalPath:
  "pvc_Pull X base (pc\<lparr>Targets := map (\<lambda>t. t\<lparr>LocalPath := f t\<rparr>) ts\<rparr>) = pvc_Pull X base (pc\<lparr>Targets := ts\<rparr>)"
proof -
  have "pvc_link_targets X v d (map (\<lambda>t. t\<lparr>LocalPath := f t\<rparr>) ts) = pvc_link_targets X v d ts" for v d
    by (induction ts) simp_all
  then show ?thesis by (simp add: pvc_Pull_def Let_def split: option.split)
qed

end
