(* ===== verification/Puller.thy ===== *)
theory Puller
  imports Dotpath HttpStore PvcStore
begin

text \<open>
  \<open>model-serving-puller/puller\<close>: \<open>config.go\<close> (storage credentials) and \<open>puller.go\<close> (turning a load request into a pull and a
  request for the runtime, the size of a model on disk, and cleaning up).

  The pull manager is the argument \<open>pull\<close>: what one call of its \<open>Pull\<close> does to the file system.
\<close>

section \<open>config.go\<close>

record PullerConfiguration =
  RootModelDir :: string
  StorageConfigurationDir :: string

definition GetPullerConfigFromEnv :: "env \<Rightarrow> PullerConfiguration" where
  "GetPullerConfigFromEnv E =
     \<lparr>RootModelDir = GetEnvString E ''ROOT_MODEL_DIR'' ''/models'',
      StorageConfigurationDir = GetEnvString E ''STORAGE_CONFIG_DIR'' ''/storage-config''\<rparr>"

text \<open>The copy of \<open>default_bucket\<close> for s3.\<close>

definition copy_default_bucket :: "gomap \<Rightarrow> gomap" where
  "copy_default_bucket storageConfig =
     (if gm_get storageConfig ''type'' = JStr ''s3''
      then (case map_of storageConfig ''default_bucket'' of
          Some default_bucket \<Rightarrow>
            (case map_of storageConfig ''bucket'' of
               Some bucket \<Rightarrow> storageConfig
             | None \<Rightarrow> AList.update ''bucket'' default_bucket storageConfig)
        | None \<Rightarrow> storageConfig)
      else storageConfig)"

text \<open>The result \<open>None\<close> is the nil map, which the JSON text \<open>null\<close> gives.\<close>

definition GetStorageConfiguration :: "ext \<Rightarrow> PullerConfiguration \<Rightarrow> string \<Rightarrow> (os, gomap option) step" where
  "GetStorageConfiguration X cfg storageKey =
     andThen (SecureJoin X [StorageConfigurationDir cfg, storageKey]) (\<lambda>configPath.
     andThen (attempt (os_Stat configPath)) (\<lambda>st.
       if (case st of Err err \<Rightarrow> os_IsNotExist err | _ \<Rightarrow> False)
       then fail_with (ErrMsg ''Storage secretKey not found: %s'' [storageKey])
       else
     andThen (wrapErr (ErrText ''Could not read storage configuration from %s: %v'' [configPath]) (os_ReadFile configPath)) (\<lambda>bytes.
       case x_parse X bytes of
         None \<Rightarrow> fail_with (ErrText ''Could not parse storage configuration json from %s: %v'' [configPath] (ExtErr ''json''))
       | Some v \<Rightarrow>
           (case decode_map v of
              None \<Rightarrow> fail_with (ErrText ''Could not parse storage configuration json from %s: %v'' [configPath] (ExtErr ''json''))
            | Some m \<Rightarrow> ret (if v = JNull then None else Some (copy_default_bucket m))))))"

section \<open>The model key\<close>

record ModelKeyInfo =
  mk_ModelType :: json
  mk_Bucket :: string
  mk_DiskSizeBytes :: int
  mk_SchemaPath :: "string option"
  mk_StorageKey :: "string option"
  mk_StorageParams :: "(string \<times> string) list"

fun dec_ptr_string :: "json \<Rightarrow> string option option" where
  "dec_ptr_string JNull = Some None"
| "dec_ptr_string (JStr s) = Some (Some s)"
| "dec_ptr_string v = None"

fun dec_string_entries :: "gomap \<Rightarrow> (string \<times> string) list option" where
  "dec_string_entries [] = Some []"
| "dec_string_entries ((k, v) # m) =
     (case (dec_string v, dec_string_entries m) of (Some s, Some r) \<Rightarrow> Some ((k, s) # r) | _ \<Rightarrow> None)"

fun dec_string_map :: "json \<Rightarrow> (string \<times> string) list option" where
  "dec_string_map JNull = Some []"
| "dec_string_map (JObj m) = dec_string_entries (last_wins m)"
| "dec_string_map v = None"

fun dec_model_key :: "json \<Rightarrow> ModelKeyInfo option" where
  "dec_model_key JNull = Some \<lparr>mk_ModelType = JNull, mk_Bucket = [], mk_DiskSizeBytes = 0, mk_SchemaPath = None,
     mk_StorageKey = None, mk_StorageParams = []\<rparr>"
| "dec_model_key (JObj m) =
     (case (dec_string (field m ''bucket''), dec_int64 (field m ''disk_size_bytes''), dec_ptr_string (field m ''schema_path''),
            dec_ptr_string (field m ''storage_key''), dec_string_map (field m ''storage_params'')) of
        (Some b, Some d, Some sp, Some sk, Some ps) \<Rightarrow>
          Some \<lparr>mk_ModelType = dedup (field m ''model_type''), mk_Bucket = b, mk_DiskSizeBytes = d, mk_SchemaPath = sp,
            mk_StorageKey = sk, mk_StorageParams = ps\<rparr>
      | _ \<Rightarrow> None)"
| "dec_model_key v = None"

text \<open>\<open>json.Marshal\<close> of the struct, with its \<open>omitempty\<close> fields.\<close>

definition enc_model_key :: "ModelKeyInfo \<Rightarrow> json" where
  "enc_model_key k = JObj
     ((if mk_ModelType k = JNull then [] else [(''model_type'', mk_ModelType k)]) @
      (if mk_Bucket k = [] then [] else [(''bucket'', JStr (mk_Bucket k))]) @
      [(''disk_size_bytes'', JNum (NInt (mk_DiskSizeBytes k)))] @
      (case mk_SchemaPath k of None \<Rightarrow> [] | Some p \<Rightarrow> [(''schema_path'', JStr p)]) @
      (case mk_StorageKey k of None \<Rightarrow> [] | Some p \<Rightarrow> [(''storage_key'', JStr p)]) @
      (if mk_StorageParams k = [] then [] else [(''storage_params'', JObj (map (\<lambda>(a, b). (a, JStr b)) (mk_StorageParams k)))]))"

section \<open>The size of a model on disk\<close>

text \<open>
  \<open>filepath.Walk\<close> with the callback of \<open>getModelDiskSize\<close>: \<open>disk_walk\<close> visits a path whose information is known, \<open>disk_names\<close>
  the entries of a directory. The first argument bounds the nesting of calls, as the stack does: a cycle of links ends
  in a stack overflow.
\<close>

function disk_walk :: "nat \<Rightarrow> string \<Rightarrow> finfo \<Rightarrow> int \<Rightarrow> (os, int) step"
  and disk_names :: "nat \<Rightarrow> string \<Rightarrow> string list \<Rightarrow> int \<Rightarrow> (os, int) step"
  and getModelDiskSize :: "nat \<Rightarrow> string \<Rightarrow> (os, int) step" where
  "disk_walk 0 path info sz = lift_res (Panic ''stack overflow'')"
| "disk_walk (Suc n) path info sz =
     (if fi_link info
      then andThen (attempt (os_Readlink path)) (\<lambda>r. case r of
          Ok resolvedPath \<Rightarrow> andThen (getModelDiskSize n resolvedPath) (\<lambda>symlinkTargetSize. ret (sz + symlinkTargetSize))
        | _ \<Rightarrow> ret sz)
      else if \<not> fi_dir info then ret (sz + int (fi_size info))
      else andThen (os_ReadDir path) (\<lambda>es. disk_names n path (map fi_name es) sz))"
| "disk_names n path [] sz = ret sz"
| "disk_names n path (nm # names) sz =
     (let filename = path_Join [path, nm]
      in andThen (os_Lstat filename) (\<lambda>info.
         andThen (disk_walk n filename info sz) (\<lambda>sz'. disk_names n path names sz')))"
| "getModelDiskSize n modelPath =
     wrapErr (ErrWrap ''Error computing model's disk size: %w'' [])
       (andThen (os_Lstat modelPath) (\<lambda>info. disk_walk n modelPath info 0))"
  by pat_completeness auto
termination
  by (relation "measures [\<lambda>x. case x of Inl (n, _) \<Rightarrow> n | Inr (Inl (n, _)) \<Rightarrow> n | Inr (Inr (n, _)) \<Rightarrow> n,
      \<lambda>x. case x of Inl _ \<Rightarrow> 0 | Inr _ \<Rightarrow> 1,
      \<lambda>x. case x of Inr (Inl (_, _, names, _)) \<Rightarrow> length names | _ \<Rightarrow> 0]") auto

section \<open>puller.go\<close>

definition defaultStorageKey :: string where
  "defaultStorageKey = ''default''"

text \<open>The configuration from the storage secret; without a storage key in the request, a default one may be missing.\<close>

definition load_storage_config :: "ext \<Rightarrow> PullerConfiguration \<Rightarrow> ModelKeyInfo \<Rightarrow> (os, gomap option) step" where
  "load_storage_config X cfg modelKey =
     (case mk_StorageKey modelKey of
        None \<Rightarrow>
          (let stype = (case map_of (mk_StorageParams modelKey) ''type'' of Some t \<Rightarrow> t | None \<Rightarrow> []);
               keyToCheck = (if stype = [] then defaultStorageKey else defaultStorageKey @ ''_'' @ stype)
           in andThen (attempt (GetStorageConfiguration X cfg keyToCheck)) (\<lambda>r. case r of
                Ok c \<Rightarrow> ret c
              | _ \<Rightarrow> ret (Some [])))
      | Some key \<Rightarrow>
          wrapErr (ErrWrap ''Did not find storage config for key %s: %w'' [key]) (GetStorageConfiguration X cfg key))"

definition override_bucket :: "ModelKeyInfo \<Rightarrow> gomap option \<Rightarrow> gomap option" where
  "override_bucket modelKey storageConfig =
     (case storageConfig of
        None \<Rightarrow> None
      | Some m \<Rightarrow> if mk_Bucket modelKey \<noteq> [] \<and> gm_get m ''bucket'' \<noteq> JNull
          then Some (AList.update ''bucket'' (JStr (mk_Bucket modelKey)) m) else Some m)"

definition model_filename :: "string \<Rightarrow> string" where
  "model_filename modelPath =
     (let basePath = path_Base modelPath in if basePath = ''.'' \<or> basePath = [slash] then ''_model'' else basePath)"

definition schema_filename :: "string \<Rightarrow> string \<Rightarrow> string" where
  "schema_filename modelPathFilename schemaPath =
     (let f = path_Base schemaPath in if modelPathFilename = f then ''_schema.json'' else f)"

text \<open>The targets of the pull: the model, and the schema if there is one.\<close>

definition pull_targets :: "LoadModelRequest \<Rightarrow> ModelKeyInfo \<Rightarrow> Target list" where
  "pull_targets req modelKey =
     \<lparr>RemotePath = ModelPath req, LocalPath = model_filename (ModelPath req)\<rparr> #
     (case mk_SchemaPath modelKey of
        None \<Rightarrow> []
      | Some schemaPath \<Rightarrow> [\<lparr>RemotePath = schemaPath, LocalPath = schema_filename (model_filename (ModelPath req)) schemaPath\<rparr>])"

definition status_Errorf :: "code \<Rightarrow> string \<Rightarrow> goerr option \<Rightarrow> goerr" where
  "status_Errorf c m e = StatusErr c m e"

text \<open>
  \<open>stack\<close> bounds the size computation. The storage parameters are applied in the order of their association list.
\<close>

definition ProcessLoadModelRequest ::
  "ext \<Rightarrow> PullerConfiguration \<Rightarrow> (PullCommand \<Rightarrow> (os, unit) step) \<Rightarrow> nat \<Rightarrow> LoadModelRequest \<Rightarrow> (os, LoadModelRequest) step" where
  "ProcessLoadModelRequest X cfg pull stack req =
     (case Option.bind (x_parse X (ModelKey req)) dec_model_key of
        None \<Rightarrow> fail_with (ErrWrap ''Invalid modelKey in LoadModelRequest. Error processing JSON '%s': %w'' [ModelKey req] (ExtErr ''json''))
      | Some modelKey \<Rightarrow>
          andThen (load_storage_config X cfg modelKey) (\<lambda>storageConfig0.
          andThen (wrapErr (ErrWrap ''Unable to merge storage parameters from the storage config and the Predictor Storage field: %w'' [])
            (lift_res (ApplyParameterOverrides (mk_StorageParams modelKey) (override_bucket modelKey storageConfig0)))) (\<lambda>storageConfig.
          case as_string (gm_get (case storageConfig of Some m \<Rightarrow> m | None \<Rightarrow> []) ''type'') of
            None \<Rightarrow> fail_with (ErrMsg ''Predictor Storage field missing'' [])
          | Some stype \<Rightarrow>
              andThen (wrapErr (ErrText ''Error joining paths '%s' and '%s': %v'' [RootModelDir cfg, ModelId req])
                (SecureJoin X [RootModelDir cfg, ModelId req])) (\<lambda>modelDir.
              andThen (wrapErr (\<lambda>e. status_Errorf (x_code X e) ''Failed to pull model from storage due to error: %s'' (Some e))
                (pull \<lparr>pc_RepositoryConfig = NewRepositoryConfig stype storageConfig, Directory = modelDir,
                  Targets = pull_targets req modelKey\<rparr>)) (\<lambda>_.
              let modelFullPath = path_Join [modelDir, model_filename (ModelPath req)]
              in andThen (case mk_SchemaPath modelKey of
                  None \<Rightarrow> ret None
                | Some schemaPath \<Rightarrow>
                    (let f = schema_filename (model_filename (ModelPath req)) schemaPath
                     in andThen (wrapErr (ErrWrap ''Error joining paths '%s' and '%s': %w'' [modelDir, f]) (SecureJoin X [modelDir, f]))
                          (\<lambda>p. ret (Some p)))) (\<lambda>schemaFullPath.
              andThen (attempt (getModelDiskSize stack modelFullPath)) (\<lambda>sz.
              let modelKey' = modelKey\<lparr>mk_SchemaPath := schemaFullPath,
                    mk_DiskSizeBytes := (case sz of Ok n \<Rightarrow> n | _ \<Rightarrow> mk_DiskSizeBytes modelKey),
                    mk_StorageKey := None, mk_StorageParams := [], mk_Bucket := []\<rparr>
              in ret (req\<lparr>ModelPath := modelFullPath, ModelKey := x_print X (enc_model_key modelKey')\<rparr>)))))))) "

definition CleanupModel :: "ext \<Rightarrow> PullerConfiguration \<Rightarrow> string \<Rightarrow> (os, unit) step" where
  "CleanupModel X cfg modelID =
     andThen (SecureJoin X [RootModelDir cfg, modelID]) (\<lambda>pathToModel.
     wrapErr (ErrWrap ''Failed to delete model from local filesystem: %w'' []) (os_RemoveAll pathToModel))"

definition ClearLocalModelStorage :: "PullerConfiguration \<Rightarrow> string \<Rightarrow> (os, unit) step" where
  "ClearLocalModelStorage cfg exclude =
     ClearDirectoryContents (RootModelDir cfg) (Some (\<lambda>f. fi_name f \<noteq> exclude))"

definition ListModels :: "PullerConfiguration \<Rightarrow> (os, string list) step" where
  "ListModels cfg = andThen (os_ReadDir (RootModelDir cfg)) (\<lambda>entries. ret (map fi_name entries))"

end
