(* ===== verification/AdapterBase.thy ===== *)
theory AdapterBase
  imports Puller Mmesh
begin

text \<open>
  What the four adapters share: their configuration from the environment, the puller that an adapter may embed, the answer to a
  status request once the runtime is ready, and the choice among version directories. The adapters repeat this code; where they
  differ (a default, the name of the directory for adapted models), the difference is an argument.
\<close>

section \<open>Configuration\<close>

text \<open>
  \<open>ac_RuntimePort\<close>, \<open>ac_ContainerMemReqBytes\<close> and \<open>ac_MemBufferBytes\<close> are named after the runtime in each adapter. Go's \<open>int\<close> has 64
  bits.
\<close>

record AdapterConfiguration =
  ac_Port :: int
  ac_RuntimePort :: int
  ac_ContainerMemReqBytes :: int
  ac_MemBufferBytes :: int
  ac_CapacityInBytes :: int
  ac_MaxLoadingConcurrency :: int
  ac_ModelLoadingTimeoutMS :: int
  ac_DefaultModelSizeInBytes :: int
  ac_ModelSizeMultiplier :: f64
  ac_RuntimeVersion :: string
  ac_LimitModelConcurrency :: int
  ac_RootModelDir :: string
  ac_UseEmbeddedPuller :: bool

definition go_int :: "int \<Rightarrow> int" where
  "go_int v = (v + 2 ^ 63) mod 2 ^ 64 - 2 ^ 63"

text \<open>The constants at the head of each \<open>config.go\<close>: a variable of the environment and its default.\<close>

record adapter_constants =
  k_adapterPort :: "string \<times> int"
  k_runtimePort :: "string \<times> int"
  k_ContainerMemReqBytes :: "string \<times> int"
  k_MemBufferBytes :: "string \<times> int"
  k_maxLoadingConcurrency :: "string \<times> int"
  k_maxLoadingTimeoutMs :: "string \<times> int"
  k_defaultModelSize :: "string \<times> int"
  k_modelSizeMultiplier :: "string \<times> f64"
  k_runtimeVersion :: "string \<times> string"
  k_limitPerModelConcurrency :: "string \<times> int"
  k_rootModelDir :: "string \<times> string"
  k_useEmbeddedPuller :: "string \<times> bool"

text \<open>The variables that every adapter reads, in their order; the root directory is set later.\<close>

definition read_adapter_env :: "ext \<Rightarrow> env \<Rightarrow> adapter_constants \<Rightarrow> AdapterConfiguration res" where
  "read_adapter_env X E K =
     res_bind (case_prod (GetEnvInt E) (k_adapterPort K)) (\<lambda>port.
     res_bind (case_prod (GetEnvInt E) (k_runtimePort K)) (\<lambda>runtimePort.
     res_bind (case_prod (GetEnvInt E) (k_ContainerMemReqBytes K)) (\<lambda>memReq.
     res_bind (case_prod (GetEnvInt E) (k_MemBufferBytes K)) (\<lambda>memBuffer.
     res_bind (case_prod (GetEnvInt E) (k_maxLoadingConcurrency K)) (\<lambda>loadingConcurrency.
     res_bind (case_prod (GetEnvInt E) (k_maxLoadingTimeoutMs K)) (\<lambda>timeout.
     res_bind (case_prod (GetEnvInt E) (k_defaultModelSize K)) (\<lambda>defaultSize.
     res_bind (case_prod (GetEnvFloat X E) (k_modelSizeMultiplier K)) (\<lambda>multiplier.
     res_bind (case_prod (GetEnvInt E) (k_limitPerModelConcurrency K)) (\<lambda>limit.
     res_bind (case_prod (GetEnvBool E) (k_useEmbeddedPuller K)) (\<lambda>embedded.
       Ok \<lparr>ac_Port = port, ac_RuntimePort = runtimePort, ac_ContainerMemReqBytes = memReq, ac_MemBufferBytes = memBuffer,
           ac_CapacityInBytes = go_int (memReq - memBuffer), ac_MaxLoadingConcurrency = loadingConcurrency,
           ac_ModelLoadingTimeoutMS = timeout, ac_DefaultModelSizeInBytes = defaultSize, ac_ModelSizeMultiplier = multiplier,
           ac_RuntimeVersion = case_prod (GetEnvString E) (k_runtimeVersion K), ac_LimitModelConcurrency = limit, ac_RootModelDir = [],
           ac_UseEmbeddedPuller = embedded\<rparr>))))))))))"

text \<open>The checks at the end.\<close>

definition check_adapter_config :: "('a AdapterConfiguration_scheme) \<Rightarrow> 'a AdapterConfiguration_scheme res" where
  "check_adapter_config c =
     (if ac_ContainerMemReqBytes c < 0
      then Err (ErrMsg ''%s environment variable must be set to a positive integer, found value %v'' [''CONTAINER_MEM_REQ_BYTES''])
      else if f64_le_zero (ac_ModelSizeMultiplier c)
      then Err (ErrMsg ''%s environment variable must be greater than 0, found value %v'' [''MODELSIZE_MULTIPLIER''])
      else Ok c)"

section \<open>The embedded puller\<close>

text \<open>The puller inside an adapter: its configuration, what its pull manager does, and the bound on the size computation.\<close>

record EmbeddedPuller =
  ep_config :: PullerConfiguration
  ep_pull :: "PullCommand \<Rightarrow> (os, unit) step"
  ep_stack :: nat

definition embedded_load :: "ext \<Rightarrow> 'a AdapterConfiguration_scheme \<Rightarrow> EmbeddedPuller \<Rightarrow> LoadModelRequest \<Rightarrow> (os, LoadModelRequest) step" where
  "embedded_load X c P req =
     (if ac_UseEmbeddedPuller c then ProcessLoadModelRequest X (ep_config P) (ep_pull P) (ep_stack P) req else ret req)"

definition embedded_cleanup :: "ext \<Rightarrow> 'a AdapterConfiguration_scheme \<Rightarrow> EmbeddedPuller \<Rightarrow> string \<Rightarrow> (os, unit) step" where
  "embedded_cleanup X c P modelId =
     (if ac_UseEmbeddedPuller c
      then wrapErr (\<lambda>e. status_Errorf (x_code X e) ''Failed to delete model files from puller cache: %s'' (Some e))
             (CleanupModel X (ep_config P) modelId)
      else ret ())"

text \<open>The removal of a model's adapted files after the runtime has unloaded it.\<close>

definition remove_model_dir :: "ext \<Rightarrow> 'a AdapterConfiguration_scheme \<Rightarrow> string \<Rightarrow> (os, unit) step" where
  "remove_model_dir X c modelId =
     andThen (SecureJoin X [ac_RootModelDir c, modelId]) (\<lambda>modelIDDir.
     wrapErr (\<lambda>e. status_Errorf (x_code X e) ''Error while deleting the %s dir: %v'' (Some e)) (os_RemoveAll modelIDDir))"

text \<open>Clearing the directories at start-up; an error is reported as FAILING.\<close>

definition clear_model_dirs :: "'a AdapterConfiguration_scheme \<Rightarrow> EmbeddedPuller \<Rightarrow> string \<Rightarrow> (os, unit) step" where
  "clear_model_dirs c P sub =
     andThen (ClearDirectoryContents (ac_RootModelDir c) None) (\<lambda>_.
     if ac_UseEmbeddedPuller c then ClearLocalModelStorage (ep_config P) sub else ret ())"

section \<open>Responses\<close>

definition load_response :: "ext \<Rightarrow> 'a AdapterConfiguration_scheme \<Rightarrow> LoadModelRequest \<Rightarrow> LoadModelResponse" where
  "load_response X c req =
     \<lparr>SizeInBytes = CalcMemCapacity X (ModelKey req) (ac_DefaultModelSizeInBytes c) (ac_ModelSizeMultiplier c),
      MaxConcurrency = word_of_int (ac_LimitModelConcurrency c)\<rparr>"

definition ready_status :: "'a AdapterConfiguration_scheme \<Rightarrow> (string \<times> nat list) list \<Rightarrow> RuntimeStatusResponse" where
  "ready_status c mis =
     \<lparr>rs_Status = READY, CapacityInBytes = word_of_int (ac_CapacityInBytes c),
      MaxLoadingConcurrency = word_of_int (ac_MaxLoadingConcurrency c), ModelLoadingTimeoutMs = word_of_int (ac_ModelLoadingTimeoutMS c),
      DefaultModelSizeInBytes = word_of_int (ac_DefaultModelSizeInBytes c), RuntimeVersion = ac_RuntimeVersion c,
      LimitModelConcurrency = (ac_LimitModelConcurrency c > 0), MethodInfos = mis\<rparr>"

section \<open>Model types and version directories\<close>

text \<open>The type in lower case, up to a colon.\<close>

definition plain_model_type :: "string \<Rightarrow> string" where
  "plain_model_type modelType = to_lower (hd (split_on (CHR '':'') modelType))"

text \<open>The loop of \<open>largestNumberDir\<close>, with its two variables.\<close>

fun largest_number_loop :: "int \<Rightarrow> string \<Rightarrow> finfo list \<Rightarrow> string" where
  "largest_number_loop largestInt largestDir [] = largestDir"
| "largest_number_loop largestInt largestDir (f # fs) =
     (if \<not> fi_dir f then largest_number_loop largestInt largestDir fs
      else (case Atoi (fi_name f) of
          None \<Rightarrow> []
        | Some i \<Rightarrow> if i > largestInt then largest_number_loop i (fi_name f) fs else largest_number_loop largestInt largestDir fs))"

definition largestNumberDir :: "finfo list \<Rightarrow> string" where
  "largestNumberDir fileInfos = largest_number_loop 0 [] fileInfos"

section \<open>Runtimes with a repository\<close>

text \<open>
  The client of Triton and of MLServer, which have the same calls. They are steps, so that a call may answer differently each time.
\<close>

record repository_client =
  rc_ServerReady :: "(os, bool) step"
  rc_RepositoryIndex :: "(os, string list) step"
  rc_ModelLoad :: "string \<Rightarrow> (os, unit) step"
  rc_ModelUnload :: "string \<Rightarrow> (os, unit) step"
  rc_ServerMetadata :: "(os, string) step"

text \<open>The loop at start-up over the models that the runtime lists.\<close>

fun unload_listed :: "repository_client \<Rightarrow> string list \<Rightarrow> (os, unit) step" where
  "unload_listed C [] = ret ()"
| "unload_listed C (m # ms) = andThen (rc_ModelUnload C m) (\<lambda>_. unload_listed C ms)"

end
