(* ===== verification/PullerProps.thy ===== *)
theory PullerProps
  imports Puller
begin

text \<open>What the puller guarantees: sizes, local paths, confinement, cleaning up, and the rewritten model key.\<close>

section \<open>The size of a model on disk\<close>

text \<open>A well-formed tree: keys are distinct lists of plain names, and every entry lies in a directory.\<close>

definition tree_keys :: "fs \<Rightarrow> fpath set" where
  "tree_keys t = fst ` set t"

definition wf_tree :: "fs \<Rightarrow> bool" where
  "wf_tree t \<longleftrightarrow> (\<forall>q \<in> tree_keys t. q \<noteq> [] \<and> list_all plain_name q \<and> get t (butlast q) = Some Dir)"

definition file_size :: "fs \<Rightarrow> fpath \<Rightarrow> int" where
  "file_size t q = (case get t q of Some (File m c) \<Rightarrow> int (length c) | _ \<Rightarrow> 0)"

text \<open>The specification: the total length of the files at or below a path.\<close>

definition tree_size :: "fs \<Rightarrow> fpath \<Rightarrow> int" where
  "tree_size t p = (\<Sum>q \<in> {q \<in> tree_keys t. prefix p q}. file_size t q)"

definition link_free :: "fs \<Rightarrow> fpath \<Rightarrow> bool" where
  "link_free t p \<longleftrightarrow> (\<forall>q \<in> tree_keys t. prefix p q \<longrightarrow> (\<forall>l. get t q \<noteq> Some (Link l)))"

lemma tree_keys_get: "q \<noteq> [] \<Longrightarrow> q \<in> tree_keys t \<longleftrightarrow> get t q \<noteq> None"
  by (simp add: tree_keys_def get_def map_of_eq_None_iff)

lemma finite_tree_keys [simp]: "finite (tree_keys t)"
  by (simp add: tree_keys_def)

lemma wf_tree_prefix:
  assumes "wf_tree t" "p @ [x] @ q \<in> tree_keys t"
  shows "p @ [x] \<in> tree_keys t"
  using assms(2)
proof (induction q rule: rev_induct)
  case Nil
  then show ?case by simp
next
  case (snoc y ys)
  then have "get t (butlast (p @ [x] @ ys @ [y])) = Some Dir" using assms(1) unfolding wf_tree_def by blast
  then have "get t (p @ [x] @ ys) = Some Dir" by (simp add: butlast_append)
  then show ?case using snoc.IH tree_keys_get [of "p @ [x] @ ys" t] by simp
qed

lemma wf_real_dirs: "wf_tree t \<Longrightarrow> get t p = Some Dir \<Longrightarrow> real_dirs t p"
proof (induction p rule: rev_induct)
  case Nil
  then show ?case by (simp add: real_dirs_def)
next
  case (snoc x xs)
  then have "xs @ [x] \<in> tree_keys t" by (simp add: tree_keys_get)
  with snoc show ?case by (auto simp: real_dirs_snoc wf_tree_def)
qed

lemma wf_plain: "wf_tree t \<Longrightarrow> q \<in> tree_keys t \<Longrightarrow> list_all plain_name q"
  by (simp add: wf_tree_def)

lemma prefix_below:
  assumes "prefix p q" "q \<noteq> p"
  shows "\<exists>x r. q = p @ [x] @ r"
proof -
  obtain zs where "q = p @ zs" using assms(1) by (auto simp: prefix_def)
  with assms(2) show ?thesis by (cases zs) auto
qed

lemma tree_size_dir:
  assumes wf: "wf_tree t" and d: "get t p = Some Dir"
  shows "tree_size t p = (\<Sum>x \<leftarrow> entry_names t p. tree_size t (p @ [x]))"
proof -
  let ?K = "\<lambda>p. {q \<in> tree_keys t. prefix p q}"
  have split: "?K p - {p} = (\<Union>x \<in> set (entry_names t p). ?K (p @ [x]))"
  proof
    show "?K p - {p} \<subseteq> (\<Union>x \<in> set (entry_names t p). ?K (p @ [x]))"
    proof
      fix q assume "q \<in> ?K p - {p}"
      then obtain x r where q: "q \<in> tree_keys t" "q = p @ [x] @ r" using prefix_below [of p q] by auto
      then have "p @ [x] \<in> tree_keys t" using wf_tree_prefix [OF wf] by blast
      then show "q \<in> (\<Union>x \<in> set (entry_names t p). ?K (p @ [x]))"
        using q by (auto simp: entry_names_set tree_keys_get intro!: exI [of _ x])
    qed
  next
    show "(\<Union>x \<in> set (entry_names t p). ?K (p @ [x])) \<subseteq> ?K p - {p}"
      by (auto dest: append_prefixD)
  qed
  have "tree_size t p = (\<Sum>q \<in> ?K p - {p}. file_size t q)"
    unfolding tree_size_def by (rule sum.mono_neutral_right) (auto simp: file_size_def d)
  also have "\<dots> = (\<Sum>x \<in> set (entry_names t p). \<Sum>q \<in> ?K (p @ [x]). file_size t q)"
    unfolding split by (rule sum.UNION_disjoint) (auto simp: prefix_def)
  also have "\<dots> = (\<Sum>x \<leftarrow> entry_names t p. tree_size t (p @ [x]))"
    using entry_names_sorted(2) [of t p] by (simp add: tree_size_def sum_list_distinct_conv_sum_set)
  finally show ?thesis .
qed

lemma tree_size_file:
  assumes wf: "wf_tree t" and f: "get t p = Some (File m c)"
  shows "tree_size t p = int (length c)"
proof -
  have ne: "p \<noteq> []" using f by auto
  have "{q \<in> tree_keys t. prefix p q} = {p}"
  proof
    show "{q \<in> tree_keys t. prefix p q} \<subseteq> {p}"
    proof
      fix q assume "q \<in> {q \<in> tree_keys t. prefix p q}"
      then have q: "q \<in> tree_keys t" "prefix p q" by auto
      show "q \<in> {p}"
      proof (rule ccontr)
        assume "q \<notin> {p}"
        with q(2) obtain x r where "q = p @ [x] @ r" using prefix_below [of p q] by auto
        then have "p @ [x] \<in> tree_keys t" using wf_tree_prefix [OF wf, of p x r] q(1) by simp
        then have "get t p = Some Dir" using wf by (auto simp: wf_tree_def)
        with f show False by simp
      qed
    qed
  next
    show "{p} \<subseteq> {q \<in> tree_keys t. prefix p q}" using f ne by (simp add: tree_keys_get)
  qed
  then show ?thesis by (simp add: tree_size_def file_size_def f)
qed

text \<open>Calls when the environment makes none fail.\<close>

definition quiet :: "os \<Rightarrow> bool" where
  "quiet s \<longleftrightarrow> (\<forall>n. faults s n = None)"

lemma resolve_key:
  assumes "wf_tree t" "p \<in> tree_keys t"
  shows "resolve t False (path_str p) = Inr p"
proof -
  obtain b x where p: "p = b @ [x]" using assms by (metis wf_tree_def rev_exhaust)
  have "get t b = Some Dir" using assms unfolding wf_tree_def p by fastforce
  from resolve_real [OF wf_real_dirs [OF assms(1) this]] show ?thesis using wf_plain [OF assms] by (simp add: p)
qed

lemma syscall_quiet:
  "quiet s \<Longrightarrow> f (files s) = Inr (x, files s) \<Longrightarrow> \<exists>s'. syscall p f s = (Ok x, s') \<and> files s' = files s \<and> quiet s'"
  by (simp add: syscall_def quiet_def Let_def)

lemma Lstat_quiet:
  assumes "wf_tree (files s)" "p \<in> tree_keys (files s)" "quiet s" "get (files s) p = Some n"
  shows "\<exists>s'. os_Lstat (path_str p) s = (Ok (node_info (path_Base (path_str p)) n), s') \<and> files s' = files s \<and> quiet s'"
  unfolding os_Lstat_def by (rule syscall_quiet [OF assms(3)]) (simp add: lookup_def resolve_key [OF assms(1,2)] assms(4))

lemma ReadDir_quiet:
  assumes "wf_tree (files s)" "p \<in> tree_keys (files s)" "quiet s" "get (files s) p = Some Dir"
  shows "\<exists>s'. os_ReadDir (path_str p) s = (Ok (dir_entries (files s) p), s') \<and> files s' = files s \<and> quiet s'"
proof -
  have "no_links (files s) p" by (rule real_dirs_no_links [OF wf_real_dirs [OF assms(1,4)]])
  have "resolve (files s) True (path_str p) = Inr p"
    using walk_real_dirs [of "files s" "[]" p maxlinks True "[]"] wf_real_dirs [OF assms(1,4)] plain_no_dotdot [OF wf_plain [OF assms(1,2)]]
    by (simp add: resolve_def comps_path_str [OF wf_plain [OF assms(1,2)]])
  then show ?thesis
    unfolding os_ReadDir_def by (intro syscall_quiet [OF assms(3)]) (simp add: lookup_def assms(4))
qed

lemma node_info_name: "fi_name (node_info x n) = x"
  by (cases n) simp_all

lemma dir_entries_names: "map fi_name (dir_entries t p) = entry_names t p"
  by (auto simp: dir_entries_def node_info_name comp_def split: option.split intro!: map_idI)

lemma disk_walk_size:
  assumes "wf_tree (files s)" "link_free (files s) p" "p \<in> tree_keys (files s)" "get (files s) p = Some nd" "quiet s"
    and "\<forall>q \<in> tree_keys (files s). prefix p q \<longrightarrow> length q < length p + n"
  shows "\<exists>s'. disk_walk n (path_str p) (node_info x nd) sz s = (Ok (sz + tree_size (files s) p), s') \<and> files s' = files s \<and> quiet s'"
  using assms
proof (induction n arbitrary: p nd x sz s)
  case 0
  then have "length p < length p" by force
  then show ?case by simp
next
  case (Suc n)
  show ?case
  proof (cases nd)
    case (Link l)
    with Suc.prems(2-4) show ?thesis by (auto simp: link_free_def)
  next
    case (File m c)
    with tree_size_file [OF Suc.prems(1)] Suc.prems(4,5) show ?thesis by simp
  next
    case Dir
    have dir: "get (files s) p = Some Dir" using Suc.prems(4) Dir by simp
    have pn: "list_all plain_name p" "p \<noteq> []" using Suc.prems(1,3) by (auto simp: wf_tree_def)
    have names: "\<exists>s'. disk_names n (path_str p) xs sz u = (Ok (sz + (\<Sum>x \<leftarrow> xs. tree_size (files s) (p @ [x]))), s') \<and>
        files s' = files s \<and> quiet s'"
      if "set xs \<subseteq> set (entry_names (files s) p)" "files u = files s" "quiet u" for xs sz u
      using that
    proof (induction xs arbitrary: sz u)
      case Nil
      then show ?case by simp
    next
      case (Cons x xs)
      from Cons.prems(1) obtain nx where nx: "get (files s) (p @ [x]) = Some nx" by (auto simp: entry_names_set)
      then have key: "p @ [x] \<in> tree_keys (files s)" by (simp add: tree_keys_get)
      from wf_plain [OF Suc.prems(1) this] have pl: "list_all plain_name (p @ [x])" .
      obtain u1 where u1: "os_Lstat (path_str (p @ [x])) u = (Ok (node_info (path_Base (path_str (p @ [x]))) nx), u1)"
        "files u1 = files s" "quiet u1"
        using Lstat_quiet [of u "p @ [x]" nx] Suc.prems(1) key nx Cons.prems(2,3) by auto
      have "link_free (files u1) (p @ [x])" using Suc.prems(2) u1(2) by (auto simp: link_free_def dest: append_prefixD)
      moreover have "\<forall>q \<in> tree_keys (files u1). prefix (p @ [x]) q \<longrightarrow> length q < length (p @ [x]) + n"
        using Suc.prems(6) u1(2) by (auto dest: append_prefixD)
      ultimately obtain u2 where u2: "disk_walk n (path_str (p @ [x])) (node_info (path_Base (path_str (p @ [x]))) nx) sz u1 =
          (Ok (sz + tree_size (files s) (p @ [x])), u2)" "files u2 = files s" "quiet u2"
        using Suc.IH [of u1 "p @ [x]" nx] Suc.prems(1) key nx u1(2,3) by metis
      obtain u3 where "disk_names n (path_str p) xs (sz + tree_size (files s) (p @ [x])) u2 =
          (Ok (sz + tree_size (files s) (p @ [x]) + (\<Sum>x \<leftarrow> xs. tree_size (files s) (p @ [x]))), u3)" "files u3 = files s" "quiet u3"
        using Cons.IH [of u2 "sz + tree_size (files s) (p @ [x])"] Cons.prems(1) u2(2,3) by auto
      with u1(1) u2(1) show ?case
        by (simp add: path_Join_path_str [OF pl pn(2)] andThen_def add.assoc Let_def)
    qed
    obtain s1 where s1: "os_ReadDir (path_str p) s = (Ok (dir_entries (files s) p), s1)" "files s1 = files s" "quiet s1"
      using ReadDir_quiet [OF Suc.prems(1,3,5) dir] by blast
    from names [OF order_refl s1(2,3), of sz] obtain s2 where
      "disk_names n (path_str p) (entry_names (files s) p) sz s1 = (Ok (sz + tree_size (files s) p), s2)" "files s2 = files s" "quiet s2"
      using tree_size_dir [OF Suc.prems(1) dir] by auto
    with s1(1) Dir show ?thesis by (simp add: andThen_def dir_entries_names)
  qed
qed

lemma disk_size_plain:
  assumes "wf_tree (files s)" "link_free (files s) p" "get (files s) p \<noteq> None" "p \<noteq> []" "quiet s"
    and "\<forall>q \<in> tree_keys (files s). length q < n"
  shows "\<exists>s'. getModelDiskSize n (path_str p) s = (Ok (tree_size (files s) p), s') \<and> files s' = files s \<and> quiet s'"
proof -
  obtain nd where nd: "get (files s) p = Some nd" using assms(3) by blast
  have key: "p \<in> tree_keys (files s)" using assms(3,4) by (simp add: tree_keys_get)
  obtain s1 where s1: "os_Lstat (path_str p) s = (Ok (node_info (path_Base (path_str p)) nd), s1)" "files s1 = files s" "quiet s1"
    using Lstat_quiet [OF assms(1) key assms(5) nd] by blast
  obtain s2 where "disk_walk n (path_str p) (node_info (path_Base (path_str p)) nd) 0 s1 = (Ok (0 + tree_size (files s1) p), s2)"
    "files s2 = files s1" "quiet s2"
    using disk_walk_size [of s1 p nd n "path_Base (path_str p)" 0] assms(1,2,6) key nd s1(2,3) by fastforce
  with s1 show ?thesis by (simp add: andThen_def)
qed

lemma disk_size_link:
  assumes "wf_tree (files s)" "link_free (files s) p" "get (files s) p \<noteq> None" "p \<noteq> []" "quiet s"
    and "\<forall>q \<in> tree_keys (files s). length q < n" "get (files s) q = Some (Link (path_str p))"
  shows "\<exists>s'. getModelDiskSize (Suc n) (path_str q) s = (Ok (tree_size (files s) p), s') \<and> files s' = files s"
proof -
  let ?nd = "Link (path_str p)"
  have ne: "q \<noteq> []" using assms(7) by auto
  then have key: "q \<in> tree_keys (files s)" using assms(7) by (simp add: tree_keys_get)
  obtain s1 where s1: "os_Lstat (path_str q) s = (Ok (node_info (path_Base (path_str q)) ?nd), s1)" "files s1 = files s" "quiet s1"
    using Lstat_quiet [OF assms(1) key assms(5,7)] by blast
  obtain s2 where s2: "os_Readlink (path_str q) s1 = (Ok (path_str p), s2)" "files s2 = files s1" "quiet s2"
    using syscall_quiet [OF s1(3), of "\<lambda>t. case lookup t False (path_str q) of Inl e \<Rightarrow> Inl e | Inr (q, Link l) \<Rightarrow> Inr (l, t) | Inr (q, n) \<Rightarrow> Inl EINVAL"
      "path_str p" "path_str q"] resolve_key [OF assms(1) key] assms(7) s1(2)
    by (auto simp: os_Readlink_def lookup_def)
  obtain s3 where "getModelDiskSize n (path_str p) s2 = (Ok (tree_size (files s) p), s3)" "files s3 = files s"
    using disk_size_plain [of s2 p n] assms s1(2) s2(2,3) by auto
  with s1(1) s2(1) show ?thesis
    by (simp add: andThen_def attempt_def del: getModelDiskSize.simps add: getModelDiskSize.simps [of "Suc n"])
qed

text \<open>
  C39: The size that is reported to the runtime is the size of the model: for a path in a well-formed tree with no links below it,
  \<open>getModelDiskSize\<close> returns the total length of all files at or below the path, and for a link to such a path (as the
  volume provider makes them) the same of its destination; a stack deeper than the tree is enough for it to
  return, and the tree is unchanged.
\<close>

theorem disk_size_is_total_file_length:
  assumes "wf_tree (files s)" "link_free (files s) p" "get (files s) p \<noteq> None" "p \<noteq> []" "quiet s"
    and "\<forall>q \<in> tree_keys (files s). length q < n" "get (files s) q = Some (Link (path_str p))"
  shows "(\<exists>s'. getModelDiskSize n (path_str p) s = (Ok (tree_size (files s) p), s') \<and> files s' = files s) \<and>
    (\<exists>s'. getModelDiskSize (Suc n) (path_str q) s = (Ok (tree_size (files s) p), s') \<and> files s' = files s)"
  using disk_size_plain [OF assms(1-6)] disk_size_link [OF assms] by blast

definition demo_tree :: fs where
  "demo_tree = [([''pvc''], Dir), ([''pvc'', ''m''], Dir), ([''pvc'', ''m'', ''a''], File 420 ''abc''),
     ([''pvc'', ''m'', ''b''], File 420 ''de''), ([''models''], Dir), ([''models'', ''x''], Link ''/pvc/m'')]"

theorem disk_size_is_total_file_length_witness:
  "\<exists>s'. getModelDiskSize 5 ''/models/x'' (demo_os demo_tree) = (Ok 5, s')"
proof -
  have "tree_size demo_tree [''pvc'', ''m''] = 5"
  proof -
    have "{q \<in> tree_keys demo_tree. prefix [''pvc'', ''m''] q} = set (filter (prefix [''pvc'', ''m'']) (map fst demo_tree))"
      by (simp add: tree_keys_def)
    also have "filter (prefix [''pvc'', ''m'']) (map fst demo_tree) = [[''pvc'', ''m''], [''pvc'', ''m'', ''a''], [''pvc'', ''m'', ''b'']]"
      by (simp add: demo_tree_def)
    finally have "tree_size demo_tree [''pvc'', ''m''] = sum (file_size demo_tree) {[''pvc'', ''m''], [''pvc'', ''m'', ''a''], [''pvc'', ''m'', ''b'']}"
      by (simp only: tree_size_def list.set)
    then show ?thesis by (simp add: file_size_def demo_tree_def get_def)
  qed
  moreover have "wf_tree demo_tree"
    by (simp add: wf_tree_def tree_keys_def plain_name_def get_def demo_tree_def)
  moreover have "link_free demo_tree [''pvc'', ''m'']"
    by (simp add: link_free_def tree_keys_def get_def demo_tree_def)
  moreover have "\<forall>q \<in> tree_keys demo_tree. length q < 4"
    by (simp add: tree_keys_def demo_tree_def)
  moreover have "quiet (demo_os demo_tree)" "files (demo_os demo_tree) = demo_tree" by (simp_all add: quiet_def demo_os_def)
  moreover have "get demo_tree [''pvc'', ''m''] \<noteq> None" "get demo_tree [''models'', ''x''] = Some (Link (path_str [''pvc'', ''m'']))"
    by (simp_all add: get_def demo_tree_def path_str_def)
  moreover have "path_str [''models'', ''x''] = ''/models/x''" "Suc 4 = (5 :: nat)" by (simp_all add: path_str_def)
  ultimately show ?thesis
    using disk_size_is_total_file_length [of "demo_os demo_tree" "[''pvc'', ''m'']" 4 "[''models'', ''x'']"] by (metis list.distinct(1))
qed

section \<open>Confinement of a load\<close>

text \<open>Steps that only read.\<close>

named_theorems reads \<open>steps that leave the tree alone\<close>

lemma reads_calls [reads]:
  "keeps (\<lambda>u. Q (files u)) (os_Stat p)" "keeps (\<lambda>u. Q (files u)) (os_Lstat p)" "keeps (\<lambda>u. Q (files u)) (os_ReadDir p)"
  "keeps (\<lambda>u. Q (files u)) (os_ReadFile p)" "keeps (\<lambda>u. Q (files u)) (os_Readlink p)" "keeps (\<lambda>u. Q (files u)) (SecureJoin X es)"
  by (simp_all add: keeps_def SecureJoin_def)

lemma reads_GetStorageConfiguration [reads]: "keeps (\<lambda>u. Q (files u)) (GetStorageConfiguration X cfg k)"
  unfolding GetStorageConfiguration_def
  by (auto split: option.split res.split intro!: keeps_intro reads)

lemma reads_load_storage_config [reads]: "keeps (\<lambda>u. Q (files u)) (load_storage_config X cfg k)"
  unfolding load_storage_config_def Let_def
  by (auto split: option.split res.split intro!: keeps_intro reads)

lemma reads_disk_size:
  "keeps (\<lambda>u. Q (files u)) (disk_walk n path info sz)"
  "keeps (\<lambda>u. Q (files u)) (disk_names n path names sz)"
  "keeps (\<lambda>u. Q (files u)) (getModelDiskSize n path)"
proof (induction n path info sz and n path names sz and n path rule: disk_walk_disk_names_getModelDiskSize.induct)
  case (2 n path info sz)
  then show ?case by (auto simp del: getModelDiskSize.simps split: res.split intro!: keeps_intro reads)
next
  case (4 n path nm names sz)
  then show ?case by (auto simp: Let_def intro!: keeps_intro reads)
next
  case (5 n modelPath)
  show ?case unfolding getModelDiskSize.simps by (intro keeps_intro reads 5)
qed (simp_all add: keeps_def)

text \<open>
  Where the join of a model's id to a root leads: at or below \<open>d\<close>, without links. This holds of the root itself, and, for an id
  that is a plain name, of the model's own directory.
\<close>

definition joins_below :: "ext \<Rightarrow> fs \<Rightarrow> string \<Rightarrow> string \<Rightarrow> fpath \<Rightarrow> bool" where
  "joins_below X t r mid d \<longleftrightarrow> (\<forall>q. SecureJoin_at X t [r, mid] = Ok q \<longrightarrow>
     (\<exists>cs. q = path_str (d @ cs) \<and> list_all plain_name (d @ cs) \<and> no_links t (d @ cs)))"

lemma joins_below_root:
  "securejoin_scoped X \<Longrightarrow> list_all plain_name root \<Longrightarrow> root \<noteq> [] \<Longrightarrow> no_links t root \<Longrightarrow> joins_below X t (path_str root) mid root"
  unfolding joins_below_def securejoin_scoped_def SecureJoin_at_def by (auto split: if_splits)

lemma joins_below_model:
  assumes "securejoin_plain X" "list_all plain_name (root @ [mid])" "root \<noteq> []" "real_dirs t root" "\<not> is_link (get t (root @ [mid]))"
  shows "joins_below X t (path_str root) mid (root @ [mid])"
proof -
  have "x_securejoin X t (path_str root) mid = Ok (path_str (root @ [mid]))"
    using securejoin_plainD [OF assms(1,4) _ assms(3) _ assms(5)] assms(2) by simp
  moreover have "no_links t (root @ [mid])" using assms(4,5) by (auto simp: no_links_snoc real_dirs_no_links is_link_def)
  ultimately show ?thesis using assms(2) unfolding joins_below_def SecureJoin_at_def by (auto intro!: exI [of _ "[]"])
qed

text \<open>A load whose pull stays within the directory of its command stays, in the same sense, where the model's id leads.\<close>

context scoped_pull
begin

lemma pull_below:
  assumes X: "securejoin_scoped X" "d \<noteq> []" "\<And>t. R d t0 t \<Longrightarrow> joins_below X t r mid d"
    and k: "\<And>q u. keeps (\<lambda>u. R d t0 (files u)) (k q u)"
  shows "keeps (\<lambda>u. R d t0 (files u))
    (andThen (wrapErr w (SecureJoin X [r, mid])) (\<lambda>dir.
       andThen (wrapErr w' (pull X \<lparr>pc_RepositoryConfig = c, Directory = dir, Targets = ts\<rparr>)) (k dir)))"
  unfolding keeps_def
proof (intro allI impI)
  fix s :: os assume P: "R d t0 (files s)"
  let ?rest = "\<lambda>dir. andThen (wrapErr w' (pull X \<lparr>pc_RepositoryConfig = c, Directory = dir, Targets = ts\<rparr>)) (k dir)"
  show "R d t0 (files (snd (andThen (wrapErr w (SecureJoin X [r, mid])) ?rest s)))"
  proof (cases "SecureJoin_at X (files s) [r, mid]")
    case (Ok dir)
    then have j: "SecureJoin X [r, mid] s = (Ok dir, s)" by (simp add: SecureJoin_def)
    from X(3) [OF P] Ok obtain cs where
      d: "dir = path_str (d @ cs)" "list_all plain_name (d @ cs)" "no_links (files s) (d @ cs)" unfolding joins_below_def by blast
    obtain q s1 where p: "pull X \<lparr>pc_RepositoryConfig = c, Directory = dir, Targets = ts\<rparr> s = (q, s1)" by fastforce
    have "R (d @ cs) (files s) (files s1)"
      using pull_in_scope [OF X(1) _ d(2) _ d(3), of "\<lparr>pc_RepositoryConfig = c, Directory = dir, Targets = ts\<rparr>"] X(2) d(1) p by simp
    then have P1: "R d t0 (files s1)" using P scope_mono [OF _ d(3)] scope_trans by blast
    have "andThen (wrapErr w (SecureJoin X [r, mid])) ?rest s = ?rest dir s" by (rule andThen_wrapErr_Ok [where m = "SecureJoin X [r, mid]" and s = s, OF j])
    moreover have "R d t0 (files (snd (?rest dir s)))"
      using P1 keepsD [OF k P1] by (cases q) (simp_all add: andThen_def p)
    ultimately show ?thesis by simp
  qed (use P in \<open>simp_all add: andThen_def SecureJoin_def\<close>)
qed

lemma load_joined:
  assumes "securejoin_scoped X" "d \<noteq> []" "\<And>t. R d (files s) t \<Longrightarrow> joins_below X t (RootModelDir cfg) (ModelId req) d"
  shows "R d (files s) (files (snd (ProcessLoadModelRequest X cfg (pull X) n req s)))"
proof -
  have "keeps (\<lambda>u. R d (files s) (files u)) (ProcessLoadModelRequest X cfg (pull X) n req)"
    unfolding ProcessLoadModelRequest_def Let_def
    by (auto split: option.split intro!: keeps_intro reads reads_disk_size pull_below [OF assms])
  from keepsD [OF this, of s] show ?thesis by (simp add: scope_refl)
qed

lemma load_within:
  assumes "securejoin_scoped X" "RootModelDir cfg = path_str root" "list_all plain_name root" "root \<noteq> []" "no_links (files s) root"
  shows "R root (files s) (files (snd (ProcessLoadModelRequest X cfg (pull X) n req s)))"
  using load_joined [OF assms(1,4), of s cfg req n] joins_below_root [OF assms(1,3,4)] assms(2,5) scope_no_links by simp

text \<open>The load of a model with a plain id changes nothing but below the model's own directory.\<close>

lemma load_own:
  assumes "securejoin_scoped X" "securejoin_plain X" "RootModelDir cfg = path_str root" "list_all plain_name (root @ [ModelId req])" "root \<noteq> []"
    and "real_dirs (files s) root" "\<not> is_link (get (files s) (root @ [ModelId req]))"
  shows "R (root @ [ModelId req]) (files s) (files (snd (ProcessLoadModelRequest X cfg (pull X) n req s)))"
proof (rule load_joined [OF assms(1)])
  fix t assume c: "R (root @ [ModelId req]) (files s) t"
  have "real_dirs t root" by (rule scope_real_dirs [OF c assms(6)])
  moreover have "no_links (files s) (root @ [ModelId req])"
    using assms(6,7) by (auto simp: no_links_snoc real_dirs_no_links is_link_def)
  then have "\<not> is_link (get t (root @ [ModelId req]))" using scope_no_links [OF c] by (auto simp: no_links_snoc is_link_def split: option.splits node.splits)
  ultimately show "joins_below X t (RootModelDir cfg) (ModelId req) (root @ [ModelId req])"
    unfolding assms(3) by (rule joins_below_model [OF assms(2,4,5)])
qed simp

end

text \<open>
  C15: A load request, whatever its model id, paths and storage parameters are and also when it fails, changes nothing outside the
  root directory of the models, when the model is pulled from s3, azure or over HTTP, or from a volume, wherever that is mounted and
  whatever links it holds. Only a pull from a volume makes links, and none of them on the way to the root directory.
\<close>

theorem load_confined_to_root_model_dir:
  assumes "securejoin_scoped X" "RootModelDir cfg = path_str root" "list_all plain_name root" "root \<noteq> []" "no_links (files s) root"
  shows "confined root (files s) (files (snd (ProcessLoadModelRequest X cfg (s3_Pull S X c1) n req s))) \<and>
    confined root (files s) (files (snd (ProcessLoadModelRequest X cfg (azure_Pull S X c2) n req s))) \<and>
    confined root (files s) (files (snd (ProcessLoadModelRequest X cfg (http_Pull N X c3) n req s))) \<and>
    stays_below root (files s) (files (snd (ProcessLoadModelRequest X cfg (pvc_Pull X base) n req s)))"
  using s3_pull.load_within [OF assms] azure_pull.load_within [OF assms] http_pull.load_within [OF assms] pvc_pull.load_within [OF assms] by blast

theorem load_confined_to_root_model_dir_witness:
  "confined [''models''] [] (files (snd (ProcessLoadModelRequest demo_ext \<lparr>RootModelDir = ''/models'', StorageConfigurationDir = ''/c''\<rparr>
     (azure_Pull demo_sdk demo_ext (AzNoCredential ''u'')) 9 \<lparr>ModelId = ''m'', ModelType = [], ModelPath = ''p'', ModelKey = ''{}''\<rparr> (demo_os []))))"
proof -
  have "RootModelDir \<lparr>RootModelDir = ''/models'', StorageConfigurationDir = ''/c''\<rparr> = path_str [''models'']" "list_all plain_name [''models'']"
    "no_links (files (demo_os [])) [''models'']"
    by (simp_all add: demo_os_def path_str_def plain_name_def no_links_list get_def is_link_def)
  from load_confined_to_root_model_dir [OF demo_ext_laws(1) this(1,2) _ this(3)] show ?thesis by (simp add: demo_os_def)
qed

section \<open>The request for the runtime\<close>

lemma path_Base_not_dotted: "path_Base p \<noteq> ''.'' \<Longrightarrow> path_Base p \<noteq> [slash] \<Longrightarrow> path_Base p \<noteq> ''..'' \<Longrightarrow> plain_name (path_Base p)"
  using path_Base_nonempty path_Base_no_sep by (simp add: plain_name_def)

lemma model_filename_plain: "model_filename p = ''..'' \<or> plain_name (model_filename p)"
  using path_Base_not_dotted [of p] by (auto simp: model_filename_def Let_def plain_name_def)

lemma clean_elems_dotdot: "list_all plain_name p \<Longrightarrow> clean_elems True [] (p @ [x, ''..'']) = (if plain_name x then p else clean_elems True [] (p @ [x, ''..'']))"
proof -
  assume p: "list_all plain_name p"
  have "clean_elems True acc (p @ [x, ''..'']) = rev acc @ p" if "plain_name x" for acc
    using p that by (induction p arbitrary: acc) (auto simp: plain_name_def)
  then show ?thesis by simp
qed

lemma path_Join_dotdot:
  assumes "list_all plain_name (p @ [x])" "p \<noteq> []"
  shows "path_Join [path_str (p @ [x]), ''..''] = path_str p"
proof -
  have ne: "path_str (p @ [x]) \<noteq> []" by (simp add: path_str_def)
  have e: "split_on slash (path_str (p @ [x]) @ slash # ''..'') = [] # p @ [x, ''..'']"
    using split_on_path_str [of "p @ [x]"] assms(1) by (simp add: split_on_append_sep)
  have r: "has_prefix (path_str (p @ [x]) @ slash # ''..'') [slash]"
    using assms(2) by (cases p) (simp_all add: path_str_def has_prefix_def)
  have "clean_elems True [] (p @ [x, ''..'']) = p" using clean_elems_dotdot [of p x] assms(1) by simp
  with e r join_with_path_str [OF assms(2)] ne show ?thesis
    by (simp add: path_Join_def Let_def path_Clean_def)
qed

text \<open>The entries of the key that the runtime gets.\<close>

definition runtime_keys :: "string set" where
  "runtime_keys = {''model_type'', ''disk_size_bytes'', ''schema_path''}"

lemma enc_model_key_keys:
  assumes "mk_StorageKey k = None" "mk_StorageParams k = []" "mk_Bucket k = []"
  shows "\<exists>m. enc_model_key k = JObj m \<and> set (map fst m) \<subseteq> runtime_keys \<and> gm_get m ''model_type'' = mk_ModelType k"
  using assms by (auto simp: enc_model_key_def runtime_keys_def gm_get_def split: option.split)

lemma ProcessLoadModelRequest_Ok:
  assumes "ProcessLoadModelRequest X cfg pull n req s = (Ok req', s')"
  shows "\<exists>k (k' :: ModelKeyInfo) (u :: os) dir. Option.bind (x_parse X (ModelKey req)) dec_model_key = Some k \<and>
    SecureJoin_at X (files u) [RootModelDir cfg, ModelId req] = Ok dir \<and>
    req' = req\<lparr>ModelPath := path_Join [dir, model_filename (ModelPath req)], ModelKey := x_print X (enc_model_key k')\<rparr> \<and>
    mk_ModelType k' = mk_ModelType k \<and> mk_StorageKey k' = None \<and> mk_StorageParams k' = [] \<and> mk_Bucket k' = []"
proof -
  from assms obtain k where k: "Option.bind (x_parse X (ModelKey req)) dec_model_key = Some k"
    by (auto simp: ProcessLoadModelRequest_def split: option.splits)
  let ?Q = "\<lambda>req'. \<exists>k (k' :: ModelKeyInfo) (u :: os) dir. Option.bind (x_parse X (ModelKey req)) dec_model_key = Some k \<and>
    SecureJoin_at X (files u) [RootModelDir cfg, ModelId req] = Ok dir \<and>
    req' = req\<lparr>ModelPath := path_Join [dir, model_filename (ModelPath req)], ModelKey := x_print X (enc_model_key k')\<rparr> \<and>
    mk_ModelType k' = mk_ModelType k \<and> mk_StorageKey k' = None \<and> mk_StorageParams k' = [] \<and> mk_Bucket k' = []"
  have Q: "?Q (req\<lparr>ModelPath := path_Join [dir, model_filename (ModelPath req)], ModelKey := x_print X (enc_model_key
      (k\<lparr>mk_SchemaPath := sp, mk_DiskSizeBytes := d, mk_StorageKey := None, mk_StorageParams := [], mk_Bucket := []\<rparr>))\<rparr>)"
    if "wrapErr w (SecureJoin X [RootModelDir cfg, ModelId req]) u = (Ok dir, v)" for w u v dir sp d
    using that k
    by - (rule exI [of _ k], rule exI [of _ "k\<lparr>mk_SchemaPath := sp, mk_DiskSizeBytes := d, mk_StorageKey := None, mk_StorageParams := [], mk_Bucket := []\<rparr>"],
        rule exI [of _ u], rule exI [of _ dir], auto simp add: wrapErr_Ok_iff SecureJoin_def simp del: wrapErr_apply)
  have "yields (ProcessLoadModelRequest X cfg pull n req) ?Q"
    unfolding ProcessLoadModelRequest_def k option.case Let_def
  proof (rule yields_andThen, rule yields_andThen, goal_cases)
    case (1 c0 u0 v0 c u v)
    show ?case
    proof (cases "as_string (gm_get (case c of Some m \<Rightarrow> m | None \<Rightarrow> []) ''type'')")
      case None
      then show ?thesis by (simp add: yields_fail del: fail_with_apply)
    next
      case (Some st)
      show ?thesis unfolding Some option.case
        by (rule yields_andThen, rule yields_andThen, rule yields_andThen, rule yields_andThen, rule yields_ret, erule Q [unfolded k])
    qed
  qed
  from yieldsD [OF this assms] show ?thesis .
qed


definition demo_key_ext :: ext where
  "demo_key_ext = demo_ext\<lparr>x_parse := (\<lambda>s. Some (JObj [(''storage_params'', JObj [(''type'', JStr ''pvc'')])]))\<rparr>"

definition demo_puller_config :: PullerConfiguration where
  "demo_puller_config = \<lparr>RootModelDir = ''/models'', StorageConfigurationDir = ''/c''\<rparr>"

definition demo_load_req :: LoadModelRequest where
  "demo_load_req = \<lparr>ModelId = ''m'', ModelType = ''t'', ModelPath = ''p'', ModelKey = ''{}''\<rparr>"


section \<open>Cleaning up\<close>

text \<open>What is gone: everything at or below some of the given paths, and nothing else has changed.\<close>

definition removed_below :: "fpath \<Rightarrow> fs \<Rightarrow> fs \<Rightarrow> bool" where
  "removed_below root t t' \<longleftrightarrow> (\<forall>q. get t' q \<noteq> get t q \<longrightarrow> prefix root q \<and> get t' q = None)"

lemma removed_below_refl [simp]: "removed_below root t t"
  by (simp add: removed_below_def)

lemma removed_below_prune: "p \<noteq> [] \<Longrightarrow> prefix root p \<Longrightarrow> removed_below root t (prune p t)"
  unfolding removed_below_def
proof (intro allI impI)
  fix q assume p: "p \<noteq> []" "prefix root p" and n: "get (prune p t) q \<noteq> get t q"
  have q: "q \<noteq> []" using n by auto
  with n have "take (length p) q = p" "get (prune p t) q = None" by (auto simp: get_prune split: if_splits)
  moreover from this have "prefix p q" by (metis take_is_prefix)
  ultimately show "prefix root q \<and> get (prune p t) q = None" using p(2) prefix_order.trans by blast
qed

lemma removed_below_trans: "removed_below p t u \<Longrightarrow> removed_below p u v \<Longrightarrow> removed_below p t v"
  unfolding removed_below_def by metis

lemma removed_below_mono: "removed_below (p @ q) t u \<Longrightarrow> removed_below p t u"
  unfolding removed_below_def by (meson append_prefixD)

lemma removed_below_get: "removed_below p t u \<Longrightarrow> get u q = None \<or> get u q = get t q"
  unfolding removed_below_def by blast

lemma removed_below_no_links: "removed_below p t u \<Longrightarrow> no_links t q \<Longrightarrow> no_links u q"
  unfolding no_links_def by (metis removed_below_get option.distinct(1))

lemma removed_below_is_link: "removed_below p t u \<Longrightarrow> \<not> is_link (get t q) \<Longrightarrow> \<not> is_link (get u q)"
  using removed_below_get [of p t u q] by (auto simp: is_link_def)

lemma os_RemoveAll_below:
  assumes "no_links (files s) p" "list_all plain_name p" "p \<noteq> []" "prefix root p"
  shows "removed_below root (files s) (files (snd (os_RemoveAll (path_str p) s)))"
  using removed_below_prune [OF assms(3,4)]
  by (auto simp: os_RemoveAll_def syscall_def Let_def split: option.splits sum.splits
      dest!: resolve_no_links [OF assms(1,2)])

lemma prune_get: "p \<noteq> [] \<Longrightarrow> get (prune p t) q = (if prefix p q then None else get t q)"
proof (cases "q = []")
  case True
  then show "p \<noteq> [] \<Longrightarrow> ?thesis" by simp
next
  case False
  have "take (length p) q = p \<longleftrightarrow> prefix p q" by (metis append_eq_conv_conj prefix_def take_is_prefix)
  then show ?thesis using False by (simp add: get_prune)
qed

lemma CleanupModel_below:
  assumes "securejoin_scoped X" "RootModelDir cfg = path_str root" "list_all plain_name root" "root \<noteq> []" "no_links (files s) root"
  shows "removed_below root (files s) (files (snd (CleanupModel X cfg mid s)))"
proof (cases "SecureJoin_at X (files s) [path_str root, mid]")
  case (Ok d)
  then have j: "SecureJoin X [path_str root, mid] s = (Ok d, s)" by (simp add: SecureJoin_def)
  from SecureJoin_below [OF assms(1,3-5) j] obtain cs where
    "d = path_str (root @ cs)" "list_all plain_name (root @ cs)" "no_links (files s) (root @ cs)" by blast
  with os_RemoveAll_below [of s "root @ cs" root] assms(4) j show ?thesis
    by (simp add: CleanupModel_def assms(2) andThen_def)
qed (simp_all add: CleanupModel_def assms(2) andThen_def SecureJoin_def)

lemma CleanupModel_plain:
  assumes "securejoin_plain X" "RootModelDir cfg = path_str root" "list_all plain_name root" "root \<noteq> []"
    and "real_dirs (files s) root" "plain_name mid" "\<not> is_link (get (files s) (root @ [mid]))"
    and "CleanupModel X cfg mid s = (Ok (), s')"
  shows "files s' = prune (root @ [mid]) (files s)"
proof -
  have "SecureJoin X [path_str root, mid] s = (Ok (path_str (root @ [mid])), s)"
    using securejoin_plainD [OF assms(1,5,3,4,6,7)] by (simp add: SecureJoin_def SecureJoin_at_def)
  then have "wrapErr (ErrWrap ''Failed to delete model from local filesystem: %w'' []) (os_RemoveAll (path_str (root @ [mid]))) s = (Ok (), s')"
    using assms(8) by (simp add: CleanupModel_def assms(2) andThen_def)
  then have "os_RemoveAll (path_str (root @ [mid])) s = (Ok (), s')" by (simp add: wrapErr_Ok_iff del: wrapErr_apply)
  from os_RemoveAll_real [OF this assms(5,3,6)] show ?thesis .
qed

text \<open>
  C3: Unloading cleans up exactly the model's own directory: whatever the model id is, \<open>CleanupModel\<close> removes only entries at or below the
  root directory of the models; and for a plain id whose directory is not a link, when it reports success,
  everything at or below the model's directory is gone and everything else is as it was.
\<close>

theorem cleanup_removes_own_subtree:
  assumes "securejoin_scoped X" "securejoin_plain X" "RootModelDir cfg = path_str root" "list_all plain_name root" "root \<noteq> []"
    and "real_dirs (files s) root"
  shows "removed_below root (files s) (files (snd (CleanupModel X cfg mid s))) \<and>
    (plain_name mid \<and> \<not> is_link (get (files s) (root @ [mid])) \<and> fst (CleanupModel X cfg mid s) = Ok () \<longrightarrow>
       (\<forall>q. get (files (snd (CleanupModel X cfg mid s))) q = (if prefix (root @ [mid]) q then None else get (files s) q)))"
  using CleanupModel_below [OF assms(1,3-5) real_dirs_no_links [OF assms(6)]]
    CleanupModel_plain [OF assms(2-6), of mid "snd (CleanupModel X cfg mid s)"]
  by (auto simp: prune_get prod_eq_iff)

definition demo_models_fs :: fs where
  "demo_models_fs = [([''models''], Dir), ([''models'', ''a''], Dir), ([''models'', ''a'', ''f''], File 420 ''x''), ([''models'', ''b''], Dir)]"

theorem cleanup_removes_own_subtree_witness:
  "get (files (snd (CleanupModel demo_ext demo_puller_config ''a'' (demo_os demo_models_fs)))) [''models'', ''a'', ''f''] = None \<and>
   get (files (snd (CleanupModel demo_ext demo_puller_config ''a'' (demo_os demo_models_fs)))) [''models'', ''b''] = Some Dir"
proof -
  have "RootModelDir demo_puller_config = path_str [''models'']" "list_all plain_name [''models'']"
    by (simp_all add: demo_puller_config_def path_str_def plain_name_def)
  moreover have "real_dirs (files (demo_os demo_models_fs)) [''models'']"
    by (simp add: real_dirs_def demo_os_def demo_models_fs_def get_def le_Suc_eq all_conj_distrib)
  moreover have "plain_name ''a''" "\<not> is_link (get (files (demo_os demo_models_fs)) ([''models''] @ [''a'']))"
    by (simp_all add: plain_name_def demo_os_def demo_models_fs_def get_def is_link_def)
  moreover have "fst (CleanupModel demo_ext demo_puller_config ''a'' (demo_os demo_models_fs)) = Ok ()" by code_simp
  ultimately have "get (files (snd (CleanupModel demo_ext demo_puller_config ''a'' (demo_os demo_models_fs)))) q =
      (if prefix ([''models''] @ [''a'']) q then None else get (files (demo_os demo_models_fs)) q)" for q
    using cleanup_removes_own_subtree [OF demo_ext_laws(1,2), of demo_puller_config "[''models'']" "demo_os demo_models_fs" "''a''"] by blast
  moreover have "get (files (demo_os demo_models_fs)) [''models'', ''b''] = Some Dir"
    by (simp add: demo_os_def demo_models_fs_def get_def)
  ultimately show ?thesis by simp
qed

end
