(* ===== verification/LayoutScope.thy ===== *)
theory LayoutScope
  imports AdapterBase PullerProps
begin

text \<open>
  How far the layouts that the adapters build can reach: sequences of joins, removals, new directories, links and files on paths below the
  directory of one model.
\<close>

section \<open>Steps on a model's directory\<close>

lemma changed_below_removed: "removed_below d t0 t \<Longrightarrow> changed_below d t0 t"
  by (auto simp: changed_below_def removed_below_def)

lemma stays_below_removed: "removed_below d t0 t \<Longrightarrow> stays_below d t0 t"
  unfolding stays_below_def using changed_below_removed removed_below_no_links by blast

lemma lay_inv_WriteFile:
  assumes "lay_inv d t0 (files s)" "list_all plain_name (d @ cs)" "no_links (files s) (d @ cs)" "d \<noteq> []"
  shows "lay_inv d t0 (files (snd (os_WriteFile (path_str (d @ cs)) c m s)))"
  using lay_inv_confined [OF assms(1)] confined_WriteFile [of d "files s" s "d @ cs" c m] assms by simp

lemma confined_MkdirAll_Dir:
  assumes "list_all plain_name (d @ cs)" "no_links (files s) (d @ cs)" "d \<noteq> []"
  shows "confined d (files s) (files (snd (os_MkdirAll (path_Dir (path_str (d @ cs))) s)))"
proof -
  have "d @ cs = butlast (d @ cs) @ [last (d @ cs)]" using assms(3) by simp
  then have c: "comps (path_Dir (path_str (d @ cs))) = butlast (d @ cs)" using comps_path_Dir assms(1) by metis
  have "prefix d (butlast (d @ cs)) \<or> prefix (butlast (d @ cs)) d"
    by (cases cs rule: rev_cases) (simp_all add: butlast_append prefixeq_butlast)
  moreover have "no_links (files s) (butlast (d @ cs))"
    using no_links_appendD [of "files s" "butlast (d @ cs)" "[last (d @ cs)]"] assms(2,3) by simp
  moreover have "''..'' \<notin> set (butlast (d @ cs))" using plain_no_dotdot [OF assms(1)] by (auto dest: in_set_butlastD)
  ultimately show ?thesis using confined_MkdirAll [of d "files s" s "path_Dir (path_str (d @ cs))"] c by simp
qed

lemma lay_inv_place_link:
  assumes "lay_inv d t0 (files s)" "list_all plain_name (d @ cs)" "no_links (files s) (d @ cs)" "d \<noteq> []"
  shows "lay_inv d t0 (files (snd (andThen (wrapErr w (os_MkdirAll (path_Dir (path_str (d @ cs)))))
    (\<lambda>_. wrapErr w' (os_Symlink target (path_str (d @ cs)))) s)))"
proof (cases "os_MkdirAll (path_Dir (path_str (d @ cs))) s")
  case (Pair r u)
  have c: "confined d (files s) (files u)" using confined_MkdirAll_Dir [OF assms(2-4)] Pair by simp
  then have "lay_inv d t0 (files u)" "no_links (files u) (d @ cs)"
    using lay_inv_confined [OF assms(1)] assms(3) confined_no_links by blast+
  with lay_inv_Symlink [OF _ assms(2)] Pair show ?thesis by (cases r) (simp_all add: andThen_def)
qed

text \<open>Steps that read, a case distinction, and a step after another one that reaches a state with the invariant.\<close>

lemma keeps_reads [intro]:
  "keeps (\<lambda>s. I (files s)) (os_Stat p)" "keeps (\<lambda>s. I (files s)) (os_Lstat p)" "keeps (\<lambda>s. I (files s)) (os_ReadDir p)"
  "keeps (\<lambda>s. I (files s)) (os_ReadFile p)" "keeps (\<lambda>s. I (files s)) (SecureJoin X es)"
  by (simp_all add: keeps_def SecureJoin_def)

lemma keeps_option:
  "(x = None \<Longrightarrow> keeps P f) \<Longrightarrow> (\<And>a. x = Some a \<Longrightarrow> keeps P (g a)) \<Longrightarrow> keeps P (case x of None \<Rightarrow> f | Some a \<Rightarrow> g a)"
  by (cases x) simp_all

lemma keeps_pair: "(\<And>a b. keeps P (f a b)) \<Longrightarrow> keeps P (case p of (a, b) \<Rightarrow> f a b)"
  by (cases p) simp

text \<open>A link, or a file with the mode of another one, is placed, and more steps follow.\<close>

lemma lay_inv_link_then:
  assumes "lay_inv d t0 (files s)" "list_all plain_name (d @ cs)" "no_links (files s) (d @ cs)"
    and rest: "keeps (\<lambda>s. lay_inv d t0 (files s)) rest"
  shows "lay_inv d t0 (files (snd (andThen (wrapErr w (os_Symlink target (path_str (d @ cs)))) (\<lambda>_. rest) s)))"
  by (rule keeps_at [where P = "\<lambda>s. lay_inv d t0 (files s)", OF _ rest]) (use lay_inv_Symlink [OF assms(1-3)] in simp)

lemma lay_inv_config_then:
  assumes "lay_inv d t0 (files s)" "list_all plain_name (d @ cs)" "no_links (files s) (d @ cs)" "d \<noteq> []"
    and rest: "keeps (\<lambda>s. lay_inv d t0 (files s)) rest"
  shows "lay_inv d t0 (files (snd (andThen (attempt (os_Lstat p)) (\<lambda>info. case info of
       Ok i \<Rightarrow> andThen (wrapErr w (os_WriteFile (path_str (d @ cs)) c (fi_mode i))) (\<lambda>_. rest)
     | _ \<Rightarrow> lift_res (Panic e)) s)))"
proof -
  obtain r u where u: "attempt (os_Lstat p) s = (r, u)" "files u = files s"
    using keepsD [OF keeps_attempt [OF keeps_reads(2) [of "\<lambda>t. t = files s" p]], of s] by (metis prod.collapse)
  have k: "lay_inv d t0 (files (snd (andThen (wrapErr w (os_WriteFile (path_str (d @ cs)) c (fi_mode i))) (\<lambda>_. rest) u)))" for i
    by (rule keeps_at [where P = "\<lambda>s. lay_inv d t0 (files s)", OF _ rest])
      (use lay_inv_WriteFile [of d t0 u cs c] assms(1-4) u(2) in simp)
  show ?thesis
  proof (cases r)
    case (Ok x)
    with u have e: "attempt (os_Lstat p) s = (Ok x, u)" by simp
    show ?thesis unfolding andThen_eval(1) [where m = "attempt (os_Lstat p)", OF e] using k assms(1) u(2) by (cases x) simp_all
  qed (use u assms(1) in \<open>simp_all add: andThen_eval\<close>)
qed

text \<open>A step after one that changes nothing.\<close>

lemma andThen_unchanged:
  assumes "snd (m s) = s" "P s" "\<And>x. P (snd (f x s))"
  shows "P (snd (andThen m f s))"
  using assms by (cases "m s"; cases "fst (m s)") (auto simp: andThen_def)

text \<open>
  The beginning of every layout: the directory of the model is emptied and made again. What follows stays where the model's id leads.
\<close>

lemma layout_below:
  assumes X: "d \<noteq> []" "joins_below X (files s) r modelID d"
    and f: "\<And>cs t0. list_all plain_name (d @ cs) \<Longrightarrow> keeps (\<lambda>s. lay_inv (d @ cs) t0 (files s)) (f (path_str (d @ cs)))"
  shows "stays_below d (files s) (files (snd (andThen (SecureJoin X [r, modelID]) (\<lambda>q.
    andThen (attempt (os_RemoveAll q)) (\<lambda>_. andThen (wrapErr (w q) (os_MkdirAll q)) (\<lambda>_. f q))) s)))"
proof (cases "SecureJoin_at X (files s) [r, modelID]")
  case (Ok q)
  with X(2) obtain cs where
    q: "q = path_str (d @ cs)" "list_all plain_name (d @ cs)" "no_links (files s) (d @ cs)" unfolding joins_below_def by blast
  let ?d = "d @ cs"
  have d: "?d \<noteq> []" using X(1) by simp
  obtain r1 u where r1: "os_RemoveAll q s = (r1, u)" by fastforce
  have ru: "removed_below ?d (files s) (files u)" using os_RemoveAll_below [OF q(3,2) d, of ?d] r1 q(1) by simp
  then have nu: "no_links (files u) ?d" using q(3) removed_below_no_links by blast
  obtain r' v where mk: "os_MkdirAll q u = (r', v)" by fastforce
  have cv: "confined ?d (files u) (files v)"
    using confined_MkdirAll [of ?d "files u" u q] nu mk q plain_no_dotdot [OF q(2)] by (simp add: comps_path_str)
  have 1: "stays_below ?d (files s) (files v)"
    using stays_below_trans [OF stays_below_removed [OF ru] stays_below_confined [OF cv]] .
  have "stays_below ?d (files s) (files (snd (andThen (attempt (os_RemoveAll q)) (\<lambda>_. andThen (wrapErr (w q) (os_MkdirAll q)) (\<lambda>_. f q)) s)))"
  proof (cases r')
    case (Ok x)
    have "get (files v) ?d = Some Dir"
      using pvc_inv_MkdirAll(2) [OF nu q(2) mk [unfolded q(1)]] Ok by (simp add: pvc_inv_def)
    then have "lay_inv ?d (files s) (files v)" using stays_below_changed [OF 1] nu confined_no_links [OF cv] by (simp add: lay_inv_def)
    from keepsD [OF f [OF q(2)] this] have "stays_below ?d (files s) (files (snd (f q v)))" by (simp add: lay_inv_def stays_below_def q(1))
    then show ?thesis using r1 mk Ok 1 stays_below_removed [OF ru]
      by (cases r1) (simp_all add: andThen_def attempt_def)
  qed (use r1 mk 1 stays_below_removed [OF ru] in \<open>cases r1; simp add: andThen_def attempt_def\<close>)+
  then show ?thesis using stays_below_mono [OF _ q(3)] Ok by (auto simp: andThen_def SecureJoin_def)
qed (simp_all add: andThen_def SecureJoin_def)

text \<open>A load whose steps after the pull are confined to the directory of adapted models.\<close>

lemma embedded_load_below:
  assumes go: "\<And>req u. no_links (files u) (root @ cs) \<Longrightarrow> changed_below (root @ cs) (files u) (files (snd (go req u)))"
    and "securejoin_scoped X" "list_all plain_name (root @ cs)" "root \<noteq> []" "no_links (files s) (root @ cs)"
    and "confined_pull pull" "ep_pull P = pull X" "RootModelDir (ep_config P) = path_str root"
  shows "changed_below (if ac_UseEmbeddedPuller c then root else root @ cs) (files s) (files (snd (andThen (embedded_load X c P req0) go s)))"
proof (cases "ac_UseEmbeddedPuller c")
  case False
  then show ?thesis using go [OF assms(5)] by (simp add: embedded_load_def)
next
  case True
  have plain: "list_all plain_name root" using assms(3) by simp
  obtain r u where e: "embedded_load X c P req0 s = (r, u)" by fastforce
  have nl: "no_links (files s) root" using no_links_appendD [OF assms(5)] .
  have c: "confined root (files s) (files u)"
    using scoped_pull.load_within [OF assms(6,2,8) plain assms(4) nl, of "ep_stack P" req0] e True
    by (simp add: embedded_load_def assms(7))
  then have "no_links (files u) (root @ cs)" using assms(5) confined_no_links by blast
  from changed_below_trans [OF changed_below_confined [OF c] changed_below_mono [OF go [OF this]]]
  show ?thesis using e True changed_below_confined [OF c] by (cases r) (simp_all add: andThen_def)
qed

text \<open>
  An adapter's layout step: whatever it is asked to load, it changes only what lies where the model's id leads from its own root directory. \<open>pre\<close>
  is what an adapter needs to know of the tools it calls and of the type of the model. The load of an adapter around it is confined to the root of
  all models, and without an embedded puller to the adapted files of the model.
\<close>

locale adapter_layout =
  fixes pre :: "ext \<Rightarrow> string \<Rightarrow> bool" and adapt :: "ext \<Rightarrow> string \<Rightarrow> string \<Rightarrow> string \<Rightarrow> string \<Rightarrow> string \<Rightarrow> (os, unit) step"
  assumes adapt_below: "pre X ty \<Longrightarrow> securejoin_scoped X \<Longrightarrow> d \<noteq> [] \<Longrightarrow> joins_below X (files s) r mid d \<Longrightarrow>
    stays_below d (files s) (files (snd (adapt X r mid ty mp sp s)))"
begin

lemma go_below:
  assumes "pre X ty" "securejoin_scoped X" "d \<noteq> []" "joins_below X (files u) r (ModelId req) d" "\<And>Q. keeps (\<lambda>u. Q (files u)) (rest req)"
  shows "stays_below d (files u) (files (snd (andThen (lift_res (GetSchemaPath X req)) (\<lambda>sp.
       andThen (wrapErr w (adapt X r (ModelId req) ty (ModelPath req) sp)) (\<lambda>_. rest req)) u)))"
proof (cases "GetSchemaPath X req")
  case (Ok sp)
  obtain q v where a: "adapt X r (ModelId req) ty (ModelPath req) sp u = (q, v)" by fastforce
  with adapt_below [OF assms(1-4), of "ModelPath req" sp]
  have "stays_below d (files u) (files v)" by simp
  moreover from keepsD [OF assms(5) [of "\<lambda>t. t = files v"], of v] have "files (snd (rest req v)) = files v" by simp
  ultimately show ?thesis using a by (cases q) (simp_all add: Ok andThen_def)
qed (simp_all add: andThen_def)

lemma load_below:
  assumes "pre X ty" "securejoin_scoped X" "list_all plain_name (root @ cs)" "root \<noteq> []" "no_links (files s) (root @ cs)"
    and "ac_RootModelDir c = path_str (root @ cs)" "\<And>r Q. keeps (\<lambda>u. Q (files u)) (rest r)"
    and "confined_pull pull" "ep_pull P = pull X" "RootModelDir (ep_config P) = path_str root"
  shows "changed_below (if ac_UseEmbeddedPuller c then root else root @ cs) (files s)
    (files (snd (andThen (embedded_load X c P req0) (\<lambda>req. andThen (lift_res (GetSchemaPath X req)) (\<lambda>sp.
       andThen (wrapErr w (adapt X (ac_RootModelDir c) (ModelId req) ty (ModelPath req) sp)) (\<lambda>_. rest req))) s)))"
proof (rule embedded_load_below [OF _ assms(2-5,8-10)])
  fix req and u :: os assume nl: "no_links (files u) (root @ cs)"
  have ne: "root @ cs \<noteq> []" using assms(4) by simp
  show "changed_below (root @ cs) (files u) (files (snd (andThen (lift_res (GetSchemaPath X req)) (\<lambda>sp.
       andThen (wrapErr w (adapt X (ac_RootModelDir c) (ModelId req) ty (ModelPath req) sp)) (\<lambda>_. rest req)) u)))"
    unfolding assms(6)
    by (rule stays_below_changed [OF go_below [OF assms(1,2) ne joins_below_root [OF assms(2,3) ne nl] assms(7)]])
qed

lemma load_own:
  assumes "pre X ty" "securejoin_scoped X" "d \<noteq> []" "joins_below X (files s) (ac_RootModelDir c) (ModelId req) d" "\<not> ac_UseEmbeddedPuller c"
    and "\<And>r Q. keeps (\<lambda>u. Q (files u)) (rest r)"
  shows "stays_below d (files s)
    (files (snd (andThen (embedded_load X c P req) (\<lambda>req. andThen (lift_res (GetSchemaPath X req)) (\<lambda>sp.
       andThen (wrapErr w (adapt X (ac_RootModelDir c) (ModelId req) ty (ModelPath req) sp)) (\<lambda>_. rest req))) s)))"
  using go_below [OF assms(1-4,6)] assms(5) by (simp add: embedded_load_def)

end

section \<open>Steps that succeed\<close>

text \<open>A step that succeeds from \<open>s\<close> with the result \<open>x\<close> and the tree \<open>t\<close>, in an environment that makes no call fail.\<close>

definition runs :: "(os, 'a) step \<Rightarrow> os \<Rightarrow> 'a \<Rightarrow> fs \<Rightarrow> bool" where
  "runs m s x t \<longleftrightarrow> (\<exists>s'. m s = (Ok x, s') \<and> files s' = t \<and> quiet s')"

lemma runs_andThen:
  "runs m s x t \<Longrightarrow> (\<And>u. files u = t \<Longrightarrow> quiet u \<Longrightarrow> runs (f x) u y t') \<Longrightarrow> runs (andThen m f) s y t'"
  unfolding runs_def by (auto simp: andThen_def)

lemma runs_wrapErr: "runs m s x t \<Longrightarrow> runs (wrapErr g m) s x t"
  by (auto simp: runs_def)

lemma runs_attempt: "runs m s x t \<Longrightarrow> runs (attempt m) s (Ok x) t"
  by (auto simp: runs_def attempt_def)

lemma runs_ret: "quiet s \<Longrightarrow> runs (ret x) s x (files s)"
  by (simp add: runs_def)

lemma runs_syscall: "quiet s \<Longrightarrow> f (files s) = Inr (x, t) \<Longrightarrow> runs (syscall p f) s x t"
  by (simp add: runs_def syscall_def quiet_def Let_def)

lemma runs_SecureJoin: "quiet s \<Longrightarrow> SecureJoin_at X (files s) es = Ok q \<Longrightarrow> runs (SecureJoin X es) s q (files s)"
  by (simp add: runs_def SecureJoin_def)

lemma resolve_real_dirs:
  "real_dirs t p \<Longrightarrow> list_all plain_name p \<Longrightarrow> resolve t f (path_str p) = Inr p"
  using walk_real_dirs [of t "[]" p maxlinks f "[]"] by (simp add: resolve_def comps_path_str plain_no_dotdot)

lemma resolve_entry:
  assumes "real_dirs t p" "list_all plain_name (p @ [x])" "\<not> is_link (get t (p @ [x]))"
  shows "resolve t f (path_str (p @ [x])) = Inr (p @ [x])"
proof -
  have "get t p = Some Dir" using assms(1) by (auto simp: real_dirs_def)
  then show ?thesis
    using walk_real_dirs [of t "[]" p maxlinks f "[x]"] assms
    by (auto simp: resolve_def comps_path_str plain_no_dotdot plain_name_def is_link_def split: option.splits node.splits)
qed

lemma path_Base_path_str: "list_all plain_name (p @ [x]) \<Longrightarrow> path_Base (path_str (p @ [x])) = x"
proof -
  assume p: "list_all plain_name (p @ [x])"
  then have x: "x \<noteq> []" "slash \<notin> set x" by (simp_all add: plain_name_def)
  then have "last x \<noteq> slash" by (metis last_in_set)
  then have "dropWhile (\<lambda>c. c = slash) (rev (path_str (p @ [x]))) = rev (path_str (p @ [x]))"
    using x(1) by (cases "rev x") (auto simp: path_str_snoc)
  then show ?thesis using split_on_path_str [OF p] x by (simp add: path_Base_def Let_def path_str_snoc)
qed

lemma runs_Stat:
  assumes "quiet s" "real_dirs (files s) p" "list_all plain_name (p @ [x])" "get (files s) (p @ [x]) = Some n" "\<not> is_link (Some n)"
  shows "runs (os_Stat (path_str (p @ [x]))) s (node_info x n) (files s)"
  unfolding os_Stat_def
  by (rule runs_syscall [OF assms(1)]) (use assms in \<open>simp add: lookup_def resolve_entry path_Base_path_str\<close>)

lemma runs_ReadDir:
  assumes "quiet s" "real_dirs (files s) p" "list_all plain_name p"
  shows "runs (os_ReadDir (path_str p)) s (dir_entries (files s) p) (files s)"
proof -
  have "get (files s) p = Some Dir" using assms(2) by (auto simp: real_dirs_def)
  then show ?thesis unfolding os_ReadDir_def
    by (intro runs_syscall [OF assms(1)]) (simp add: lookup_def resolve_real_dirs [OF assms(2,3)])
qed

lemma runs_RemoveAll:
  assumes "quiet s" "real_dirs (files s) p" "list_all plain_name (p @ [x])"
  shows "runs (os_RemoveAll (path_str (p @ [x]))) s () (prune (p @ [x]) (files s))"
proof -
  have "last (split_on slash (path_str (p @ [x]))) = x" using split_on_path_str [OF assms(3)] by simp
  moreover have "path_str (p @ [x]) \<noteq> []" by (simp add: path_str_def)
  moreover have "x \<noteq> ''.''" using assms(3) by (simp add: plain_name_def)
  ultimately have "os_RemoveAll (path_str (p @ [x])) = syscall (path_str (p @ [x])) (\<lambda>t. case resolve t False (path_str (p @ [x])) of
      Inl e \<Rightarrow> if e = ENOENT then Inr ((), t) else Inl e | Inr q \<Rightarrow> Inr ((), prune q t))" by (simp add: os_RemoveAll_def)
  moreover have "resolve (files s) False (path_str (p @ [x])) = Inr (p @ [x])"
    using resolve_real [OF assms(2)] assms(3) by simp
  ultimately show ?thesis by (simp only:) (rule runs_syscall [OF assms(1)], simp)
qed

lemma mkdir_prefixes_real:
  "real_dirs t (d @ p) \<Longrightarrow> list_all plain_name (d @ p) \<Longrightarrow> mkdir_prefixes t d (p @ r) = mkdir_prefixes t (d @ p) r"
proof (induction p arbitrary: d)
  case Nil
  then show ?case by simp
next
  case (Cons c p)
  have r: "real_dirs t (d @ [c])" using real_dirs_appendD [of t "d @ [c]" p] Cons.prems(1) by simp
  then have "walk maxlinks t True [] (d @ [c]) = Inr (d @ [c])" "get t (d @ [c]) = Some Dir"
    using walk_real_dirs [of t "[]" "d @ [c]" maxlinks True "[]"] plain_no_dotdot [of "d @ [c]"] Cons.prems(2)
    by (auto simp: real_dirs_snoc)
  then show ?case using Cons by simp
qed

lemma runs_MkdirAll_new:
  assumes "quiet s" "real_dirs (files s) p" "list_all plain_name (p @ [x])" "get (files s) (p @ [x]) = None"
  shows "runs (os_MkdirAll (path_str (p @ [x]))) s () (put (p @ [x]) Dir (files s))"
proof -
  have w: "walk maxlinks (files s) f [] (p @ [x]) = Inr (p @ [x])" for f
    using resolve_entry [OF assms(2,3), of f] assms(4) comps_path_str [OF assms(3)] by (simp add: resolve_def is_link_def)
  have "mkdir_prefixes (files s) [] (p @ [x]) = Inr (put (p @ [x]) Dir (files s))"
    using mkdir_prefixes_real [of "files s" "[]" p "[x]"] assms(2-4) w by simp
  then show ?thesis unfolding os_MkdirAll_def
    by (intro runs_syscall [OF assms(1)]) (simp add: comps_path_str [OF assms(3)])
qed

lemma runs_MkdirAll_real:
  assumes "quiet s" "real_dirs (files s) p" "comps q = p" "list_all plain_name p"
  shows "runs (os_MkdirAll q) s () (files s)"
  unfolding os_MkdirAll_def
  using mkdir_prefixes_real [of "files s" "[]" p "[]"] assms by (intro runs_syscall [OF assms(1)]) simp

lemma runs_Symlink:
  assumes "quiet s" "real_dirs (files s) p" "list_all plain_name (p @ [x])" "get (files s) (p @ [x]) = None"
  shows "runs (os_Symlink target (path_str (p @ [x]))) s () (put (p @ [x]) (Link target) (files s))"
  unfolding os_Symlink_def
  by (rule runs_syscall [OF assms(1)]) (use assms in \<open>simp add: resolve_entry is_link_def\<close>)

text \<open>Joins of plain names, the beginning of a layout, and the two ways in which links are placed.\<close>

lemma path_Join_plain:
  assumes "list_all plain_name xs" "xs \<noteq> []"
  shows "path_Join xs = join_with slash xs"
proof -
  have f: "filter (\<lambda>e. e \<noteq> []) xs = xs" using assms(1) by (auto simp: list_all_iff plain_name_def intro: filter_True)
  have s: "split_on slash (join_with slash xs) = xs"
    by (rule split_join [OF assms(2)]) (use assms(1) in \<open>auto simp: list_all_iff plain_name_def\<close>)
  obtain x ys where xs: "xs = x # ys" using assms(2) by (cases xs) auto
  then obtain c y where x: "x = c # y" "c \<noteq> slash" using assms(1) by (cases x) (auto simp: plain_name_def)
  then have "\<not> has_prefix (join_with slash xs) [slash]" by (cases ys) (simp_all add: xs has_prefix_def)
  then show ?thesis
    using assms clean_elems_plain [OF assms(1), of False "[]"] by (simp add: path_Join_def Let_def f path_Clean_def s)
qed

lemma runs_SecureJoin_plain:
  assumes "quiet s" "securejoin_plain X" "real_dirs (files s) p" "list_all plain_name (p @ xs)" "p \<noteq> []" "xs \<noteq> []" "no_links (files s) (p @ xs)"
  shows "runs (SecureJoin X (path_str p # xs)) s (path_str (p @ xs)) (files s)"
proof (rule runs_SecureJoin [OF assms(1)])
  have "x_securejoin X (files s) (path_str p) (join_with slash xs) = Ok (path_str (p @ xs))"
    using assms(2-7) unfolding securejoin_plain_def by blast
  moreover have "list_all plain_name xs" using assms(4) by simp
  ultimately show "SecureJoin_at X (files s) (path_str p # xs) = Ok (path_str (p @ xs))"
    using assms(6) path_Join_plain [of xs] by (cases xs) (auto simp: SecureJoin_at_def neq_Nil_conv)
qed

lemma real_dirs_put_Dir: "real_dirs t p \<Longrightarrow> real_dirs (put (p @ [x]) Dir t) (p @ [x])"
proof -
  assume r: "real_dirs t p"
  have "get (put (p @ [x]) Dir t) q = (if q = p @ [x] then Some Dir else get t q)" for q by (cases "q = []") (auto simp: get_put)
  with r show ?thesis unfolding real_dirs_def by (auto simp: le_Suc_eq)
qed

lemma real_dirs_prune: "real_dirs t p \<Longrightarrow> \<not> prefix q p \<Longrightarrow> q \<noteq> [] \<Longrightarrow> real_dirs (prune q t) p"
  unfolding real_dirs_def by (auto simp: prune_get dest: prefix_order.trans [OF _ take_is_prefix])

text \<open>The tree after the directory \<open>d\<close> was emptied and made again.\<close>

definition fresh_dir :: "fpath \<Rightarrow> fs \<Rightarrow> fs" where
  "fresh_dir d t = put d Dir (prune d t)"

lemma get_fresh: "d \<noteq> [] \<Longrightarrow> get (fresh_dir d t) r = (if r = d then Some Dir else if prefix d r then None else get t r)"
  by (cases "r = []") (auto simp: fresh_dir_def get_put prune_get)

lemma real_dirs_fresh: "d \<noteq> [] \<Longrightarrow> real_dirs t q \<Longrightarrow> \<not> prefix d q \<Longrightarrow> real_dirs (fresh_dir d t) q"
  unfolding real_dirs_def by (auto simp: get_fresh dest: prefix_order.trans [OF _ take_is_prefix])

lemma dir_entries_cong:
  assumes "\<And>y. get t (q @ [y]) = get t' (q @ [y])"
  shows "dir_entries t q = dir_entries t' q"
proof -
  have "set (entry_names t q) = set (entry_names t' q)" using assms by (auto simp: entry_names_set)
  then have "entry_names t q = entry_names t' q" using entry_names_sorted by (metis sorted_distinct_set_unique)
  then show ?thesis by (simp add: dir_entries_def assms)
qed

lemma dir_entry_facts:
  assumes "f \<in> set (dir_entries t q)" "fi_dir f"
  shows "get t (q @ [fi_name f]) = Some Dir" "fi_name f \<in> set (entry_names t q)"
proof -
  from assms(1) obtain y n where y: "y \<in> set (entry_names t q)" "get t (q @ [y]) = Some n" "f = node_info y n"
    by (auto simp: dir_entries_def entry_names_set)
  with assms(2) show "get t (q @ [fi_name f]) = Some Dir" "fi_name f \<in> set (entry_names t q)" by (cases n; simp)+
qed

text \<open>
  The situation in which a layout is certain to succeed: no call fails by itself, the directory of adapted models and the
  way to the model at \<open>q\<close> are real directories with plain names, the model is a file or a directory, and neither is inside the other.
\<close>

definition adapt_ready :: "ext \<Rightarrow> os \<Rightarrow> fpath \<Rightarrow> string \<Rightarrow> fpath \<Rightarrow> node \<Rightarrow> bool" where
  "adapt_ready X s root mid q n \<longleftrightarrow>
     quiet s \<and> securejoin_plain X \<and> real_dirs (files s) root \<and> list_all plain_name (root @ [mid]) \<and> root \<noteq> [] \<and>
     \<not> is_link (get (files s) (root @ [mid])) \<and> q \<noteq> [] \<and> real_dirs (files s) (butlast q) \<and> list_all plain_name q \<and>
     get (files s) q = Some n \<and> \<not> is_link (Some n) \<and> \<not> prefix (root @ [mid]) q \<and> \<not> prefix q (root @ [mid])"

lemma adapt_ready_fresh:
  assumes "adapt_ready X s root mid q n"
  defines "t \<equiv> fresh_dir (root @ [mid]) (files s)"
  shows "real_dirs t (root @ [mid])" "real_dirs t (butlast q)" "get t q = Some n" "ys \<noteq> [] \<Longrightarrow> get t (root @ mid # ys) = None"
    and "get t (q @ [v]) = get (files s) (q @ [v])" "dir_entries t q = dir_entries (files s) q"
proof -
  let ?d = "root @ [mid]"
  note r = assms(1) [unfolded adapt_ready_def]
  have d: "?d \<noteq> []" by simp
  have "real_dirs (prune ?d (files s)) root" by (rule real_dirs_prune) (use r in \<open>auto dest: prefix_length_le\<close>)
  then show "real_dirs t ?d" unfolding t_def fresh_dir_def by (rule real_dirs_put_Dir)
  have "\<not> prefix ?d (butlast q)" using r prefix_order.trans prefixeq_butlast by blast
  with r show "real_dirs t (butlast q)" unfolding t_def by (intro real_dirs_fresh [OF d]) simp_all
  have "\<not> prefix ?d q" "q \<noteq> ?d" using r by auto
  with r show "get t q = Some n" unfolding t_def get_fresh [OF d] by simp
  show "ys \<noteq> [] \<Longrightarrow> get t (root @ mid # ys) = None" unfolding t_def get_fresh [OF d] by simp
  have "\<not> prefix ?d (q @ [v])" for v using r prefix_snoc [of ?d q v] by auto
  then show e: "get t (q @ [v]) = get (files s) (q @ [v])" for v unfolding t_def get_fresh [OF d] by auto
  show "dir_entries t q = dir_entries (files s) q" by (rule dir_entries_cong) (rule e)
qed

lemma runs_layout_start:
  assumes "adapt_ready X s root mid q n"
    and f: "\<And>u. files u = fresh_dir (root @ [mid]) (files s) \<Longrightarrow> quiet u \<Longrightarrow> runs (f (path_str (root @ [mid]))) u y t'"
  shows "runs (andThen (SecureJoin X [path_str root, mid]) (\<lambda>d. andThen (attempt (os_RemoveAll d)) (\<lambda>_.
    andThen (wrapErr (w d) (os_MkdirAll d)) (\<lambda>_. f d)))) s y t'"
proof (rule runs_andThen)
  let ?d = "root @ [mid]"
  note r = assms(1) [unfolded adapt_ready_def]
  have "no_links (files s) ?d" using r by (auto simp: no_links_snoc real_dirs_no_links is_link_def)
  then show "runs (SecureJoin X [path_str root, mid]) s (path_str ?d) (files s)"
    using r runs_SecureJoin_plain [of s X root "[mid]"] by simp
  fix u assume u: "files u = files s" "quiet u"
  show "runs (andThen (attempt (os_RemoveAll (path_str ?d))) (\<lambda>_. andThen (wrapErr (w (path_str ?d)) (os_MkdirAll (path_str ?d))) (\<lambda>_. f (path_str ?d)))) u y t'"
  proof (rule runs_andThen [OF runs_attempt [OF runs_RemoveAll]])
    fix v assume v: "files v = prune ?d (files u)" "quiet v"
    have rd: "real_dirs (files v) root" unfolding v u by (rule real_dirs_prune) (use r in \<open>auto dest: prefix_length_le\<close>)
    have "list_all plain_name ?d" using r by simp
    from runs_MkdirAll_new [OF v(2) rd this] v u
    have "runs (os_MkdirAll (path_str ?d)) v () (fresh_dir ?d (files s))" by (simp add: prune_get fresh_dir_def)
    then show "runs (andThen (wrapErr (w (path_str ?d)) (os_MkdirAll (path_str ?d))) (\<lambda>_. f (path_str ?d))) v y t'"
      by (rule runs_andThen [OF runs_wrapErr]) (rule f)
  qed (use u r in simp_all)
qed

lemma runs_Stat_ready:
  assumes "adapt_ready X s root mid q n" "files u = fresh_dir (root @ [mid]) (files s)" "quiet u"
  shows "runs (os_Stat (path_str q)) u (node_info (last q) n) (files u)"
proof -
  note r = assms(1) [unfolded adapt_ready_def]
  have "q = butlast q @ [last q]" using r by simp
  with runs_Stat [OF assms(3), of "butlast q" "last q" n] adapt_ready_fresh [OF assms(1)] r assms(2) show ?thesis by metis
qed

lemma runs_place_link:
  assumes "quiet s" "real_dirs (files s) d" "list_all plain_name (d @ [x])" "d \<noteq> []" "get (files s) (d @ [x]) = None"
  shows "runs (andThen (wrapErr w (os_MkdirAll (path_Dir (path_str (d @ [x]))))) (\<lambda>_. wrapErr w' (os_Symlink target (path_str (d @ [x]))))) s ()
    (put (d @ [x]) (Link target) (files s))"
proof (rule runs_andThen [OF runs_wrapErr [OF runs_MkdirAll_real]])
  fix u assume "files u = files s" "quiet u"
  with runs_Symlink [of u d x target] assms
  show "runs (wrapErr w' (os_Symlink target (path_str (d @ [x])))) u () (put (d @ [x]) (Link target) (files s))"
    by (intro runs_wrapErr) simp
qed (use assms in \<open>auto simp: comps_path_Dir\<close>)

lemma runs_place_link_new:
  assumes "quiet s" "real_dirs (files s) d" "list_all plain_name (d @ [v, x])" "d \<noteq> []" "get (files s) (d @ [v]) = None"
    and "get (files s) (d @ [v, x]) = None"
  shows "runs (andThen (wrapErr w (os_MkdirAll (path_Dir (path_str (d @ [v, x]))))) (\<lambda>_. wrapErr w' (os_Symlink target (path_str (d @ [v, x]))))) s ()
    (put (d @ [v, x]) (Link target) (put (d @ [v]) Dir (files s)))"
proof -
  have "path_Dir (path_str (d @ [v, x])) = path_str (d @ [v])"
    using path_Dir_path_str [of "d @ [v]" x] assms(3) join_with_path_str [of "d @ [v]"] by simp
  moreover have "runs (wrapErr w' (os_Symlink target (path_str (d @ [v, x])))) u () (put (d @ [v, x]) (Link target) (files u))"
    if "files u = put (d @ [v]) Dir (files s)" "quiet u" for u
    using runs_Symlink [OF that(2), of "d @ [v]" x target] assms real_dirs_put_Dir [OF assms(2)]
    by (intro runs_wrapErr) (simp add: that(1) get_put)
  ultimately show ?thesis
    using runs_MkdirAll_new [OF assms(1,2), of v] assms(3,5) by (intro runs_andThen [OF runs_wrapErr]) auto
qed

text \<open>
  A directory that holds one link and the directories on the way to it, in a tree that is otherwise as it was.
\<close>

definition one_link :: "fpath \<Rightarrow> fpath \<Rightarrow> fpath \<Rightarrow> fs \<Rightarrow> fs \<Rightarrow> bool" where
  "one_link d l src t t' \<longleftrightarrow> (\<forall>p. get t' p =
     (if p = d @ l then Some (Link (path_str src)) else if prefix d p then (if prefix p (d @ l) then Some Dir else None) else get t p))"

lemma get_put_any: "p \<noteq> [] \<Longrightarrow> get (put p n t) q = (if q = p then Some n else get t q)"
  by (cases "q = []") (auto simp: get_put)

lemma one_link_fresh:
  assumes "d \<noteq> []"
  shows "one_link d [v] src t (put (d @ [v]) (Link (path_str src)) (fresh_dir d t))"
    and "one_link d [v, x] src t (put (d @ [v, x]) (Link (path_str src)) (put (d @ [v]) Dir (fresh_dir d t)))"
  using assms unfolding one_link_def
  by (auto simp: get_put_any get_fresh prefix_def append_eq_append_conv2 append_eq_Cons_conv Cons_eq_append_conv)

end
