(* ===== verification/PullerServer.thy ===== *)
theory PullerServer
  imports PullerProps Mmesh
begin

text \<open>
  \<open>model-serving-puller/server\<close>: \<open>config.go\<close>, the handlers of \<open>server.go\<close> and \<open>unloadAll\<close> of \<open>modelstate.go\<close>. The puller
  stands between model mesh and a runtime, usually one of the adapters: it pulls a model before the runtime
  loads it and deletes its files after the runtime unloaded it. The queues in front of the handlers are in the theory
  \<open>ModelState\<close>.
\<close>

section \<open>config.go and server.go\<close>

record PullerServerConfiguration =
  psc_Port :: int
  psc_ModelServerEndpoint :: string

definition GetPullerServerConfigFromEnv :: "env \<Rightarrow> PullerServerConfiguration res" where
  "GetPullerServerConfigFromEnv E =
     res_bind (GetEnvInt E ''PORT'' 8084) (\<lambda>port.
       Ok \<lparr>psc_Port = port, psc_ModelServerEndpoint = GetEnvString E ''MODEL_SERVER_ENDPOINT'' ''port:8085''\<rparr>)"

text \<open>The server: its puller (the configuration, what its pull manager does, the bound on the size computation) and its runtime.\<close>

record PullerServer =
  ps_ext :: ext
  ps_config :: PullerConfiguration
  ps_pull :: "PullCommand \<Rightarrow> (os, unit) step"
  ps_stack :: nat
  ps_runtime :: runtime_client

definition ps_loadModel :: "PullerServer \<Rightarrow> LoadModelRequest \<Rightarrow> (os, LoadModelResponse) step" where
  "ps_loadModel S req =
     andThen (ProcessLoadModelRequest (ps_ext S) (ps_config S) (ps_pull S) (ps_stack S) req) (\<lambda>req'.
     wrapErr (\<lambda>e. status_Errorf (x_code (ps_ext S) e) ''Failed to load model due to model runtime error: %s'' (Some e))
       (rt_LoadModel (ps_runtime S) req'))"

definition ps_unloadModel :: "PullerServer \<Rightarrow> string \<Rightarrow> (os, unit) step" where
  "ps_unloadModel S modelId =
     andThen (unload_tolerant (is_NotFound (ps_ext S)) (\<lambda>e. status_Errorf (x_code (ps_ext S) e) ''Failed to unload model from runtime'' None)
       (rt_UnloadModel (ps_runtime S) modelId)) (\<lambda>_.
     wrapErr (\<lambda>e. status_Errorf (x_code (ps_ext S) e) ''Failed to delete model from local filesystem: %s'' (Some e))
       (CleanupModel (ps_ext S) (ps_config S) modelId))"

definition ps_PredictModelSize :: "PullerServer \<Rightarrow> LoadModelRequest \<Rightarrow> (os, 64 word) step" where
  "ps_PredictModelSize S req = rt_PredictModelSize (ps_runtime S) req"

definition ps_ModelSize :: "PullerServer \<Rightarrow> string \<Rightarrow> (os, 64 word) step" where
  "ps_ModelSize S modelId = rt_ModelSize (ps_runtime S) modelId"

definition PurgeExcludePrefixes :: "string list" where
  "PurgeExcludePrefixes = [''_'']"

definition purge_excluded :: "string \<Rightarrow> bool" where
  "purge_excluded modelid \<longleftrightarrow> list_ex (has_prefix modelid) PurgeExcludePrefixes"

text \<open>The loop of \<open>unloadAll\<close>.\<close>

fun unload_models :: "PullerServer \<Rightarrow> string list \<Rightarrow> (os, unit) step" where
  "unload_models S [] = ret ()"
| "unload_models S (modelid # modelids) =
     (if purge_excluded modelid then unload_models S modelids
      else andThen (unload_tolerant (is_NotFound (ps_ext S)) (\<lambda>e. e) (rt_UnloadModel (ps_runtime S) modelid)) (\<lambda>_.
           andThen (CleanupModel (ps_ext S) (ps_config S) modelid) (\<lambda>_. unload_models S modelids)))"

definition unloadAll :: "PullerServer \<Rightarrow> (os, unit) step" where
  "unloadAll S = andThen (ListModels (ps_config S)) (unload_models S)"

text \<open>The result is Go's pair of a response, which may be nil, and an error.\<close>

definition ps_RuntimeStatus :: "PullerServer \<Rightarrow> (os, RuntimeStatusResponse option \<times> goerr option) step" where
  "ps_RuntimeStatus S =
     andThen (attempt (rt_RuntimeStatus (ps_runtime S))) (\<lambda>r. case r of
       Err e \<Rightarrow> ret (None, Some e)
     | Panic m \<Rightarrow> lift_res (Panic m)
     | Ok rsr \<Rightarrow>
         if rs_Status rsr \<noteq> READY then ret (Some rsr, None)
         else andThen (attempt (unloadAll S)) (\<lambda>u. case u of
                Err e \<Rightarrow> ret (Some (status_only FAILING), Some e)
              | _ \<Rightarrow> ret (Some rsr, None)))"

section \<open>What a runtime behind the puller keeps\<close>

text \<open>
  The contract between the puller and an adapter that runs as its runtime: both work on the same volume, and an
  adapter keeps its own files in a directory of the models' root whose name starts with an underscore. Whatever it is asked to
  unload, it removes entries of that directory only.
\<close>

locale adapter_runtime =
  fixes X :: ext and unload :: "string \<Rightarrow> (os, unit) step" and root :: fpath and sub :: string
  assumes root_plain: "list_all plain_name (root @ [sub])" "root \<noteq> []"
    and sub_excluded: "purge_excluded sub"
    and unload_removes: "securejoin_scoped X \<Longrightarrow> no_links (files s) (root @ [sub]) \<Longrightarrow>
      removed_below (root @ [sub]) (files s) (files (snd (unload m s)))"

lemma removed_below_root:
  assumes "removed_below (root @ [x]) t u" "real_dirs t root"
  shows "real_dirs u root"
  unfolding real_dirs_def
proof (intro allI impI)
  fix i assume i: "i \<le> length root"
  have "\<not> prefix (root @ [x]) (take i root)" using i by (auto dest!: prefix_length_le)
  with assms i show "get u (take i root) = Some Dir" unfolding removed_below_def real_dirs_def by metis
qed

lemma prune_removed_below: "removed_below (root @ [x]) t (prune (root @ [x]) t)"
  by (rule removed_below_prune) simp_all

context adapter_runtime
begin

text \<open>The models of the list that are purged, with the state the loop needs at its start.\<close>

definition ready :: "fs \<Rightarrow> string list \<Rightarrow> bool" where
  "ready t ms \<longleftrightarrow> real_dirs t root \<and> no_links t (root @ [sub]) \<and>
     (\<forall>m \<in> set ms. plain_name m \<and> \<not> is_link (get t (root @ [m])))"

lemma ready_removed:
  "ready t ms \<Longrightarrow> removed_below (root @ [x]) t u \<Longrightarrow> set ms' \<subseteq> set ms \<Longrightarrow> ready u ms'"
  unfolding ready_def using removed_below_root removed_below_no_links removed_below_is_link by blast

lemma unload_models_purges:
  assumes "securejoin_scoped X" "securejoin_plain X" "ps_ext S = X" "rt_UnloadModel (ps_runtime S) = unload"
    and "RootModelDir (ps_config S) = path_str root"
    and "ready (files s) ms" "unload_models S ms s = (Ok (), s')"
  shows "removed_below root (files s) (files s') \<and> (\<forall>m \<in> set ms. purge_excluded m \<or> get (files s') (root @ [m]) = None)"
  using assms(6,7)
proof (induction ms arbitrary: s)
  case Nil
  then show ?case by simp
next
  case (Cons m ms)
  show ?case
  proof (cases "purge_excluded m")
    case True
    have "ready (files s) ms" using Cons.prems(1) by (simp add: ready_def)
    with Cons True show ?thesis by simp
  next
    case False
    with Cons.prems(2) obtain u v where
      u: "unload_tolerant (is_NotFound X) (\<lambda>e. e) (unload m) s = (Ok (), u)" and
      v: "CleanupModel X (ps_config S) m u = (Ok (), v)" and s': "unload_models S ms v = (Ok (), s')"
      by (auto simp: assms(3,4) andThen_Ok_iff)
    have nl: "no_links (files s) (root @ [sub])" using Cons.prems(1) by (simp add: ready_def)
    have "u = snd (unload m s)" using u unload_tolerant_snd by (metis snd_conv)
    with unload_removes [OF assms(1) nl, of m] have ru: "removed_below (root @ [sub]) (files s) (files u)" by simp
    have pl: "list_all plain_name root" using root_plain(1) by simp
    have rdy: "ready (files u) (m # ms)" by (rule ready_removed [OF Cons.prems(1) ru]) simp
    then have "real_dirs (files u) root" "plain_name m" "\<not> is_link (get (files u) (root @ [m]))" by (simp_all add: ready_def)
    from CleanupModel_plain [OF assms(2,5) pl root_plain(2) this v] have fv: "files v = prune (root @ [m]) (files u)" .
    then have rv: "removed_below (root @ [m]) (files u) (files v)" by (simp add: prune_removed_below)
    have "ready (files v) ms" by (rule ready_removed [OF rdy rv]) auto
    note IH = Cons.IH [OF this s', THEN conjunct1] Cons.IH [OF this s', THEN conjunct2]
    have "get (files v) (root @ [m]) = None" by (simp add: fv prune_get)
    then have "get (files s') (root @ [m]) = None" using removed_below_get [OF IH(1)] by metis
    moreover have "removed_below root (files s) (files s')"
      using removed_below_mono [OF ru] removed_below_mono [OF rv] IH(1) removed_below_trans by blast
    ultimately show ?thesis unfolding list.set(2) ball_simps using IH(2) by (intro conjI disjI2)
  qed
qed

text \<open>The entries of the root when the puller has purged all models: those that an adapter or the user keeps there.\<close>

lemma unloadAll_purges:
  assumes "securejoin_scoped X" "securejoin_plain X" "ps_ext S = X" "rt_UnloadModel (ps_runtime S) = unload"
    and "RootModelDir (ps_config S) = path_str root"
    and "ready (files s) (entry_names (files s) root)" "unloadAll S s = (Ok (), s')"
  shows "\<forall>x \<in> set (entry_names (files s') root). purge_excluded x"
proof
  fix x assume x: "x \<in> set (entry_names (files s') root)"
  from assms(7) obtain es u where es: "os_ReadDir (path_str root) s = (Ok es, u)" and
    um: "unload_models S (map fi_name es) u = (Ok (), s')"
    by (auto simp: unloadAll_def ListModels_def assms(5) andThen_Ok_iff)
  have rd: "real_dirs (files s) root" using assms(6) by (simp add: ready_def)
  have pl: "list_all plain_name root" using root_plain(1) by simp
  have fu: "files u = files s" using es os_ReadDir_files by (metis snd_conv)
  have "es = dir_entries (files s) root"
    using es by (auto simp: os_ReadDir_def lookup_def syscall_Ok_iff split: sum.splits option.splits if_splits
      dest!: resolve_no_links [OF real_dirs_no_links [OF rd] pl])
  then have names: "map fi_name es = entry_names (files s) root" by (simp add: dir_entries_names)
  from unload_models_purges [OF assms(1-5), of u "entry_names (files s) root" s'] um assms(6) have
    r: "removed_below root (files s) (files s')"
      "\<forall>m \<in> set (entry_names (files s) root). purge_excluded m \<or> get (files s') (root @ [m]) = None"
    by (simp_all add: fu names)
  from x have g: "get (files s') (root @ [x]) \<noteq> None" by (simp add: entry_names_set)
  with removed_below_get [OF r(1)] have "x \<in> set (entry_names (files s) root)" by (metis entry_names_set)
  have "purge_excluded x \<or> get (files s') (root @ [x]) = None"
    by (rule bspec [OF r(2)]) fact
  then show "purge_excluded x" using g by (elim disjE) simp_all
qed

end


section \<open>Properties\<close>

text \<open>
  C9: After the puller reports READY at start-up, no model of an earlier life is left: every entry directly in the root directory
  of the models has a name with the excluded prefix. And it never reports READY without having purged: if
  unloading or deleting some model fails, the answer is FAILING together with the error. (The runtime is one that keeps
  to the contract of an adapter, and the root holds no symbolic links.)
\<close>

theorem ready_means_purged:
  assumes "adapter_runtime X (rt_UnloadModel (ps_runtime S)) root sub" "securejoin_scoped X" "securejoin_plain X"
    and "ps_ext S = X" "RootModelDir (ps_config S) = path_str root"
    and "rt_RuntimeStatus (ps_runtime S) s = (Ok rsr, u)" "rs_Status rsr = READY"
    and "real_dirs (files u) root" "no_links (files u) (root @ [sub])"
    and "\<And>x. x \<in> set (entry_names (files u) root) \<Longrightarrow> plain_name x \<and> \<not> is_link (get (files u) (root @ [x]))"
    and "ps_RuntimeStatus S s = (Ok (resp, err), s')"
  shows "case err of
      None \<Rightarrow> resp = Some rsr \<and> (\<forall>x \<in> set (entry_names (files s') root). purge_excluded x)
    | Some e \<Rightarrow> resp = Some (status_only FAILING) \<and> unloadAll S u = (Err e, s')"
proof (cases "unloadAll S u")
  case (Pair r v)
  have "adapter_runtime.ready root sub (files u) (entry_names (files u) root)"
    using assms(8-10) by (simp add: adapter_runtime.ready_def [OF assms(1)])
  with adapter_runtime.unloadAll_purges [OF assms(1-4) refl assms(5)] Pair
  have "r = Ok () \<Longrightarrow> \<forall>x \<in> set (entry_names (files v) root). purge_excluded x" by blast
  with assms(6,7,11) Pair show ?thesis
    by (cases r) (auto simp: ps_RuntimeStatus_def andThen_def attempt_def)
qed

text \<open>A server whose runtime is ready and knows no model.\<close>

definition demo_runtime :: runtime_client where
  "demo_runtime = \<lparr>rt_LoadModel = (\<lambda>r. fail_with (ExtErr [])), rt_UnloadModel = (\<lambda>m. fail_with (StatusErr CodeNotFound [] None)),
     rt_PredictModelSize = (\<lambda>r. ret 0), rt_ModelSize = (\<lambda>m. ret 0), rt_RuntimeStatus = ret (status_only READY)\<rparr>"

definition demo_server :: PullerServer where
  "demo_server = \<lparr>ps_ext = demo_ext, ps_config = demo_puller_config, ps_pull = (\<lambda>pc. ret ()), ps_stack = 9, ps_runtime = demo_runtime\<rparr>"

lemma demo_server_sel [simp]:
  "ps_ext demo_server = demo_ext" "ps_config demo_server = demo_puller_config" "ps_runtime demo_server = demo_runtime"
  "rt_UnloadModel demo_runtime = (\<lambda>m. fail_with (StatusErr CodeNotFound [] None))"
  "rt_RuntimeStatus demo_runtime = ret (status_only READY)"
  by (simp_all add: demo_server_def demo_runtime_def)

lemma demo_adapter: "adapter_runtime demo_ext (rt_UnloadModel (ps_runtime demo_server)) [''models''] ''_a''"
  by unfold_locales (simp_all add: plain_name_def purge_excluded_def PurgeExcludePrefixes_def has_prefix_def)

lemma demo_models_facts:
  "RootModelDir demo_puller_config = path_str [''models'']"
  "real_dirs (files (demo_os demo_models_fs)) [''models'']" "no_links (files (demo_os demo_models_fs)) ([''models''] @ [x])"
  "get (files (demo_os demo_models_fs)) ([''models''] @ [y]) \<in> {None, Some Dir}"
  by (simp_all add: demo_puller_config_def path_str_def real_dirs_def no_links_def demo_os_def demo_models_fs_def get_def le_Suc_eq
      all_conj_distrib)

theorem ready_means_purged_witness:
  "list_all purge_excluded (entry_names (files (snd (ps_RuntimeStatus demo_server (demo_os demo_models_fs)))) [''models''])"
proof -
  let ?s = "demo_os demo_models_fs"
  have "entry_names (files ?s) [''models''] = [''a'', ''b'']" by code_simp
  then have "plain_name x \<and> \<not> is_link (get (files ?s) ([''models''] @ [x]))" if "x \<in> set (entry_names (files ?s) [''models''])" for x
    using that demo_models_facts(4) [of x] by (auto simp: plain_name_def is_link_def)
  moreover have "fst (ps_RuntimeStatus demo_server ?s) = Ok (Some (status_only READY), None)" by code_simp
  then have "ps_RuntimeStatus demo_server ?s = (Ok (Some (status_only READY), None), snd (ps_RuntimeStatus demo_server ?s))"
    by (simp add: prod_eq_iff)
  ultimately show ?thesis
    using ready_means_purged [OF demo_adapter demo_ext_laws(1,2), of ?s "status_only READY" ?s "Some (status_only READY)" None
      "snd (ps_RuntimeStatus demo_server ?s)"] demo_models_facts(1-3)
    by (simp add: list_all_iff)
qed

text \<open>
  Unloading through the puller. When it reports success, the runtime has unloaded the model or did not know it, and nothing is left at or
  below the model's directory. When the runtime refuses with any other error, its code is passed on and the files of
  the model stay: nothing outside the adapter's own directory has changed.
\<close>

lemma unload_deletes_only_unloaded:
  assumes "adapter_runtime X (rt_UnloadModel (ps_runtime S)) root sub" "securejoin_scoped X" "securejoin_plain X"
    and "ps_ext S = X" "RootModelDir (ps_config S) = path_str root"
    and "real_dirs (files s) root" "no_links (files s) (root @ [sub])" "plain_name mid" "\<not> is_link (get (files s) (root @ [mid]))"
    and "rt_UnloadModel (ps_runtime S) mid s = (r, u)" "ps_unloadModel S mid s = (r', s')"
  shows "(r' = Ok () \<longrightarrow> (r = Ok () \<or> (\<exists>e. r = Err e \<and> is_NotFound X e)) \<and>
      (\<forall>q. prefix (root @ [mid]) q \<longrightarrow> get (files s') q = None)) \<and>
    (\<forall>e. r = Err e \<and> \<not> is_NotFound X e \<longrightarrow>
       r' = Err (StatusErr (x_code X e) ''Failed to unload model from runtime'' None) \<and> removed_below (root @ [sub]) (files s) (files s'))"
proof -
  have ru: "removed_below (root @ [sub]) (files s) (files u)"
    using adapter_runtime.unload_removes [OF assms(1,2,7), of mid] assms(10) by simp
  have pl: "list_all plain_name root" "root \<noteq> []" using adapter_runtime.root_plain [OF assms(1)] by simp_all
  have "(r = Ok () \<or> (\<exists>e. r = Err e \<and> is_NotFound X e)) \<and> files s' = prune (root @ [mid]) (files u)" if "r' = Ok ()"
  proof -
    from assms(11) that have t: "unload_tolerant (is_NotFound X) g (rt_UnloadModel (ps_runtime S) mid) s = (Ok (), u)"
      and c: "CleanupModel X (ps_config S) mid u = (Ok (), s')" for g
      using unload_tolerant_snd assms(10)
      by (auto simp: ps_unloadModel_def assms(4) andThen_Ok_iff wrapErr_Ok_iff unload_tolerant_Ok_iff simp del: wrapErr_apply)
    from CleanupModel_plain [OF assms(3,5) pl removed_below_root [OF ru assms(6)] assms(8) removed_below_is_link [OF ru assms(9)] c]
    show ?thesis using t assms(10) by (auto simp: unload_tolerant_Ok_iff)
  qed
  moreover have "r' = Err (StatusErr (x_code X e) ''Failed to unload model from runtime'' None) \<and> files s' = files u"
    if "r = Err e" "\<not> is_NotFound X e" for e
    using assms(4,10,11) that unload_tolerant_Err [of "rt_UnloadModel (ps_runtime S) mid" s e u "is_NotFound X"]
    by (simp add: ps_unloadModel_def status_Errorf_def andThen_def)
  ultimately show ?thesis using ru by (simp add: prune_get)
qed

lemma unload_deletes_only_unloaded_example:
  "fst (ps_unloadModel demo_server ''a'' (demo_os demo_models_fs)) = Ok () \<and>
   get (files (snd (ps_unloadModel demo_server ''a'' (demo_os demo_models_fs)))) [''models'', ''a'', ''f''] = None"
proof -
  let ?s = "demo_os demo_models_fs"
  have "plain_name ''a''" "\<not> is_link (get (files ?s) ([''models''] @ [''a'']))"
    using demo_models_facts(4) [of "''a''"] by (auto simp: plain_name_def is_link_def)
  moreover have ok: "fst (ps_unloadModel demo_server ''a'' ?s) = Ok ()" by code_simp
  ultimately show ?thesis
    using unload_deletes_only_unloaded [OF demo_adapter demo_ext_laws(1,2), of ?s "''a''" "Err (StatusErr CodeNotFound [] None)" ?s
      "Ok ()" "snd (ps_unloadModel demo_server ''a'' ?s)"] demo_models_facts(1-3)
    by (simp add: prod_eq_iff)
qed

end
