(* ===== verification/AdapterStartup.thy ===== *)
theory AdapterStartup
  imports LayoutScope PullerServer
begin

text \<open>
  A model server starts: the puller asks its runtime for its status, the adapter that answers empties the directory of adapted models, and
  the puller purges the models of an earlier life. That this succeeds when no call fails by itself.
\<close>

section \<open>Emptying a directory\<close>

definition prune_all :: "fpath \<Rightarrow> string list \<Rightarrow> fs \<Rightarrow> fs" where
  "prune_all p xs t = fold (\<lambda>x. prune (p @ [x])) xs t"

lemma prune_all_simps [simp]: "prune_all p [] t = t" "prune_all p (x # xs) t = prune_all p xs (prune (p @ [x]) t)"
  by (simp_all add: prune_all_def)

lemma get_prune_all: "get (prune_all p xs t) q = (if \<exists>x \<in> set xs. prefix (p @ [x]) q then None else get t q)"
  by (induction xs arbitrary: t) (simp_all add: prune_get)

lemma prune_all_below: "removed_below p t (prune_all p xs t)"
  unfolding removed_below_def by (auto simp: get_prune_all dest: append_prefixD split: if_splits)

lemma prune_all_real: "real_dirs t p \<Longrightarrow> real_dirs (prune_all p xs t) p"
proof (induction xs arbitrary: t)
  case (Cons x xs)
  have "real_dirs (prune (p @ [x]) t) p" by (rule removed_below_root [OF prune_removed_below Cons.prems])
  with Cons.IH show ?case by simp
qed simp

lemma runs_clear_entries:
  assumes "quiet s" "real_dirs (files s) p" "list_all plain_name p" "p \<noteq> []" "list_all (\<lambda>f. plain_name (fi_name f)) fs"
  shows "runs (clear_entries (path_str p) cond fs) s ()
    (prune_all p (map fi_name (filter (\<lambda>f. cond = None \<or> the cond f) fs)) (files s))"
  using assms
proof (induction fs arbitrary: s)
  case Nil
  then show ?case by (simp add: runs_def)
next
  case (Cons f fs)
  show ?case
  proof (cases "cond = None \<or> the cond f")
    case False
    then obtain k where "cond = Some k" "\<not> k f" by auto
    then show ?thesis using Cons by simp
  next
    case True
    have j: "path_Join [path_str p, fi_name f] = path_str (p @ [fi_name f])" using path_Join_path_str Cons.prems by simp
    have rm: "runs (attempt (os_RemoveAll (path_str (p @ [fi_name f])))) s (Ok ()) (prune (p @ [fi_name f]) (files s))"
      by (rule runs_attempt [OF runs_RemoveAll]) (use Cons.prems in simp_all)
    have "runs (clear_entries (path_str p) cond fs) u () (prune_all p (map fi_name (filter (\<lambda>f. cond = None \<or> the cond f) fs)) (files u))"
      if "files u = prune (p @ [fi_name f]) (files s)" "quiet u" for u
      using Cons.IH [OF that(2)] Cons.prems removed_below_root [OF prune_removed_below Cons.prems(2)] that(1) by simp
    then show ?thesis using True
      by (auto simp: Let_def j intro!: runs_andThen [OF rm])
  qed
qed

lemma runs_ClearDirectoryContents_cond:
  assumes "quiet s" "real_dirs (files s) p" "list_all plain_name p" "p \<noteq> []" "list_all plain_name (entry_names (files s) p)"
  shows "runs (ClearDirectoryContents (path_str p) cond) s ()
    (prune_all p (map fi_name (filter (\<lambda>f. cond = None \<or> the cond f) (dir_entries (files s) p))) (files s))"
  unfolding ClearDirectoryContents_def
proof (rule runs_andThen [OF runs_attempt [OF runs_ReadDir [OF assms(1-3)]]])
  fix u assume u: "files u = files s" "quiet u"
  have "list_all (\<lambda>f. plain_name (fi_name f)) (dir_entries (files s) p)"
    using assms(5) unfolding dir_entries_names [symmetric] by (simp add: list.pred_map comp_def)
  with runs_clear_entries [OF u(2), of p "dir_entries (files s) p" cond] assms(2-4) u(1)
  show "runs (case Ok (dir_entries (files s) p) of
      Err e \<Rightarrow> if errors_Is_NotExist e then ret () else fail_with (ErrWrap ''Error listing files to clean up in model dir %s: %w'' [path_str p] e)
    | Ok fs \<Rightarrow> clear_entries (path_str p) cond fs | Panic m \<Rightarrow> lift_res (Panic m)) u ()
    (prune_all p (map fi_name (filter (\<lambda>f. cond = None \<or> the cond f) (dir_entries (files s) p))) (files s))"
    by simp
qed

text \<open>Without a condition all entries are removed, with one on the name those that satisfy it.\<close>

lemma runs_ClearDirectoryContents:
  assumes "quiet s" "real_dirs (files s) p" "list_all plain_name p" "p \<noteq> []" "list_all plain_name (entry_names (files s) p)"
  shows "runs (ClearDirectoryContents (path_str p) None) s () (prune_all p (entry_names (files s) p) (files s))"
    and "runs (ClearDirectoryContents (path_str p) (Some (\<lambda>f. P (fi_name f)))) s () (prune_all p (filter P (entry_names (files s) p)) (files s))"
  using runs_ClearDirectoryContents_cond [OF assms, of None] runs_ClearDirectoryContents_cond [OF assms, of "Some (\<lambda>f. P (fi_name f))"]
  by (simp_all add: dir_entries_names filter_map comp_def flip: dir_entries_names)

text \<open>
  What the emptying of a directory can do, also when it fails half way: entries strictly below it are removed, and nothing else changes.
\<close>

definition swept :: "fpath \<Rightarrow> fs \<Rightarrow> fs \<Rightarrow> bool" where
  "swept d t0 t \<longleftrightarrow> (\<forall>q. get t q \<noteq> get t0 q \<longrightarrow> strict_prefix d q \<and> get t q = None)"

lemma swept_refl [simp]: "swept d t t"
  by (simp add: swept_def)

lemma swept_trans: "swept d t0 t1 \<Longrightarrow> swept d t1 t2 \<Longrightarrow> swept d t0 t2"
  unfolding swept_def by metis

lemma swept_removed: "removed_below (d @ [x]) t0 t \<Longrightarrow> swept d t0 t"
  unfolding swept_def removed_below_def by (auto simp: prefix_def strict_prefix_def)

lemma swept_get: "swept d t0 t \<Longrightarrow> get t q = None \<or> get t q = get t0 q"
  unfolding swept_def by blast

lemma swept_outside: "swept d t0 t \<Longrightarrow> \<not> strict_prefix d q \<Longrightarrow> get t q = get t0 q"
  unfolding swept_def by blast

lemma swept_real_dirs:
  assumes "swept d t0 t" "real_dirs t0 d"
  shows "real_dirs t d"
  unfolding real_dirs_def
proof (intro allI impI)
  fix i assume i: "i \<le> length d"
  have "\<not> strict_prefix d (take i d)" by (meson prefix_order.less_le_not_le take_is_prefix)
  with swept_outside [OF assms(1) this] assms(2) i show "get t (take i d) = Some Dir" by (simp add: real_dirs_def)
qed

lemma os_RemoveAll_entry:
  assumes "real_dirs (files s) p" "list_all plain_name (p @ [x])"
  shows "removed_below (p @ [x]) (files s) (files (snd (os_RemoveAll (path_str (p @ [x])) s)))"
proof -
  have "resolve (files s) False (path_str (p @ [x])) = Inr (p @ [x])" using resolve_real [OF assms(1)] assms(2) by simp
  then show ?thesis
    by (auto simp: os_RemoveAll_def syscall_def Let_def fail_with_def prune_removed_below split: option.splits)
qed

lemma clear_entries_swept:
  assumes "list_all plain_name d" "d \<noteq> []" "list_all (\<lambda>f. plain_name (fi_name f)) fs"
  shows "keeps (\<lambda>s. real_dirs (files s) d \<and> swept d t0 (files s)) (clear_entries (path_str d) cond fs)"
  using assms(3)
proof (induction fs)
  case (Cons f fs)
  have j: "path_Join [path_str d, fi_name f] = path_str (d @ [fi_name f])" using path_Join_path_str assms(1,2) Cons.prems by simp
  have "keeps (\<lambda>s. real_dirs (files s) d \<and> swept d t0 (files s)) (os_RemoveAll (path_str (d @ [fi_name f])))"
    unfolding keeps_def
  proof (intro allI impI)
    fix s :: os assume s: "real_dirs (files s) d \<and> swept d t0 (files s)"
    have "removed_below (d @ [fi_name f]) (files s) (files (snd (os_RemoveAll (path_str (d @ [fi_name f])) s)))"
      by (rule os_RemoveAll_entry) (use s assms(1) Cons.prems in simp_all)
    from swept_removed [OF this] s show "real_dirs (files (snd (os_RemoveAll (path_str (d @ [fi_name f])) s))) d \<and>
        swept d t0 (files (snd (os_RemoveAll (path_str (d @ [fi_name f])) s)))"
      using swept_real_dirs swept_trans by blast
  qed
  then show ?case using Cons by (auto simp: Let_def j split: res.split intro!: keeps_intro)
qed (simp add: keeps_def)

lemma ClearDirectoryContents_swept:
  assumes "list_all plain_name d" "d \<noteq> []" "real_dirs (files s) d" "list_all plain_name (entry_names (files s) d)"
  shows "swept d (files s) (files (snd (ClearDirectoryContents (path_str d) cond s)))"
proof -
  obtain r u where r: "os_ReadDir (path_str d) s = (r, u)" by fastforce
  have u: "files u = files s" using r os_ReadDir_files [of "path_str d" s] by simp
  have "list_all (\<lambda>f. plain_name (fi_name f)) fs" if "r = Ok fs" for fs
  proof -
    have "fs = dir_entries (files s) d"
      using r that resolve_real_dirs [OF assms(3,1)] by (auto simp: os_ReadDir_def lookup_def syscall_Ok_iff split: option.splits if_splits)
    then show ?thesis using assms(4) unfolding dir_entries_names [symmetric] by (simp add: list.pred_map comp_def)
  qed
  then have "r = Ok fs \<Longrightarrow> swept d (files s) (files (snd (clear_entries (path_str d) cond fs u)))" for fs
    using keepsD [OF clear_entries_swept [OF assms(1,2), of fs "files s" cond], of u] assms(3) u by simp
  with r u show ?thesis by (cases r) (simp_all add: ClearDirectoryContents_def andThen_def attempt_def)
qed

text \<open>As a predicate that steps keep.\<close>

definition sweep_inv :: "fpath \<Rightarrow> fs \<Rightarrow> fs \<Rightarrow> bool" where
  "sweep_inv d t0 t \<longleftrightarrow> swept d t0 t \<and> real_dirs t d \<and> list_all plain_name (entry_names t d)"

lemma swept_names: "swept d t0 t \<Longrightarrow> list_all plain_name (entry_names t0 d) \<Longrightarrow> list_all plain_name (entry_names t d)"
  unfolding list_all_iff
proof
  fix x assume s: "swept d t0 t" "\<forall>x \<in> set (entry_names t0 d). plain_name x" and x: "x \<in> set (entry_names t d)"
  have "get t0 (d @ [x]) \<noteq> None" using swept_get [OF s(1), of "d @ [x]"] x by (auto simp: entry_names_set)
  then show "plain_name x" using s(2) by (simp add: entry_names_set)
qed

lemma sweep_ClearDirectoryContents:
  assumes "list_all plain_name d" "d \<noteq> []"
  shows "keeps (\<lambda>s. sweep_inv d t0 (files s)) (ClearDirectoryContents (path_str d) cond)"
  unfolding keeps_def
proof (intro allI impI)
  fix s :: os assume s: "sweep_inv d t0 (files s)"
  then have sw: "swept d (files s) (files (snd (ClearDirectoryContents (path_str d) cond s)))"
    by (intro ClearDirectoryContents_swept [OF assms]) (simp_all add: sweep_inv_def)
  from s swept_trans [OF _ sw] swept_real_dirs [OF sw] swept_names [OF sw]
  show "sweep_inv d t0 (files (snd (ClearDirectoryContents (path_str d) cond s)))" by (simp add: sweep_inv_def)
qed

section \<open>Start-up\<close>

text \<open>
  An adapter that works: asked for its status it removes from its directory the entries that \<open>cleared\<close> selects and is ready, and it unloads every
  model it is asked to, removing the model's adapted files, which are the entry \<open>entry m\<close>.
\<close>

locale adapter_startup = adapter_runtime X unload root sub
  for X :: ext and unload :: "string \<Rightarrow> (os, unit) step" and root :: fpath and sub :: string +
  fixes status :: "(os, RuntimeStatusResponse) step" and rsr :: RuntimeStatusResponse
    and "entry" :: "string \<Rightarrow> string" and cleared :: "string \<Rightarrow> bool"
  assumes unload_runs: "quiet s \<Longrightarrow> securejoin_plain X \<Longrightarrow> real_dirs (files s) (root @ [sub]) \<Longrightarrow> plain_name m \<Longrightarrow>
      get (files s) (root @ [sub, entry m]) = None \<Longrightarrow> runs (unload m) s () (prune (root @ [sub, entry m]) (files s))"
    and entry_cleared: "cleared (entry m)"
    and status_runs: "quiet s \<Longrightarrow> real_dirs (files s) (root @ [sub]) \<Longrightarrow> list_all plain_name (entry_names (files s) (root @ [sub])) \<Longrightarrow>
      runs status s rsr (prune_all (root @ [sub]) (filter cleared (entry_names (files s) (root @ [sub]))) (files s))"
    and status_ready: "rs_Status rsr = READY"
begin

lemma unload_models_run:
  assumes X: "securejoin_plain X" "ps_ext S = X" "rt_UnloadModel (ps_runtime S) = unload" "RootModelDir (ps_config S) = path_str root"
    and "quiet s" "real_dirs (files s) (root @ [sub])" "\<And>x. cleared x \<Longrightarrow> get (files s) (root @ [sub, x]) = None"
    and "list_all plain_name ms" "\<And>m. m \<in> set ms \<Longrightarrow> \<not> is_link (get (files s) (root @ [m]))"
  shows "\<exists>t'. runs (unload_models S ms) s () t'"
  using assms(5-)
proof (induction ms arbitrary: s)
  case Nil
  then show ?case by (auto simp: runs_def)
next
  case (Cons m ms)
  show ?case
  proof (cases "purge_excluded m")
    case True
    with Cons show ?thesis by simp
  next
    case False
    let ?t = "prune (root @ [m]) (prune (root @ [sub, entry m]) (files s))"
    have pm: "plain_name m" "m \<noteq> sub" using Cons.prems(4) False sub_excluded by auto
    have pr: "list_all plain_name (root @ [m])" "root \<noteq> []" using root_plain pm by simp_all
    have rd: "real_dirs (files s) root" using real_dirs_appendD [of "files s" root "[sub]"] Cons.prems(2) by simp
    have "get (files s) (root @ [sub, entry m]) = None" using Cons.prems(3) entry_cleared by blast
    then have un: "runs (unload m) s () (prune (root @ [sub, entry m]) (files s))" using unload_runs Cons.prems(1,2) X(1) pm by blast
    then obtain u where u: "unload m s = (Ok (), u)" "files u = prune (root @ [sub, entry m]) (files s)" "quiet u" by (auto simp: runs_def)
    have "unload_tolerant (is_NotFound X) (\<lambda>e. e) (unload m) s = (Ok (), u)" using u(1) by (simp add: unload_tolerant_Ok_iff)
    moreover have rdu: "real_dirs (files u) root" unfolding u by (rule real_dirs_prune [OF rd]) (auto dest: prefix_length_le)
    have nl: "\<not> is_link (get (files u) (root @ [m]))" using Cons.prems(5) by (simp add: u prune_get is_link_def)
    have "SecureJoin X [path_str root, m] u = (Ok (path_str (root @ [m])), u)"
      using securejoin_plainD [OF X(1) rdu] pr nl pm by (simp add: SecureJoin_def SecureJoin_at_def)
    moreover have "runs (os_RemoveAll (path_str (root @ [m]))) u () ?t" using runs_RemoveAll [OF u(3) rdu pr(1)] by (simp add: u)
    then obtain v where v: "os_RemoveAll (path_str (root @ [m])) u = (Ok (), v)" "files v = ?t" "quiet v" by (auto simp: runs_def)
    ultimately have step: "unload_models S (m # ms) s = unload_models S ms v"
      using False by (simp add: X andThen_def CleanupModel_def)
    have "\<not> prefix (root @ [m]) (root @ [sub])" "\<not> prefix (root @ [sub, entry m]) (root @ [sub])" using pm by (auto dest: prefix_length_le)
    then have "real_dirs (files v) (root @ [sub])" unfolding v using Cons.prems(2) by (intro real_dirs_prune) simp_all
    moreover have "get (files v) (root @ [sub, x]) = None" if "cleared x" for x using Cons.prems(3) [OF that] by (simp add: v prune_get)
    moreover have "\<not> is_link (get (files v) (root @ [x]))" if "x \<in> set ms" for x
      using Cons.prems(5) [of x] that by (auto simp: v prune_get is_link_def)
    moreover have "list_all plain_name ms" using Cons.prems(4) by simp
    ultimately show ?thesis using Cons.IH [OF v(3)] unfolding runs_def step by blast
  qed
qed

lemma startup_runs:
  assumes X: "securejoin_scoped X" "securejoin_plain X" "ps_ext S = X" "rt_UnloadModel (ps_runtime S) = unload" "rt_RuntimeStatus (ps_runtime S) = status"
      "RootModelDir (ps_config S) = path_str root"
    and s: "quiet s" "real_dirs (files s) (root @ [sub])" "list_all plain_name (entry_names (files s) (root @ [sub]))"
      "list_all plain_name (entry_names (files s) root)" "\<And>x. x \<in> set (entry_names (files s) root) \<Longrightarrow> \<not> is_link (get (files s) (root @ [x]))"
  shows "\<exists>s'. ps_RuntimeStatus S s = (Ok (Some rsr, None), s') \<and> quiet s' \<and> removed_below root (files s) (files s') \<and>
    (\<forall>x. get (files s') (root @ [x]) \<noteq> None \<longrightarrow> purge_excluded x) \<and> (\<forall>x. cleared x \<longrightarrow> get (files s') (root @ [sub, x]) = None)"
proof -
  let ?t = "prune_all (root @ [sub]) (filter cleared (entry_names (files s) (root @ [sub]))) (files s)"
  obtain u where u: "status s = (Ok rsr, u)" "files u = ?t" "quiet u" using status_runs [OF s(1-3)] by (auto simp: runs_def)
  have ru: "removed_below (root @ [sub]) (files s) (files u)" unfolding u by (rule prune_all_below)
  have empty: "get (files u) (root @ [sub, x]) = None" if "cleared x" for x
    using that unfolding u get_prune_all by (cases "get (files s) (root @ [sub, x])") (auto simp: entry_names_set)
  have rd: "real_dirs (files u) (root @ [sub])" unfolding u by (rule prune_all_real [OF s(2)])
  have names: "set (entry_names (files u) root) \<subseteq> set (entry_names (files s) root)"
    using removed_below_get [OF ru] by (metis entry_names_set subsetI)
  have nl: "\<not> is_link (get (files u) (root @ [x]))" if "x \<in> set (entry_names (files u) root)" for x
    using removed_below_is_link [OF ru] s(5) names that by blast
  have pn: "list_all plain_name (entry_names (files u) root)" using s(4) names by (auto simp: list_all_iff)
  have rr: "real_dirs (files u) root" using rd by (rule real_dirs_appendD)
  have pl: "list_all plain_name root" using root_plain by simp
  obtain w where w: "os_ReadDir (path_str root) u = (Ok (dir_entries (files u) root), w)" "files w = files u" "quiet w"
    using runs_ReadDir [OF u(3) rr pl] by (auto simp: runs_def)
  obtain v where v: "unload_models S (entry_names (files u) root) w = (Ok (), v)" "quiet v"
    using unload_models_run [OF X(2-4,6) w(3), of "entry_names (files u) root"] w rd empty pn nl by (auto simp: runs_def)
  have all: "unloadAll S u = (Ok (), v)"
    using w(1) v(1) by (simp add: unloadAll_def ListModels_def X(6) andThen_def dir_entries_names)
  have rdy: "ready (files w) (entry_names (files u) root)"
    using rr real_dirs_no_links [OF rd] pn nl by (simp add: ready_def w list_all_iff)
  from unload_models_purges [OF X(1-4,6) rdy v(1)] have
    p: "removed_below root (files u) (files v)" "\<forall>m \<in> set (entry_names (files u) root). purge_excluded m \<or> get (files v) (root @ [m]) = None"
    by (simp_all add: w)
  have "removed_below root (files s) (files v)" using removed_below_trans removed_below_mono [OF ru] p(1) by blast
  moreover have "purge_excluded x" if "get (files v) (root @ [x]) \<noteq> None" for x
    using p(2) removed_below_get [OF p(1), of "root @ [x]"] that by (metis entry_names_set)
  moreover have "get (files v) (root @ [sub, x]) = None" if "cleared x" for x using removed_below_get [OF p(1)] empty [OF that] by metis
  ultimately show ?thesis
    using u(1) status_ready all v(2) by (simp add: ps_RuntimeStatus_def X andThen_def attempt_def)
qed

text \<open>The same in terms of the names in the two directories.\<close>

lemma starts_clean:
  assumes "securejoin_scoped X" "securejoin_plain X" "ps_ext S = X" "rt_UnloadModel (ps_runtime S) = unload" "rt_RuntimeStatus (ps_runtime S) = status"
      "RootModelDir (ps_config S) = path_str root"
    and "quiet s" "real_dirs (files s) (root @ [sub])" "list_all plain_name (entry_names (files s) (root @ [sub]))"
      "list_all plain_name (entry_names (files s) root)" "list_all (\<lambda>x. \<not> is_link (get (files s) (root @ [x]))) (entry_names (files s) root)"
  shows "\<exists>s'. ps_RuntimeStatus S s = (Ok (Some rsr, None), s') \<and> list_all (\<lambda>x. \<not> cleared x) (entry_names (files s') (root @ [sub])) \<and>
    list_all purge_excluded (entry_names (files s') root) \<and> removed_below root (files s) (files s')"
proof -
  have nl: "\<not> is_link (get (files s) (root @ [x]))" if "x \<in> set (entry_names (files s) root)" for x
    using assms(11) that by (auto simp: list_all_iff)
  from startup_runs [OF assms(1-10) nl]
  obtain s' where s': "ps_RuntimeStatus S s = (Ok (Some rsr, None), s')" "removed_below root (files s) (files s')"
      "\<And>x. get (files s') (root @ [x]) \<noteq> None \<Longrightarrow> purge_excluded x" "\<And>x. cleared x \<Longrightarrow> get (files s') (root @ [sub, x]) = None" by auto
  have "list_all (\<lambda>x. \<not> cleared x) (entry_names (files s') (root @ [sub]))" using s'(4) by (auto simp: list_all_iff entry_names_set)
  moreover have "list_all purge_excluded (entry_names (files s') root)"
    using s'(3) by (auto simp: list_all_iff entry_names_set)
  ultimately show ?thesis using s'(1,2) by auto
qed

end

text \<open>The removal of a model's adapted files.\<close>

lemma remove_model_dir_below:
  assumes "joins_below X (files s) (ac_RootModelDir c) m d" "d \<noteq> []"
  shows "removed_below d (files s) (files (snd (remove_model_dir X c m s)))"
proof (cases "SecureJoin_at X (files s) [ac_RootModelDir c, m]")
  case (Ok q)
  with assms(1) obtain cs where
    q: "q = path_str (d @ cs)" "list_all plain_name (d @ cs)" "no_links (files s) (d @ cs)" unfolding joins_below_def by blast
  have "removed_below (d @ cs) (files s) (files (snd (os_RemoveAll q s)))"
    using os_RemoveAll_below [OF q(3,2), of "d @ cs"] q(1) assms(2) by simp
  from removed_below_mono [OF this] show ?thesis using Ok by (simp add: remove_model_dir_def SecureJoin_def andThen_def)
qed (simp_all add: remove_model_dir_def andThen_def SecureJoin_def)

lemma runs_remove_model_dir:
  assumes "quiet s" "securejoin_plain X" "real_dirs (files s) root" "list_all plain_name (root @ [m])" "root \<noteq> []"
    and "\<not> is_link (get (files s) (root @ [m]))" "ac_RootModelDir c = path_str root"
  shows "runs (remove_model_dir X c m) s () (prune (root @ [m]) (files s))"
proof -
  have "SecureJoin X [path_str root, m] s = (Ok (path_str (root @ [m])), s)"
    using securejoin_plainD [OF assms(2,3)] assms(4-6) by (simp add: SecureJoin_def SecureJoin_at_def)
  moreover have "runs (wrapErr g (os_RemoveAll (path_str (root @ [m])))) s () (prune (root @ [m]) (files s))" for g
    by (rule runs_wrapErr [OF runs_RemoveAll]) (use assms in simp_all)
  ultimately show ?thesis by (simp add: remove_model_dir_def assms(7) runs_def andThen_def del: wrapErr_apply)
qed

text \<open>What an unload of an adapter does after the runtime has answered, without an embedded puller.\<close>

lemma unload_below:
  assumes "joins_below X (files s) (ac_RootModelDir c) mid d" "d \<noteq> []" "\<not> ac_UseEmbeddedPuller c" "files (snd (m s)) = files s"
  shows "removed_below d (files s) (files (snd (andThen (unload_tolerant F g m) (\<lambda>_.
    andThen (remove_model_dir X c mid) (\<lambda>_. embedded_cleanup X c P mid)) s)))"
proof (cases "unload_tolerant F g m s")
  case (Pair r u)
  then have u: "files u = files s" using unload_tolerant_snd [of F g m s] assms(4) by simp
  have "removed_below d (files u) (files (snd (remove_model_dir X c mid u)))"
    by (rule remove_model_dir_below [OF _ assms(2)]) (simp add: u assms(1))
  moreover have "files (snd (andThen (remove_model_dir X c mid) (\<lambda>_. embedded_cleanup X c P mid) u)) = files (snd (remove_model_dir X c mid u))"
    using assms(3) by (cases "remove_model_dir X c mid u"; cases "fst (remove_model_dir X c mid u)") (simp_all add: embedded_cleanup_def andThen_def)
  ultimately show ?thesis using Pair u by (cases r) (simp_all add: andThen_def [of "unload_tolerant F g m"])
qed

lemma runs_unload:
  assumes "quiet s" "securejoin_plain X" "real_dirs (files s) root" "list_all plain_name (root @ [mid])" "root \<noteq> []"
    and "\<not> is_link (get (files s) (root @ [mid]))" "ac_RootModelDir c = path_str root" "\<not> ac_UseEmbeddedPuller c"
    and "runs m s () (files s) \<or> (\<exists>e. m s = (Err e, s) \<and> F e)"
  shows "runs (andThen (unload_tolerant F g m) (\<lambda>_. andThen (remove_model_dir X c mid) (\<lambda>_. embedded_cleanup X c P mid))) s ()
    (prune (root @ [mid]) (files s))"
proof -
  have "runs (unload_tolerant F g m) s () (files s)"
    using assms(9) assms(1) by (auto simp: runs_def unload_tolerant_Ok_iff)
  then show ?thesis
  proof (rule runs_andThen)
    fix u assume u: "files u = files s" "quiet u"
    have "runs (remove_model_dir X c mid) u () (prune (root @ [mid]) (files u))"
      by (rule runs_remove_model_dir) (use assms u in simp_all)
    then show "runs (andThen (remove_model_dir X c mid) (\<lambda>_. embedded_cleanup X c P mid)) u () (prune (root @ [mid]) (files s))"
      using assms(8) u(1) by (auto simp: embedded_cleanup_def runs_def andThen_def)
  qed
qed

text \<open>Clearing the directory of adapted models at start-up, without an embedded puller.\<close>

lemma runs_clear_model_dirs:
  assumes "quiet s" "real_dirs (files s) p" "list_all plain_name p" "p \<noteq> []" "list_all plain_name (entry_names (files s) p)"
    and "ac_RootModelDir c = path_str p" "\<not> ac_UseEmbeddedPuller c"
  shows "runs (clear_model_dirs c P sub) s () (prune_all p (entry_names (files s) p) (files s))"
  using runs_ClearDirectoryContents(1) [OF assms(1-5)] assms(6,7) by (auto simp: clear_model_dirs_def runs_def andThen_def)

lemma demo_key_ext_laws: "securejoin_scoped demo_key_ext" "securejoin_plain demo_key_ext"
  by (simp_all add: demo_securejoin_scoped demo_securejoin_plain demo_key_ext_def)

text \<open>Every adapter whose handlers have the common form starts up.\<close>

lemma filter_all: "filter (\<lambda>x. True) xs = xs"
  by simp

lemma list_all_False: "list_all (\<lambda>x. False) xs \<longleftrightarrow> xs = []"
  by (cases xs) simp_all

lemma adapter_startupI:
  assumes "list_all plain_name (root @ [sub])" "root \<noteq> []" "purge_excluded sub"
    and c: "ac_RootModelDir c = path_str (root @ [sub])" "\<not> ac_UseEmbeddedPuller c"
    and unload: "\<And>m. unload m = andThen (unload_tolerant F g (rt m)) (\<lambda>_. andThen (remove_model_dir X c m) (\<lambda>_. embedded_cleanup X c P m))"
    and rt: "\<And>m s. files (snd (rt m s)) = files s" "\<And>m s. quiet s \<Longrightarrow> runs (rt m) s () (files s) \<or> (\<exists>e. rt m s = (Err e, s) \<and> F e)"
    and status: "\<And>s t. quiet s \<Longrightarrow> (\<And>u. files u = files s \<Longrightarrow> quiet u \<Longrightarrow> runs (clear_model_dirs c P sub) u () t) \<Longrightarrow> runs status s rsr t"
    and rsr: "rs_Status rsr = READY"
  shows "adapter_startup X unload root sub status rsr (\<lambda>m. m) (\<lambda>x. True)"
proof unfold_locales
  show "removed_below (root @ [sub]) (files s) (files (snd (unload m s)))"
    if "securejoin_scoped X" "no_links (files s) (root @ [sub])" for s m
    unfolding unload
    by (rule unload_below [where m = "rt m", OF _ _ c(2) rt(1)]) (simp_all add: c(1) joins_below_root [OF that(1) assms(1) _ that(2)])
  fix s :: os
  assume q: "quiet s" and rd: "real_dirs (files s) (root @ [sub])"
  show "runs (unload m) s () (prune (root @ [sub, m]) (files s))"
    if "securejoin_plain X" "plain_name m" "get (files s) (root @ [sub, m]) = None" for m
    unfolding unload using runs_unload [OF q that(1) rd _ _ _ c rt(2) [OF q], of m] assms(1) that by (simp add: is_link_def)
  show "runs status s rsr (prune_all (root @ [sub]) (filter (\<lambda>x. True) (entry_names (files s) (root @ [sub]))) (files s))"
    if "list_all plain_name (entry_names (files s) (root @ [sub]))"
    unfolding filter_all
  proof (rule status [OF q])
    fix u :: os assume u: "files u = files s" "quiet u"
    show "runs (clear_model_dirs c P sub) u () (prune_all (root @ [sub]) (entry_names (files s) (root @ [sub])) (files s))"
      using runs_clear_model_dirs [OF u(2) _ assms(1) _ _ c, of P sub] rd that by (simp add: u(1))
  qed
qed (use assms in simp_all)

section \<open>Runtimes with a repository\<close>

text \<open>A runtime that does not write to the volume.\<close>

definition client_readonly :: "repository_client \<Rightarrow> bool" where
  "client_readonly C \<longleftrightarrow> (\<forall>P. (\<forall>m. keeps (\<lambda>s. P (files s)) (rc_ModelLoad C m) \<and> keeps (\<lambda>s. P (files s)) (rc_ModelUnload C m)) \<and>
     keeps (\<lambda>s. P (files s)) (rc_ServerReady C) \<and> keeps (\<lambda>s. P (files s)) (rc_RepositoryIndex C) \<and> keeps (\<lambda>s. P (files s)) (rc_ServerMetadata C))"

text \<open>A runtime that answers: ready, with some models loaded, all of which it unloads, and a version.\<close>

definition client_works :: "repository_client \<Rightarrow> string list \<Rightarrow> string \<Rightarrow> bool" where
  "client_works C loaded version \<longleftrightarrow> (\<forall>s. quiet s \<longrightarrow> runs (rc_ServerReady C) s True (files s) \<and> runs (rc_RepositoryIndex C) s loaded (files s) \<and>
     (\<forall>m. runs (rc_ModelUnload C m) s () (files s)) \<and> runs (rc_ServerMetadata C) s version (files s))"

lemma unload_listed_runs: "client_works C loaded version \<Longrightarrow> quiet s \<Longrightarrow> runs (unload_listed C ms) s () (files s)"
proof (induction ms arbitrary: s)
  case Nil
  then show ?case by (simp add: runs_def)
next
  case (Cons m ms)
  have "runs (rc_ModelUnload C m) s () (files s)" using Cons.prems by (simp add: client_works_def)
  then show ?case unfolding unload_listed.simps by (rule runs_andThen) (use Cons in \<open>metis\<close>)
qed

text \<open>The calls of a successful status request.\<close>

lemma client_startup:
  assumes "client_works C loaded version" "quiet s" "\<And>u. files u = files s \<Longrightarrow> quiet u \<Longrightarrow> runs clear u () t"
  obtains u v w x where "rc_ServerReady C s = (Ok True, u)" "andThen (rc_RepositoryIndex C) (unload_listed C) u = (Ok (), v)"
    "clear v = (Ok (), w)" "rc_ServerMetadata C w = (Ok version, x)" "files x = t" "quiet x"
proof -
  obtain u where u: "rc_ServerReady C s = (Ok True, u)" "files u = files s" "quiet u"
    using assms(1,2) by (auto simp: client_works_def runs_def)
  have "runs (andThen (rc_RepositoryIndex C) (unload_listed C)) u () (files u)"
    using assms(1) u(3) unload_listed_runs [OF assms(1)]
    by (intro runs_andThen [of "rc_RepositoryIndex C" u loaded "files u"]) (auto simp: client_works_def, metis)
  then obtain v where v: "andThen (rc_RepositoryIndex C) (unload_listed C) u = (Ok (), v)" "files v = files s" "quiet v"
    using u(2) by (auto simp: runs_def)
  obtain w where w: "clear v = (Ok (), w)" "files w = t" "quiet w"
    using assms(3) [OF v(2,3)] by (auto simp: runs_def)
  obtain x where x: "rc_ServerMetadata C w = (Ok version, x)" "files x = t" "quiet x"
    using assms(1) w(2,3) by (auto simp: client_works_def runs_def)
  show ?thesis by (rule that [OF u(1) v(1) w(1) x])
qed

definition with_version :: "AdapterConfiguration \<Rightarrow> string \<Rightarrow> AdapterConfiguration" where
  "with_version c version = (if version \<noteq> [] then c\<lparr>ac_RuntimeVersion := version\<rparr> else c)"

lemma client_readonly_files:
  assumes "client_readonly C"
  shows "files (snd (rc_ModelUnload C m s)) = files s"
  using assms keepsD [of "\<lambda>u. files u = files s" "rc_ModelUnload C m" s]
  unfolding client_readonly_def by (auto dest: spec [of _ "\<lambda>t. t = files s"])

definition demo_client :: repository_client where
  "demo_client = \<lparr>rc_ServerReady = ret True, rc_RepositoryIndex = ret [''m''], rc_ModelLoad = (\<lambda>m. ret ()), rc_ModelUnload = (\<lambda>m. ret ()),
     rc_ServerMetadata = ret ''2.14''\<rparr>"

lemma demo_client_laws: "client_readonly demo_client" "client_works demo_client [''m''] ''2.14''"
  by (simp_all add: client_readonly_def client_works_def demo_client_def keeps_def runs_def)

definition demo_config :: "string \<Rightarrow> AdapterConfiguration" where
  "demo_config root = \<lparr>ac_Port = 8085, ac_RuntimePort = 8001, ac_ContainerMemReqBytes = 2 ^ 30, ac_MemBufferBytes = 2 ^ 28,
     ac_CapacityInBytes = 2 ^ 30 - 2 ^ 28, ac_MaxLoadingConcurrency = 1, ac_ModelLoadingTimeoutMS = 30000, ac_DefaultModelSizeInBytes = 1000000,
     ac_ModelSizeMultiplier = Fin 5 (- 2), ac_RuntimeVersion = ''v1'', ac_LimitModelConcurrency = 0,
     ac_RootModelDir = root, ac_UseEmbeddedPuller = False\<rparr>"

end
