(* ===== verification/OvmsAdapter.thy ===== *)
theory OvmsAdapter
  imports AdapterBase OvmsManager
begin

text \<open>
  \<open>model-mesh-ovms-adapter/server\<close>: \<open>adaptmodellayout.go\<close> (the directory of versions and links that OVMS wants), the handlers of
  \<open>server.go\<close> and \<open>config.go\<close>. The model manager is the theory \<open>OvmsManager\<close>; what it answers is the argument \<open>ans\<close>.
\<close>

section \<open>adaptmodellayout.go\<close>

definition onnxModelFilename :: string where
  "onnxModelFilename = ''model.onnx''"

definition createOvmsModelRepositoryFromPath :: "ext \<Rightarrow> string \<Rightarrow> string \<Rightarrow> string \<Rightarrow> string \<Rightarrow> (os, unit) step" where
  "createOvmsModelRepositoryFromPath X modelPath versionNumber modelType ovmsModelIDDir =
     andThen (wrapErr (ErrWrap ''Error calling stat on %s: %w'' [modelPath]) (os_Stat modelPath)) (\<lambda>modelPathInfo.
     let linkPathComponents = [ovmsModelIDDir, versionNumber] @
           (if fi_dir modelPathInfo then []
            else if modelType = ''onnx'' then [onnxModelFilename] else [fi_name modelPathInfo])
     in andThen (wrapErr (ErrWrap ''Error joining link path: %w'' []) (SecureJoin X linkPathComponents)) (\<lambda>linkPath.
     andThen (wrapErr (ErrWrap ''Error creating directories for path %s: %w'' [linkPath]) (os_MkdirAll (path_Dir linkPath))) (\<lambda>_.
     wrapErr (ErrWrap ''Error creating symlink: %w'' []) (os_Symlink modelPath linkPath))))"

definition createOvmsModelRepositoryFromDirectory :: "ext \<Rightarrow> finfo list \<Rightarrow> string \<Rightarrow> string \<Rightarrow> string \<Rightarrow> (os, unit) step" where
  "createOvmsModelRepositoryFromDirectory X entries modelPath modelType ovmsModelIDDir =
     (let versionNumber = largestNumberDir entries
      in if versionNumber \<noteq> []
         then andThen (SecureJoin X [modelPath, versionNumber]) (\<lambda>versionPath.
              createOvmsModelRepositoryFromPath X versionPath versionNumber modelType ovmsModelIDDir)
         else createOvmsModelRepositoryFromPath X modelPath ''1'' modelType ovmsModelIDDir)"

text \<open>The schema path is passed on but never used.\<close>

definition ovms_adaptModelLayoutForRuntime :: "ext \<Rightarrow> string \<Rightarrow> string \<Rightarrow> string \<Rightarrow> string \<Rightarrow> (os, unit) step" where
  "ovms_adaptModelLayoutForRuntime X rootModelDir modelID modelType0 modelPath =
     (let modelType = plain_model_type modelType0
      in andThen (SecureJoin X [rootModelDir, modelID]) (\<lambda>ovmsModelIDDir.
         andThen (attempt (os_RemoveAll ovmsModelIDDir)) (\<lambda>_.
         andThen (wrapErr (ErrWrap ''Error creating directories for path %s: %w'' [ovmsModelIDDir]) (os_MkdirAll ovmsModelIDDir)) (\<lambda>_.
         andThen (wrapErr (ErrWrap ''Error calling stat on model file: %w'' []) (os_Stat modelPath)) (\<lambda>modelPathInfo.
         if \<not> fi_dir modelPathInfo
         then wrapErr (ErrWrap ''Error processing model/schema files for model %s: %w'' [modelID])
                (createOvmsModelRepositoryFromPath X modelPath ''1'' modelType ovmsModelIDDir)
         else andThen (wrapErr (ErrWrap ''Could not read files in dir %s: %w'' [modelPath]) (os_ReadDir modelPath)) (\<lambda>entries.
              wrapErr (ErrWrap ''Error processing model/schema files for model %s: %w'' [modelID])
                (createOvmsModelRepositoryFromDirectory X entries modelPath modelType ovmsModelIDDir)))))))"

section \<open>config.go\<close>

record OvmsAdapterConfiguration = AdapterConfiguration +
  oc_ModelConfigFile :: string
  oc_BatchWaitTimeMin :: int
  oc_BatchWaitTimeMax :: int
  oc_ReloadTimeout :: int

definition ovmsModelSubdir :: string where
  "ovmsModelSubdir = ''_ovms_models''"

definition ovms_constants :: adapter_constants where
  "ovms_constants =
     \<lparr>k_adapterPort = (''ADAPTER_PORT'', 8085), k_runtimePort = (''RUNTIME_PORT'', 8001),
      k_ContainerMemReqBytes = (''CONTAINER_MEM_REQ_BYTES'', - 1), k_MemBufferBytes = (''MEM_BUFFER_BYTES'', 256 * 1024 * 1024),
      k_maxLoadingConcurrency = (''LOADING_CONCURRENCY'', 1), k_maxLoadingTimeoutMs = (''LOADTIME_TIMEOUT'', 30000),
      k_defaultModelSize = (''DEFAULT_MODELSIZE'', 1000000), k_modelSizeMultiplier = (''MODELSIZE_MULTIPLIER'', Fin 5 (- 2)),
      k_runtimeVersion = (''RUNTIME_VERSION'', ''v1''), k_limitPerModelConcurrency = (''LIMIT_PER_MODEL_CONCURRENCY'', 0),
      k_rootModelDir = (''ROOT_MODEL_DIR'', ''/models''), k_useEmbeddedPuller = (''USE_EMBEDDED_PULLER'', False)\<rparr>"

definition ovms_GetAdapterConfigurationFromEnv :: "ext \<Rightarrow> env \<Rightarrow> (os, OvmsAdapterConfiguration) step" where
  "ovms_GetAdapterConfigurationFromEnv X E =
     andThen (lift_res (read_adapter_env X E ovms_constants)) (\<lambda>c.
     andThen (wrapErr (ErrWrap ''Could not construct model store path: %w'' [])
       (SecureJoin X [case_prod (GetEnvString E) (k_rootModelDir ovms_constants), ovmsModelSubdir])) (\<lambda>root.
     andThen (lift_res (GetEnvDuration X E ''BATCH_WAIT_TIME_MIN'' (100 * 10 ^ 6))) (\<lambda>waitMin.
     andThen (lift_res (GetEnvDuration X E ''BATCH_WAIT_TIME_MAX'' (3 * 10 ^ 9))) (\<lambda>waitMax.
     andThen (lift_res (GetEnvDuration X E ''OVMS_RELOAD_TIMEOUT'' (30 * 10 ^ 9))) (\<lambda>reload.
     lift_res (check_adapter_config (AdapterConfiguration.extend (c\<lparr>ac_RootModelDir := root\<rparr>)
       (OvmsAdapterConfiguration.fields (GetEnvString E ''MODEL_CONFIG_FILE'' ''/models/model_config_list.json'') waitMin waitMax reload))))))))"

section \<open>server.go\<close>

record OvmsAdapterServer =
  oa_ext :: ext
  oa_config :: OvmsAdapterConfiguration
  oa_puller :: EmbeddedPuller

definition ovms_LoadModel :: "OvmsAdapterServer \<Rightarrow> (requestType \<Rightarrow> string \<Rightarrow> string \<Rightarrow> answer) \<Rightarrow> LoadModelRequest \<Rightarrow> (os, LoadModelResponse) step" where
  "ovms_LoadModel S ans req0 =
     (let X = oa_ext S; c = oa_config S; modelType = GetModelType X req0
      in andThen (embedded_load X c (oa_puller S) req0) (\<lambda>req.
         andThen (lift_res (GetSchemaPath X req)) (\<lambda>schemaPath.
         andThen (wrapErr (\<lambda>e. status_Errorf (x_code X e) ''Failed to load Model due to adapter error: %s'' (Some e))
           (ovms_adaptModelLayoutForRuntime X (ac_RootModelDir c) (ModelId req) modelType (ModelPath req))) (\<lambda>_.
         andThen (SecureJoin X [ac_RootModelDir c, ModelId req]) (\<lambda>adaptedModelPath.
         andThen (wrapErr (\<lambda>e. status_Errorf (x_code X e) ''Failed to load model due to error: %s'' (Some e))
           (mm_LoadModel ans adaptedModelPath (ModelId req))) (\<lambda>_.
         ret (load_response X c req)))))))"

definition ovms_UnloadModel :: "OvmsAdapterServer \<Rightarrow> (requestType \<Rightarrow> string \<Rightarrow> string \<Rightarrow> answer) \<Rightarrow> string \<Rightarrow> (os, unit) step" where
  "ovms_UnloadModel S ans modelId =
     (let X = oa_ext S; c = oa_config S
      in andThen (unload_tolerant (is_NotFound X) (\<lambda>e. status_Errorf (x_code X e) ''Failed to unload model from OVMS'' None)
           (lift_res (mm_UnloadModel ans modelId))) (\<lambda>_.
         andThen (remove_model_dir X c modelId) (\<lambda>_. embedded_cleanup X c (oa_puller S) modelId)))"

definition ovms_method_infos :: "(string \<times> nat list) list" where
  "ovms_method_infos =
     [(''tensorflow.serving.PredictionService/Predict'', [1, 1]), (''inference.GRPCInferenceService/ModelInfer'', [1]),
      (''inference.GRPCInferenceService/ModelMetadata'', [1])]"

text \<open>
  \<open>cfgErr\<close> is the result of the manager's \<open>GetConfig\<close>, \<open>ctxErr\<close> whether the context has ended after it. The handler never returns
  an error.
\<close>

definition ovms_RuntimeStatus ::
  "OvmsAdapterServer \<Rightarrow> unit res \<Rightarrow> bool \<Rightarrow> (requestType \<Rightarrow> string \<Rightarrow> string \<Rightarrow> answer) \<Rightarrow> (os, RuntimeStatusResponse) step" where
  "ovms_RuntimeStatus S cfgErr ctxErr ans =
     (if \<not> is_ok cfgErr \<or> ctxErr \<or> \<not> is_ok (mm_UnloadAll ans) then ret (status_only STARTING)
      else andThen (attempt (clear_model_dirs (oa_config S) (oa_puller S) ovmsModelSubdir)) (\<lambda>r. case r of
          Err e \<Rightarrow> ret (status_only FAILING)
        | _ \<Rightarrow> ret (ready_status (oa_config S) ovms_method_infos)))"

end
