(* ===== verification/OvmsAdapterProps.thy ===== *)
theory OvmsAdapterProps
  imports AdapterStartup OvmsAdapter
begin

text \<open>What the OVMS adapter guarantees: the layout it builds, how far it reaches, and its part of the contract with the puller.\<close>

section \<open>The largest version\<close>

definition version_of :: "finfo \<Rightarrow> int" where
  "version_of f = (case Atoi (fi_name f) of Some i \<Rightarrow> i | None \<Rightarrow> 0)"

lemma largest_number_loop_bad:
  "\<exists>f \<in> set fs. fi_dir f \<and> Atoi (fi_name f) = None \<Longrightarrow> largest_number_loop m d fs = []"
  by (induction fs arbitrary: m d) (auto split: option.split)

lemma largest_number_loop_max:
  assumes "\<forall>f \<in> set fs. fi_dir f \<longrightarrow> Atoi (fi_name f) \<noteq> None"
  shows "(largest_number_loop m d fs = d \<and> (\<forall>f \<in> set fs. fi_dir f \<longrightarrow> version_of f \<le> m)) \<or>
    (\<exists>f \<in> set fs. fi_dir f \<and> largest_number_loop m d fs = fi_name f \<and> m < version_of f \<and>
       (\<forall>g \<in> set fs. fi_dir g \<longrightarrow> version_of g \<le> version_of f))"
  using assms
proof (induction fs arbitrary: m d)
  case Nil
  then show ?case by simp
next
  case (Cons f fs)
  have IH: "(largest_number_loop m d fs = d \<and> (\<forall>f \<in> set fs. fi_dir f \<longrightarrow> version_of f \<le> m)) \<or>
    (\<exists>f \<in> set fs. fi_dir f \<and> largest_number_loop m d fs = fi_name f \<and> m < version_of f \<and>
       (\<forall>g \<in> set fs. fi_dir g \<longrightarrow> version_of g \<le> version_of f))" for m d
    by (rule Cons.IH) (use Cons.prems in simp)
  show ?case
  proof (cases "fi_dir f")
    case False
    with IH [of m d] show ?thesis by simp
  next
    case True
    with Cons.prems obtain i where i: "Atoi (fi_name f) = Some i" by auto
    then have v: "version_of f = i" by (simp add: version_of_def)
    show ?thesis
    proof (cases "i > m")
      case False
      with IH [of m d] True i v show ?thesis by auto
    next
      case big: True
      have e: "largest_number_loop m d (f # fs) = largest_number_loop i (fi_name f) fs" using True i big by simp
      from IH [of i "fi_name f"] show ?thesis
      proof
        assume "largest_number_loop i (fi_name f) fs = fi_name f \<and> (\<forall>g \<in> set fs. fi_dir g \<longrightarrow> version_of g \<le> i)"
        with e v big True show ?thesis by (intro disjI2 bexI [of _ f]) auto
      next
        assume "\<exists>g \<in> set fs. fi_dir g \<and> largest_number_loop i (fi_name f) fs = fi_name g \<and> i < version_of g \<and>
          (\<forall>h \<in> set fs. fi_dir h \<longrightarrow> version_of h \<le> version_of g)"
        then obtain g where "g \<in> set fs" "fi_dir g" "largest_number_loop i (fi_name f) fs = fi_name g" "i < version_of g"
          "\<forall>h \<in> set fs. fi_dir h \<longrightarrow> version_of h \<le> version_of g" by blast
        with e v big show ?thesis by (intro disjI2 bexI [of _ g]) auto
      qed
    qed
  qed
qed

lemma largestNumberDir_entry:
  assumes "largestNumberDir fs \<noteq> []"
  obtains f where "f \<in> set fs" "fi_dir f" "fi_name f = largestNumberDir fs"
  using assms largest_number_loop_bad [of fs 0 "[]"] largest_number_loop_max [of fs 0 "[]"]
  unfolding largestNumberDir_def by metis

text \<open>
  Which version directory of a model is served. If some directory among the entries has a name that is no number, or none has a
  positive one, no version directory is chosen; otherwise it is one with the largest number. Files do not matter.
\<close>

lemma largest_version_is_chosen:
  "if (\<exists>f \<in> set fs. fi_dir f \<and> Atoi (fi_name f) = None) \<or> (\<forall>f \<in> set fs. fi_dir f \<longrightarrow> version_of f \<le> 0)
   then largestNumberDir fs = []
   else (\<exists>f \<in> set fs. fi_dir f \<and> largestNumberDir fs = fi_name f \<and> (\<forall>g \<in> set fs. fi_dir g \<longrightarrow> version_of g \<le> version_of f))"
proof (cases "\<exists>f \<in> set fs. fi_dir f \<and> Atoi (fi_name f) = None")
  case True
  with largest_number_loop_bad [OF True, of 0 "[]"] show ?thesis by (simp add: largestNumberDir_def)
next
  case False
  then have "\<forall>f \<in> set fs. fi_dir f \<longrightarrow> Atoi (fi_name f) \<noteq> None" by metis
  from largest_number_loop_max [OF this, of 0 "[]"] show ?thesis
  proof
    assume "largest_number_loop 0 [] fs = [] \<and> (\<forall>f \<in> set fs. fi_dir f \<longrightarrow> version_of f \<le> 0)"
    then show ?thesis by (simp add: largestNumberDir_def)
  next
    assume "\<exists>f \<in> set fs. fi_dir f \<and> largest_number_loop 0 [] fs = fi_name f \<and> 0 < version_of f \<and>
      (\<forall>g \<in> set fs. fi_dir g \<longrightarrow> version_of g \<le> version_of f)"
    then obtain f where f: "f \<in> set fs" "fi_dir f" "largestNumberDir fs = fi_name f" "0 < version_of f"
      "\<forall>g \<in> set fs. fi_dir g \<longrightarrow> version_of g \<le> version_of f" unfolding largestNumberDir_def by metis
    then have "\<not> (\<forall>f \<in> set fs. fi_dir f \<longrightarrow> version_of f \<le> 0)" by (metis not_le)
    with False f show ?thesis by (simp only: if_False simp_thms) metis
  qed
qed

lemma largest_version_is_chosen_example:
  "largestNumberDir [node_info ''2'' Dir, node_info ''11'' Dir, node_info ''99'' (File 420 [])] \<in> {''2'', ''11''}"
  using largest_version_is_chosen [of "[node_info ''2'' Dir, node_info ''11'' Dir, node_info ''99'' (File 420 [])]"]
  by (auto simp: version_of_def split: if_splits) code_simp+

section \<open>A model server to try it on\<close>

definition demo_ovms_fs :: fs where
  "demo_ovms_fs = [([''models''], Dir), ([''models'', ''_ovms_models''], Dir), ([''models'', ''_ovms_models'', ''m''], Dir),
     ([''models'', ''_ovms_models'', ''m'', ''1''], Link ''/models/m''), ([''models'', ''m''], Dir), ([''models'', ''m'', ''2''], Dir),
     ([''models'', ''m'', ''11''], Dir), ([''etc''], File 420 ''x'')]"

definition demo_ans :: "requestType \<Rightarrow> string \<Rightarrow> string \<Rightarrow> answer" where
  "demo_ans t m p = Replied None"

lemma demo_ovms_facts:
  "real_dirs (files (demo_os demo_ovms_fs)) [''models'', ''_ovms_models'']" "no_links (files (demo_os demo_ovms_fs)) [''models'', ''_ovms_models'']"
  "real_dirs (files (demo_os demo_ovms_fs)) [''models'']" "list_all plain_name [''models'', ''_ovms_models'']" "plain_name ''m''" "quiet (demo_os demo_ovms_fs)"
  by (simp_all add: real_dirs_def no_links_def demo_os_def demo_ovms_fs_def get_def le_Suc_eq all_conj_distrib plain_name_def quiet_def)

section \<open>The adapter's part of the contracts\<close>

lemma createFromPath_keeps:
  assumes "securejoin_scoped X" "list_all plain_name d" "d \<noteq> []"
  shows "keeps (\<lambda>s. lay_inv d t0 (files s)) (createOvmsModelRepositoryFromPath X mp v ty (path_str d))"
  unfolding createOvmsModelRepositoryFromPath_def Let_def append_Cons
  by (intro keeps_andThen keeps_wrapErr keeps_reads keeps_join [OF assms] lay_inv_place_link assms(3))

lemma ovms_adapt_below:
  assumes "securejoin_scoped X" "d \<noteq> []" "joins_below X (files s) r mid d"
  shows "stays_below d (files s) (files (snd (ovms_adaptModelLayoutForRuntime X r mid ty mp s)))"
  unfolding ovms_adaptModelLayoutForRuntime_def Let_def createOvmsModelRepositoryFromDirectory_def
  by (intro layout_below [OF assms(2,3)] keeps_andThen keeps_wrapErr keeps_if keeps_reads createFromPath_keeps assms(1)) (use assms(2) in simp_all)

interpretation ovms_layout: adapter_layout "\<lambda>X ty. True" "\<lambda>X root mid ty mp sp. ovms_adaptModelLayoutForRuntime X root mid ty mp"
  by unfold_locales (rule ovms_adapt_below)

lemma ovms_load_own:
  assumes "securejoin_scoped (oa_ext S)" "d \<noteq> []" "joins_below (oa_ext S) (files s) (ac_RootModelDir (oa_config S)) (ModelId req) d"
    and "\<not> ac_UseEmbeddedPuller (oa_config S)"
  shows "stays_below d (files s) (files (snd (ovms_LoadModel S ans req s)))"
  unfolding ovms_LoadModel_def Let_def
  by (rule ovms_layout.load_own [OF _ assms])
    (simp, unfold mm_LoadModel_def Let_def, intro keeps_andThen keeps_reads keeps_ret keeps_wrapErr keeps_lift)

text \<open>
  Loading through the OVMS adapter changes nothing outside the directory of adapted models, and nothing
  outside the models' root when the adapter pulls the model itself; whatever the request says, and whether or not the load succeeds.
\<close>

lemma ovms_load_confined:
  assumes "securejoin_scoped (oa_ext S)" "list_all plain_name (root @ cs)" "root \<noteq> []" "no_links (files s) (root @ cs)"
    and "ac_RootModelDir (oa_config S) = path_str (root @ cs)"
    and "confined_pull pull" "ep_pull (oa_puller S) = pull (oa_ext S)" "RootModelDir (ep_config (oa_puller S)) = path_str root"
  shows "changed_below (if ac_UseEmbeddedPuller (oa_config S) then root else root @ cs) (files s) (files (snd (ovms_LoadModel S ans req s)))"
  unfolding ovms_LoadModel_def Let_def
  by (rule ovms_layout.load_below [OF _ assms(1-5) _ assms(6-8)])
    (simp, unfold mm_LoadModel_def Let_def, intro keeps_andThen keeps_reads keeps_ret keeps_wrapErr keeps_lift)

text \<open>The adapter without a puller of its own, as it runs behind the puller, in its default directory.\<close>

lemma ovms_unload_below:
  assumes "joins_below (oa_ext S) (files s) (ac_RootModelDir (oa_config S)) m d" "d \<noteq> []" "\<not> ac_UseEmbeddedPuller (oa_config S)"
  shows "removed_below d (files s) (files (snd (ovms_UnloadModel S ans m s)))"
  unfolding ovms_UnloadModel_def Let_def by (rule unload_below [OF assms]) (simp add: lift_res_def)

lemma ovms_subdir_plain: "list_all plain_name [''models'', ovmsModelSubdir]" "purge_excluded ovmsModelSubdir"
  by (simp_all add: plain_name_def ovmsModelSubdir_def purge_excluded_def PurgeExcludePrefixes_def has_prefix_def)

definition ovms_behind_puller :: "OvmsAdapterServer \<Rightarrow> OvmsAdapterServer" where
  "ovms_behind_puller S = S\<lparr>oa_config := (oa_config S)\<lparr>ac_RootModelDir := path_str [''models'', ovmsModelSubdir], ac_UseEmbeddedPuller := False\<rparr>\<rparr>"

lemma ovms_behind_puller_sel [simp]:
  "oa_ext (ovms_behind_puller S) = oa_ext S" "ac_RootModelDir (oa_config (ovms_behind_puller S)) = path_str [''models'', ovmsModelSubdir]"
  "\<not> ac_UseEmbeddedPuller (oa_config (ovms_behind_puller S))"
  by (simp_all add: ovms_behind_puller_def)

interpretation ovms_runtime: adapter_runtime "oa_ext S" "ovms_UnloadModel (ovms_behind_puller S) ans" "[''models'']" ovmsModelSubdir
  for S :: OvmsAdapterServer and ans :: "requestType \<Rightarrow> string \<Rightarrow> string \<Rightarrow> answer"
proof unfold_locales
  show "removed_below ([''models''] @ [ovmsModelSubdir]) (files s) (files (snd (ovms_UnloadModel (ovms_behind_puller S) ans m s)))"
    if "securejoin_scoped (oa_ext S)" "no_links (files s) ([''models''] @ [ovmsModelSubdir])" for s m
    using ovms_unload_below [of "ovms_behind_puller S"] joins_below_root [OF that(1) _ _ that(2)] ovms_subdir_plain by simp
qed (use ovms_subdir_plain in simp_all)

text \<open>An OVMS that answers: the model manager unloads every model or does not know it.\<close>

definition ovms_works :: "OvmsAdapterServer \<Rightarrow> (requestType \<Rightarrow> string \<Rightarrow> string \<Rightarrow> answer) \<Rightarrow> bool" where
  "ovms_works S ans \<longleftrightarrow> mm_UnloadAll ans = Ok () \<and>
     (\<forall>m. mm_UnloadModel ans m = Ok () \<or> (\<exists>e. mm_UnloadModel ans m = Err e \<and> is_NotFound (oa_ext S) e))"

lemma ovms_startup:
  assumes "ovms_works S ans"
  shows "adapter_startup (oa_ext S) (ovms_UnloadModel (ovms_behind_puller S) ans) [''models''] ovmsModelSubdir
    (ovms_RuntimeStatus (ovms_behind_puller S) (Ok ()) False ans) (ready_status (oa_config (ovms_behind_puller S)) ovms_method_infos) (\<lambda>m. m) (\<lambda>x. True)"
proof (rule adapter_startupI)
  let ?S = "ovms_behind_puller S"
  show "ovms_UnloadModel ?S ans m = andThen (unload_tolerant (is_NotFound (oa_ext S))
      (\<lambda>e. status_Errorf (x_code (oa_ext S) e) ''Failed to unload model from OVMS'' None) (lift_res (mm_UnloadModel ans m)))
      (\<lambda>_. andThen (remove_model_dir (oa_ext S) (oa_config ?S) m) (\<lambda>_. embedded_cleanup (oa_ext S) (oa_config ?S) (oa_puller ?S) m))" for m
    by (simp add: ovms_UnloadModel_def Let_def)
  show "runs (lift_res (mm_UnloadModel ans m)) s () (files s) \<or>
      (\<exists>e. lift_res (mm_UnloadModel ans m) s = (Err e, s) \<and> is_NotFound (oa_ext S) e)" if "quiet s" for m s
    using assms that by (auto simp: ovms_works_def lift_res_def runs_def)
  show "runs (ovms_RuntimeStatus ?S (Ok ()) False ans) s (ready_status (oa_config ?S) ovms_method_infos) t"
    if "\<And>u. files u = files s \<Longrightarrow> quiet u \<Longrightarrow> runs (clear_model_dirs (oa_config ?S) (oa_puller ?S) ovmsModelSubdir) u () t" "quiet s" for s t
    using assms that(1) [OF refl that(2)] by (auto simp: ovms_RuntimeStatus_def ovms_works_def runs_def andThen_def attempt_def)
qed (use ovms_subdir_plain in \<open>simp_all add: lift_res_def ready_status_def\<close>)

interpretation ovms_start: adapter_startup "oa_ext S" "ovms_UnloadModel (ovms_behind_puller S) demo_ans" "[''models'']" ovmsModelSubdir
    "ovms_RuntimeStatus (ovms_behind_puller S) (Ok ()) False demo_ans" "ready_status (oa_config (ovms_behind_puller S)) ovms_method_infos" "\<lambda>m. m" "\<lambda>x. True"
  for S :: OvmsAdapterServer
  by (rule ovms_startup) (simp add: ovms_works_def mm_UnloadAll_def mm_UnloadModel_def handleRequest_def demo_ans_def)

section \<open>The layout that OVMS reads\<close>

text \<open>Where the link of a model is placed below its directory, and what it points to.\<close>

definition ovms_link :: "fs \<Rightarrow> string \<Rightarrow> fpath \<Rightarrow> node \<Rightarrow> fpath \<times> fpath" where
  "ovms_link t ty p n =
     (if n = Dir then (let v = largestNumberDir (dir_entries t p) in if v = [] then ([''1''], p) else ([v], p @ [v]))
      else ([''1'', if plain_model_type ty = ''onnx'' then ''model.onnx'' else last p], p))"

lemma plain_1: "plain_name ''1''" "plain_name onnxModelFilename"
  by (simp_all add: plain_name_def onnxModelFilename_def)

lemma createFromPath_Dir_runs:
  assumes "quiet s" "securejoin_plain X" "real_dirs (files s) d" "list_all plain_name (d @ [v])" "d \<noteq> []" "get (files s) (d @ [v]) = None"
    and "real_dirs (files s) (p @ [x])" "list_all plain_name (p @ [x])"
  shows "runs (createOvmsModelRepositoryFromPath X (path_str (p @ [x])) v ty (path_str d)) s ()
    (put (d @ [v]) (Link (path_str (p @ [x]))) (files s))"
  unfolding createOvmsModelRepositoryFromPath_def Let_def
proof (rule runs_andThen [OF runs_wrapErr [OF runs_Stat [where n = Dir]]])
  fix u assume u: "files u = files s" "quiet u"
  have nl: "no_links (files u) (d @ [v])" using assms(3,6) by (simp add: u no_links_snoc real_dirs_no_links)
  have j: "runs (SecureJoin X (path_str d # [v])) u (path_str (d @ [v])) (files u)"
    by (rule runs_SecureJoin_plain [OF u(2) assms(2)]) (use assms nl in \<open>simp_all add: u\<close>)
  show "runs (andThen (wrapErr (ErrWrap ''Error joining link path: %w'' []) (SecureJoin X ([path_str d, v] @
       (if fi_dir (node_info x Dir) then [] else if ty = ''onnx'' then [onnxModelFilename] else [fi_name (node_info x Dir)]))))
     (\<lambda>linkPath. andThen (wrapErr (ErrWrap ''Error creating directories for path %s: %w'' [linkPath]) (os_MkdirAll (path_Dir linkPath))) (\<lambda>_.
     wrapErr (ErrWrap ''Error creating symlink: %w'' []) (os_Symlink (path_str (p @ [x])) linkPath)))) u () (put (d @ [v]) (Link (path_str (p @ [x]))) (files s))"
  proof (rule runs_andThen [OF runs_wrapErr])
    show "runs (SecureJoin X ([path_str d, v] @ (if fi_dir (node_info x Dir) then [] else if ty = ''onnx'' then [onnxModelFilename] else [fi_name (node_info x Dir)]))) u
      (path_str (d @ [v])) (files u)" using j by simp
    fix w assume w: "files w = files u" "quiet w"
    show "runs (andThen (wrapErr (ErrWrap ''Error creating directories for path %s: %w'' [path_str (d @ [v])]) (os_MkdirAll (path_Dir (path_str (d @ [v])))))
      (\<lambda>_. wrapErr (ErrWrap ''Error creating symlink: %w'' []) (os_Symlink (path_str (p @ [x])) (path_str (d @ [v]))))) w () (put (d @ [v]) (Link (path_str (p @ [x]))) (files s))"
      using runs_place_link [OF w(2), of d v] assms by (simp add: u w)
  qed
qed (use assms in \<open>auto simp: real_dirs_snoc is_link_def\<close>)

lemma createFromPath_File_runs:
  assumes "quiet s" "securejoin_plain X" "real_dirs (files s) d" "list_all plain_name (d @ [v])" "d \<noteq> []" "get (files s) (d @ [v]) = None"
    and "\<And>y. get (files s) (d @ [v, y]) = None"
    and "real_dirs (files s) p" "list_all plain_name (p @ [x])" "get (files s) (p @ [x]) = Some (File m c)"
    and nm_def: "nm = (if ty = ''onnx'' then ''model.onnx'' else x)"
  shows "runs (createOvmsModelRepositoryFromPath X (path_str (p @ [x])) v ty (path_str d)) s ()
    (put (d @ [v, nm]) (Link (path_str (p @ [x]))) (put (d @ [v]) Dir (files s)))"
  unfolding createOvmsModelRepositoryFromPath_def Let_def
proof (rule runs_andThen [OF runs_wrapErr [OF runs_Stat [where n = "File m c"]]])
  fix u assume u: "files u = files s" "quiet u"
  have nm: "plain_name nm" using assms(9) plain_1(2) by (simp add: nm_def onnxModelFilename_def)
  have "no_links (files u) (d @ [v])" using assms(3,6) by (simp add: u no_links_snoc real_dirs_no_links)
  then have nl: "no_links (files u) (d @ [v, nm])" using assms(7) no_links_snoc [of "files u" "d @ [v]" nm] by (simp add: u)
  have j: "runs (SecureJoin X (path_str d # [v, nm])) u (path_str (d @ [v, nm])) (files u)"
    by (rule runs_SecureJoin_plain [OF u(2) assms(2)]) (use assms nl nm in \<open>simp_all add: u\<close>)
  show "runs (andThen (wrapErr (ErrWrap ''Error joining link path: %w'' []) (SecureJoin X ([path_str d, v] @
       (if fi_dir (node_info x (File m c)) then [] else if ty = ''onnx'' then [onnxModelFilename] else [fi_name (node_info x (File m c))]))))
     (\<lambda>linkPath. andThen (wrapErr (ErrWrap ''Error creating directories for path %s: %w'' [linkPath]) (os_MkdirAll (path_Dir linkPath))) (\<lambda>_.
     wrapErr (ErrWrap ''Error creating symlink: %w'' []) (os_Symlink (path_str (p @ [x])) linkPath)))) u ()
     (put (d @ [v, nm]) (Link (path_str (p @ [x]))) (put (d @ [v]) Dir (files s)))"
  proof (rule runs_andThen [OF runs_wrapErr])
    show "runs (SecureJoin X ([path_str d, v] @ (if fi_dir (node_info x (File m c)) then [] else if ty = ''onnx'' then [onnxModelFilename]
        else [fi_name (node_info x (File m c))]))) u (path_str (d @ [v, nm])) (files u)" using j by (simp add: nm_def onnxModelFilename_def split: if_splits)
    fix w assume w: "files w = files u" "quiet w"
    show "runs (andThen (wrapErr (ErrWrap ''Error creating directories for path %s: %w'' [path_str (d @ [v, nm])]) (os_MkdirAll (path_Dir (path_str (d @ [v, nm])))))
      (\<lambda>_. wrapErr (ErrWrap ''Error creating symlink: %w'' []) (os_Symlink (path_str (p @ [x])) (path_str (d @ [v, nm]))))) w ()
      (put (d @ [v, nm]) (Link (path_str (p @ [x]))) (put (d @ [v]) Dir (files s)))"
      using runs_place_link_new [OF w(2), of d v nm] assms nm by (simp add: u w)
  qed
qed (use assms in \<open>auto simp: is_link_def\<close>)

lemma ovms_adapt_runs:
  assumes "adapt_ready X s root mid q n"
    and rest: "\<And>w. files w = fresh_dir (root @ [mid]) (files s) \<Longrightarrow> quiet w \<Longrightarrow>
      runs (if fi_dir (node_info (last q) n) then createOvmsModelRepositoryFromDirectory X (dir_entries (files s) q) (path_str q) (plain_model_type ty) (path_str (root @ [mid]))
        else createOvmsModelRepositoryFromPath X (path_str q) ''1'' (plain_model_type ty) (path_str (root @ [mid]))) w () t'"
  shows "runs (ovms_adaptModelLayoutForRuntime X (path_str root) mid ty (path_str q)) s () t'"
  unfolding ovms_adaptModelLayoutForRuntime_def Let_def
proof (rule runs_layout_start [OF assms(1)])
  fix u assume u: "files u = fresh_dir (root @ [mid]) (files s)" "quiet u"
  note r = assms(1) [unfolded adapt_ready_def]
  show "runs (andThen (wrapErr (ErrWrap ''Error calling stat on model file: %w'' []) (os_Stat (path_str q))) (\<lambda>modelPathInfo.
       if \<not> fi_dir modelPathInfo
       then wrapErr (ErrWrap ''Error processing model/schema files for model %s: %w'' [mid])
              (createOvmsModelRepositoryFromPath X (path_str q) ''1'' (plain_model_type ty) (path_str (root @ [mid])))
       else andThen (wrapErr (ErrWrap ''Could not read files in dir %s: %w'' [path_str q]) (os_ReadDir (path_str q))) (\<lambda>entries.
            wrapErr (ErrWrap ''Error processing model/schema files for model %s: %w'' [mid])
              (createOvmsModelRepositoryFromDirectory X entries (path_str q) (plain_model_type ty) (path_str (root @ [mid])))))) u () t'"
  proof (rule runs_andThen [OF runs_wrapErr [OF runs_Stat_ready [OF assms(1) u]]])
    fix v assume v: "files v = files u" "quiet v"
    show "runs (if \<not> fi_dir (node_info (last q) n)
       then wrapErr (ErrWrap ''Error processing model/schema files for model %s: %w'' [mid])
              (createOvmsModelRepositoryFromPath X (path_str q) ''1'' (plain_model_type ty) (path_str (root @ [mid])))
       else andThen (wrapErr (ErrWrap ''Could not read files in dir %s: %w'' [path_str q]) (os_ReadDir (path_str q))) (\<lambda>entries.
            wrapErr (ErrWrap ''Error processing model/schema files for model %s: %w'' [mid])
              (createOvmsModelRepositoryFromDirectory X entries (path_str q) (plain_model_type ty) (path_str (root @ [mid]))))) v () t'"
    proof (cases "fi_dir (node_info (last q) n)")
      case False
      with rest [of v] u v show ?thesis by (simp only: simp_thms if_True if_False runs_wrapErr)
    next
      case True
      then have "n = Dir" by (cases n) simp_all
      then have "real_dirs (files v) q"
        using adapt_ready_fresh(2,3) [OF assms(1)] r u v by (metis append_butlast_last_id real_dirs_snoc)
      then have rd: "runs (os_ReadDir (path_str q)) v (dir_entries (files s) q) (files v)"
        using runs_ReadDir [OF v(2), of q] r adapt_ready_fresh(6) [OF assms(1)] u v by simp
      have "runs (andThen (wrapErr g (os_ReadDir (path_str q))) (\<lambda>entries. wrapErr g'
        (createOvmsModelRepositoryFromDirectory X entries (path_str q) (plain_model_type ty) (path_str (root @ [mid]))))) v () t'" for g g'
        using rest True u v by (intro runs_andThen [OF runs_wrapErr [OF rd] runs_wrapErr]) (simp only: if_True)
      then show ?thesis using True by (simp only: simp_thms if_False)
    qed
  qed
qed

lemma ovms_link_File:
  assumes "adapt_ready X s root mid q (File m c)" "(l, src) = ovms_link (files s) ty q (File m c)"
  shows "runs (ovms_adaptModelLayoutForRuntime X (path_str root) mid ty (path_str q)) s ()
    (put (root @ mid # l) (Link (path_str src)) (put (root @ [mid, ''1'']) Dir (fresh_dir (root @ [mid]) (files s)))) \<and>
    l = [''1'', last l]"
proof -
  note r = assms(1) [unfolded adapt_ready_def] and fr = adapt_ready_fresh [OF assms(1)]
  obtain p x where q: "q = p @ [x]" using r by (metis rev_exhaust)
  define ty' where "ty' = plain_model_type ty"
  define nm where "nm = (if ty' = ''onnx'' then ''model.onnx'' else x)"
  have ls: "l = [''1'', nm]" "src = q" using assms(2) by (simp_all add: ovms_link_def q nm_def ty'_def)
  have "runs (createOvmsModelRepositoryFromPath X (path_str q) ''1'' ty' (path_str (root @ [mid]))) w ()
      (put (root @ mid # l) (Link (path_str src)) (put (root @ [mid, ''1'']) Dir (files w)))"
    if w: "files w = fresh_dir (root @ [mid]) (files s)" "quiet w" for w
    using createFromPath_File_runs [OF w(2), of X "root @ [mid]" "''1''" p x m c nm ty'] r fr [folded w(1)]
    by (simp add: ls q nm_def [symmetric] plain_1)
  then show ?thesis by (intro conjI ovms_adapt_runs [OF assms(1)]) (simp_all add: ty'_def ls del: append_assoc)
qed

lemma ovms_link_Dir:
  assumes "adapt_ready X s root mid q Dir" "(l, src) = ovms_link (files s) ty q Dir" "list_all plain_name (entry_names (files s) q)"
  shows "runs (ovms_adaptModelLayoutForRuntime X (path_str root) mid ty (path_str q)) s ()
    (put (root @ mid # l) (Link (path_str src)) (fresh_dir (root @ [mid]) (files s))) \<and> l = [last l]"
proof -
  note r = assms(1) [unfolded adapt_ready_def] and fr = adapt_ready_fresh [OF assms(1)]
  let ?t = "fresh_dir (root @ [mid]) (files s)" and ?v = "largestNumberDir (dir_entries (files s) q)"
  have rq: "real_dirs ?t q" using fr(2,3) r by (metis append_butlast_last_id real_dirs_snoc)
  have go: "runs (createOvmsModelRepositoryFromPath X (path_str src) v ty' (path_str (root @ [mid]))) w ()
      (put (root @ [mid, v]) (Link (path_str src)) ?t)"
    if "files w = ?t" "quiet w" "plain_name v" "src \<noteq> []" "real_dirs ?t src" "list_all plain_name src" for v ty' w
  proof -
    from that(4) obtain b e where "src = b @ [e]" by (metis rev_exhaust)
    with createFromPath_Dir_runs [OF that(2), of X "root @ [mid]" v b e ty'] r fr that show ?thesis by simp
  qed
  show ?thesis
  proof (cases "?v = []")
    case True
    then have ls: "l = [''1'']" "src = q" using assms(2) by (simp_all add: ovms_link_def)
    then have "runs (createOvmsModelRepositoryFromDirectory X (dir_entries (files s) q) (path_str q) ty' (path_str (root @ [mid]))) w ()
      (put (root @ mid # l) (Link (path_str src)) ?t)" if "files w = ?t" "quiet w" for ty' w
      using go [OF that plain_1(1)] True r rq by (simp add: createOvmsModelRepositoryFromDirectory_def)
    then show ?thesis by (intro conjI ovms_adapt_runs [OF assms(1)]) (simp_all add: ls)
  next
    case False
    then have ls: "l = [?v]" "src = q @ [?v]" using assms(2) by (simp_all add: ovms_link_def Let_def)
    obtain f where f: "f \<in> set (dir_entries (files s) q)" "fi_dir f" "fi_name f = ?v" using largestNumberDir_entry [OF False] .
    note fv = dir_entry_facts [OF f(1,2), unfolded f(3)]
    have pv: "plain_name ?v" using assms(3) fv(2) by (simp add: list_all_iff)
    have gv: "get ?t (q @ [?v]) = Some Dir" using fv(1) fr(5) by simp
    have "SecureJoin X [path_str q, ?v] w = (Ok (path_str src), w)" if "files w = ?t" for w
      using securejoin_plainD [OF _ rq _ _ pv] r gv that by (simp add: SecureJoin_def SecureJoin_at_def is_link_def ls)
    then have "runs (createOvmsModelRepositoryFromDirectory X (dir_entries (files s) q) (path_str q) ty' (path_str (root @ [mid]))) w ()
      (put (root @ mid # l) (Link (path_str src)) ?t)" if "files w = ?t" "quiet w" for ty' w
      using go [OF that pv, of ty'] False r rq gv pv that ls
      by (simp add: createOvmsModelRepositoryFromDirectory_def Let_def runs_def andThen_def real_dirs_snoc)
    then show ?thesis by (intro conjI ovms_adapt_runs [OF assms(1)]) (simp_all add: ls)
  qed
qed

text \<open>
  C22: The repository that OVMS reads. Where nothing stands in the way, the load of a model that is a file makes
  the one link \<open>1/<file name>\<close> to it below the model's emptied directory, and calls it \<open>model.onnx\<close> for an ONNX model; for a
  directory it makes the one link \<open><version>\<close> to the largest version directory, or \<open>1\<close> to the directory itself if it
  has none. Nothing else is left below the model's directory, and the rest of the volume is as it was.
\<close>

theorem ovms_layout_exact:
  assumes "adapt_ready X s root mid q n" "list_all plain_name (entry_names (files s) q)"
  shows "case ovms_link (files s) ty q n of (l, src) \<Rightarrow>
    \<exists>s'. ovms_adaptModelLayoutForRuntime X (path_str root) mid ty (path_str q) s = (Ok (), s') \<and>
      one_link (root @ [mid]) l src (files s) (files s')"
proof -
  obtain l src where ls: "(l, src) = ovms_link (files s) ty q n" by (metis surj_pair)
  let ?d = "root @ [mid]"
  have n: "\<not> is_link (Some n)" using assms(1) by (simp add: adapt_ready_def)
  have "\<exists>t'. runs (ovms_adaptModelLayoutForRuntime X (path_str root) mid ty (path_str q)) s () t' \<and> one_link ?d l src (files s) t'"
  proof (cases n)
    case (File m c)
    note f = ovms_link_File [OF assms(1) [unfolded File] ls [unfolded File]]
    obtain nm where "l = [''1'', nm]" using f by metis
    with f one_link_fresh(2) [of ?d "''1''" nm src "files s"] show ?thesis by auto
  next
    case Dir
    note f = ovms_link_Dir [OF assms(1) [unfolded Dir] ls [unfolded Dir] assms(2)]
    obtain v where "l = [v]" using f by metis
    with f one_link_fresh(1) [of ?d v src "files s"] show ?thesis by auto
  qed (use n in \<open>simp add: is_link_def\<close>)
  then show ?thesis unfolding ls [symmetric] by (auto simp: runs_def)
qed

theorem ovms_layout_exact_witness:
  "get (files (snd (ovms_adaptModelLayoutForRuntime demo_ext ''/models/_ovms_models'' ''m'' ''onnx:1'' ''/models/m'' (demo_os demo_ovms_fs))))
     [''models'', ''_ovms_models'', ''m'', ''11''] = Some (Link ''/models/m/11'')"
proof -
  let ?s = "demo_os demo_ovms_fs"
  have "adapt_ready demo_ext ?s [''models'', ''_ovms_models''] ''m'' [''models'', ''m''] Dir"
    using demo_ovms_facts demo_ext_laws(2) by (simp add: adapt_ready_def is_link_def demo_os_def demo_ovms_fs_def get_def)
  moreover have "list_all plain_name (entry_names (files ?s) [''models'', ''m''])" by code_simp
  moreover have "ovms_link (files ?s) ''onnx:1'' [''models'', ''m''] Dir = ([''11''], [''models'', ''m'', ''11''])" by code_simp
  ultimately show ?thesis
    using ovms_layout_exact [of demo_ext ?s "[''models'', ''_ovms_models'']" "''m''" "[''models'', ''m'']" Dir "''onnx:1''"]
    by (auto simp: path_str_def one_link_def)
qed

section \<open>The capacity\<close>

lemma GetEnvInt_range: "GetEnvInt E k d = Ok v \<Longrightarrow> - (2 ^ 63) \<le> d \<and> d < 2 ^ 63 \<Longrightarrow> - (2 ^ 63) \<le> v \<and> v < 2 ^ 63"
  by (auto simp: GetEnvInt_def Atoi_def os_Exit_def split: option.splits dest!: parse_int_range)

lemma read_adapter_env_memory:
  assumes "read_adapter_env X E K = Ok c"
  shows "case_prod (GetEnvInt E) (k_ContainerMemReqBytes K) = Ok (ac_ContainerMemReqBytes c)"
    "case_prod (GetEnvInt E) (k_MemBufferBytes K) = Ok (ac_MemBufferBytes c)"
    "ac_CapacityInBytes c = go_int (ac_ContainerMemReqBytes c - ac_MemBufferBytes c)"
  using assms by (auto simp: read_adapter_env_def res_bind_Ok_iff)

lemma word_of_go_int: "(word_of_int (go_int v) :: 64 word) = word_of_int v"
  unfolding word_of_int_eq_iff by (simp add: take_bit_eq_mod go_int_def mod_diff_left_eq)

text \<open>
  C40: The capacity that the adapter reports is the memory of the container less the buffer; a buffer larger than the
  memory is not refused, and the negative difference is reported as a number of at least 2^63 bytes.
\<close>

theorem ovms_capacity_bounds:
  assumes "ovms_GetAdapterConfigurationFromEnv X E s = (Ok c, s')"
  shows "\<exists>memReq memBuffer. GetEnvInt E ''CONTAINER_MEM_REQ_BYTES'' (- 1) = Ok memReq \<and>
    GetEnvInt E ''MEM_BUFFER_BYTES'' (256 * 1024 * 1024) = Ok memBuffer \<and> 0 \<le> memReq \<and>
    (if memBuffer \<le> memReq then uint (CapacityInBytes (ready_status c mis)) = memReq - memBuffer
     else uint (CapacityInBytes (ready_status c mis)) = 2 ^ 64 - (memBuffer - memReq) \<and> 2 ^ 63 \<le> uint (CapacityInBytes (ready_status c mis)))"
proof -
  from assms obtain c0 root rest where c0: "read_adapter_env X E ovms_constants = Ok c0"
    and chk: "check_adapter_config (AdapterConfiguration.extend (c0\<lparr>ac_RootModelDir := root\<rparr>) rest) = Ok c"
    by (auto simp: ovms_GetAdapterConfigurationFromEnv_def andThen_Ok_iff lift_res_def)
  note m = read_adapter_env_memory [OF c0, unfolded ovms_constants_def, simplified]
  from chk have c: "c = AdapterConfiguration.extend (c0\<lparr>ac_RootModelDir := root\<rparr>) rest" "0 \<le> ac_ContainerMemReqBytes c0"
    by (auto simp: check_adapter_config_def AdapterConfiguration.defs split: if_splits)
  have r: "- (2 ^ 63) \<le> ac_MemBufferBytes c0" "ac_MemBufferBytes c0 < 2 ^ 63" "ac_ContainerMemReqBytes c0 < 2 ^ 63"
    using GetEnvInt_range [OF m(1)] GetEnvInt_range [OF m(2)] by simp_all
  have "CapacityInBytes (ready_status c mis) = word_of_int (ac_ContainerMemReqBytes c0 - ac_MemBufferBytes c0)"
    by (simp add: ready_status_def c AdapterConfiguration.defs m(3) word_of_go_int)
  then have u: "uint (CapacityInBytes (ready_status c mis)) = (ac_ContainerMemReqBytes c0 - ac_MemBufferBytes c0) mod 2 ^ 64"
    by (simp only: uint_word_of_int) simp
  have "uint (CapacityInBytes (ready_status c mis)) = (if ac_MemBufferBytes c0 \<le> ac_ContainerMemReqBytes c0
      then ac_ContainerMemReqBytes c0 - ac_MemBufferBytes c0 else 2 ^ 64 - (ac_MemBufferBytes c0 - ac_ContainerMemReqBytes c0))"
    unfolding u using r c(2) zmod_trivial_iff [of "ac_ContainerMemReqBytes c0 - ac_MemBufferBytes c0" "2 ^ 64"]
      mod_add_self2 [of "ac_ContainerMemReqBytes c0 - ac_MemBufferBytes c0" "2 ^ 64"]
      mod_pos_pos_trivial [of "2 ^ 64 - (ac_MemBufferBytes c0 - ac_ContainerMemReqBytes c0)" "2 ^ 64"]
    by (simp add: algebra_simps)
  with m c(2) r show ?thesis by simp
qed

definition demo_small_env :: env where
  "demo_small_env = Map.empty(''CONTAINER_MEM_REQ_BYTES'' \<mapsto> ''1000'')"

theorem ovms_capacity_bounds_witness:
  "\<exists>c s'. ovms_GetAdapterConfigurationFromEnv demo_ext demo_small_env (demo_os demo_ovms_fs) = (Ok c, s') \<and>
     2 ^ 63 \<le> uint (CapacityInBytes (ready_status c ovms_method_infos))"
proof -
  let ?r = "ovms_GetAdapterConfigurationFromEnv demo_ext demo_small_env (demo_os demo_ovms_fs)"
  have "is_ok (fst ?r)" by code_simp
  then obtain c where c: "?r = (Ok c, snd ?r)" by (metis is_ok_iff prod.collapse)
  have "GetEnvInt demo_small_env ''CONTAINER_MEM_REQ_BYTES'' (- 1) = Ok 1000" by code_simp
  moreover have "GetEnvInt demo_small_env ''MEM_BUFFER_BYTES'' (256 * 1024 * 1024) = Ok 268435456" by code_simp
  ultimately have "2 ^ 63 \<le> uint (CapacityInBytes (ready_status c ovms_method_infos))"
    using ovms_capacity_bounds [OF c, of ovms_method_infos] by auto
  with c show ?thesis by blast
qed

end
