(* ===== verification/TritonAdapter.thy ===== *)
theory TritonAdapter
  imports AdapterBase
begin

text \<open>
  \<open>model-mesh-triton-adapter/server\<close>: \<open>schema.go\<close>, \<open>utils.go\<close>, \<open>adaptmodellayout.go\<close> (the repository that Triton wants), \<open>config.go\<close>
  and the handlers of \<open>server.go\<close>. Outside the repository are the text format of protocol buffers, the Python program that
  converts Keras models, and Triton.
\<close>

section \<open>Model configurations and schema.go\<close>

datatype DataType = TYPE_INVALID | TYPE_BOOL | TYPE_UINT8 | TYPE_UINT16 | TYPE_UINT32 | TYPE_UINT64 | TYPE_INT8 | TYPE_INT16
  | TYPE_INT32 | TYPE_INT64 | TYPE_FP16 | TYPE_FP32 | TYPE_FP64 | TYPE_STRING

text \<open>
  An input or output tensor, and the model configuration. The fields that the code never touches are kept together in
  \<open>tt_Other\<close> and \<open>mc_Other\<close>, empty in a fresh value.
\<close>

record TritonTensor =
  tt_Name :: string
  tt_DataType :: DataType
  tt_Dims :: "int list"
  tt_Other :: string

record TritonModelConfig =
  mc_Name :: string
  mc_Backend :: string
  mc_MaxBatchSize :: int
  mc_Input :: "TritonTensor list"
  mc_Output :: "TritonTensor list"
  mc_Other :: string

text \<open>
  \<open>tx_parse\<close> and \<open>tx_print\<close> are \<open>prototext.Unmarshal\<close> and \<open>Marshal\<close> (\<open>None\<close> is an error); \<open>tx_acquire\<close> and \<open>tx_start\<close> are what the
  semaphore and the start of the converter return, \<open>tx_python\<close> is what it does to the files until it ends, and \<open>tx_stderr\<close> the text that an exit
  error carries, empty for every other error.
\<close>

record triton_tools =
  tx_parse :: "string \<Rightarrow> TritonModelConfig option"
  tx_print :: "TritonModelConfig \<Rightarrow> string option"
  tx_pipe :: "unit res"
  tx_acquire :: "unit res"
  tx_start :: "unit res"
  tx_python :: "string \<Rightarrow> string \<Rightarrow> (os, unit) step"
  tx_stderr :: "goerr \<Rightarrow> string"

definition empty_config :: TritonModelConfig where
  "empty_config = \<lparr>mc_Name = [], mc_Backend = [], mc_MaxBatchSize = 0, mc_Input = [], mc_Output = [], mc_Other = []\<rparr>"

definition TensorTypes :: "(string \<times> DataType) list" where
  "TensorTypes = [(''INVALID'', TYPE_INVALID), (''BOOL'', TYPE_BOOL), (''UINT8'', TYPE_UINT8), (''UINT16'', TYPE_UINT16), (''UINT32'', TYPE_UINT32),
     (''UINT64'', TYPE_UINT64), (''INT8'', TYPE_INT8), (''INT16'', TYPE_INT16), (''INT32'', TYPE_INT32), (''INT64'', TYPE_INT64),
     (''FP16'', TYPE_FP16), (''FP32'', TYPE_FP32), (''FP64'', TYPE_FP64), (''STRING'', TYPE_STRING)]"

text \<open>Looking up a missing key gives the zero value, which is the invalid type.\<close>

definition TensorType :: "string \<Rightarrow> DataType" where
  "TensorType k = (case map_of TensorTypes k of Some d \<Rightarrow> d | None \<Rightarrow> TYPE_INVALID)"

definition schema_tensor :: "TensorMetadata \<Rightarrow> TritonTensor" where
  "schema_tensor m = \<lparr>tt_Name = tm_Name m, tt_DataType = TensorType (tm_Datatype m),
     tt_Dims = (case tm_Shape m of Some ds \<Rightarrow> ds | None \<Rightarrow> []), tt_Other = []\<rparr>"

text \<open>The two slices, \<open>None\<close> for nil.\<close>

definition convertSchemaToConfig :: "ModelSchema \<Rightarrow> TritonTensor list option \<times> TritonTensor list option" where
  "convertSchemaToConfig s = (map_option (map schema_tensor) (Inputs s), map_option (map schema_tensor) (Outputs s))"

definition convertSchemaToConfigFromFile :: "ext \<Rightarrow> string \<Rightarrow> (os, TritonTensor list option \<times> TritonTensor list option) step" where
  "convertSchemaToConfigFromFile X schemaFile =
     andThen (wrapErr (ErrWrap ''Error trying to convert schema to config: %w'' []) (schema_NewFromFile X schemaFile)) (\<lambda>ms.
     ret (convertSchemaToConfig ms))"

definition slice :: "'a list option \<Rightarrow> 'a list" where
  "slice xs = (case xs of Some ys \<Rightarrow> ys | None \<Rightarrow> [])"

section \<open>utils.go\<close>

text \<open>What \<open>strconv.Atoi\<close> returns together with an error: the nearest number for one that is too large, else 0.\<close>

definition Atoi_with_error :: "string \<Rightarrow> int" where
  "Atoi_with_error s =
     (let (neg, ds) = (case s of
          [] \<Rightarrow> (False, [])
        | c # cs \<Rightarrow> if c = CHR ''-'' then (True, cs) else if c = CHR ''+'' then (False, cs) else (False, s))
      in if parse_digits ds = None then 0 else if neg then - (2 ^ 63) else 2 ^ 63 - 1)"

text \<open>The weight of the semaphore that the package makes when the program starts.\<close>

definition triton_init :: "env \<Rightarrow> int res" where
  "triton_init E = (case E ''MAX_CONC_KERAS_CONV_PROCS'' of
       None \<Rightarrow> Ok 2
     | Some m \<Rightarrow> (case Atoi m of
           None \<Rightarrow> Ok (Atoi_with_error m)
         | Some n \<Rightarrow> Panic ''MAX_CONC_KERAS_CONV_PROCS env var must have int value''))"

definition writeConfigPbtxt :: "triton_tools \<Rightarrow> string \<Rightarrow> TritonModelConfig \<Rightarrow> (os, unit) step" where
  "writeConfigPbtxt T filename modelConfig = (case tx_print T modelConfig of
       None \<Rightarrow> fail_with (ErrWrap ''Unable to marshal config.pbtxt: %w'' [] (ExtErr ''prototext''))
     | Some pbtxtOut \<Rightarrow> wrapErr (ErrWrap ''Unable to write config.pbtxt: %w'' []) (os_WriteFile filename pbtxtOut 420))"

definition convertKerasToTF :: "triton_tools \<Rightarrow> string \<Rightarrow> string \<Rightarrow> (os, unit) step" where
  "convertKerasToTF T kerasFile targetPath =
     andThen (wrapErr (ErrWrap ''Failed to create stdout pipe: %w '' []) (lift_res (tx_pipe T))) (\<lambda>_.
     andThen (wrapErr (ErrWrap ''Failed to acquire semaphore for keras conversion process: %w'' []) (lift_res (tx_acquire T))) (\<lambda>_.
     andThen (wrapErr (ErrWrap ''Failed to start python process for keras model conversion: %w '' []) (lift_res (tx_start T))) (\<lambda>_.
     wrapErr (\<lambda>e. if tx_stderr T e \<noteq> [] then ErrWrap ''keras model conversion failed: %s: %w'' [tx_stderr T e] e
          else ErrWrap ''keras model conversion failed: %w'' [] e)
       (tx_python T kerasFile targetPath))))"

section \<open>adaptmodellayout.go: the names of models in a repository\<close>

definition tritonModelSubdir :: string where
  "tritonModelSubdir = ''_triton_models''"

definition tritonRepositoryConfigFilename :: string where
  "tritonRepositoryConfigFilename = ''config.pbtxt''"

definition tensorflowSavedModelDirName :: string where
  "tensorflowSavedModelDirName = ''model.savedmodel''"

definition ModelSchemaFile :: string where
  "ModelSchemaFile = ''_schema.json''"

definition modelTypeToDirNameMapping :: "string \<Rightarrow> string option" where
  "modelTypeToDirNameMapping = map_of
     [(''tensorflow'', tensorflowSavedModelDirName), (''onnx'', ''model.onnx''), (''keras'', ''model.savedmodel'')]"

definition modelTypeToBackendMapping :: "string \<Rightarrow> string option" where
  "modelTypeToBackendMapping = map_of
     [(''tensorflow'', ''tensorflow''), (''tensorrt'', ''tensorrt''), (''onnx'', ''onnxruntime''), (''pytorch'', ''pytorch''), (''keras'', ''tensorflow'')]"

definition modelTypeToFileNameMapping :: "string \<Rightarrow> string option" where
  "modelTypeToFileNameMapping = map_of
     [(''tensorflow'', ''model.graphdef''), (''tensorrt'', ''model.plan''), (''onnx'', ''model.onnx''), (''pytorch'', ''model.pt'')]"

text \<open>The adapter has its own copy of the function of the OVMS adapter.\<close>

definition triton_largestNumberDir :: "finfo list \<Rightarrow> string" where
  "triton_largestNumberDir = largestNumberDir"

definition isTritonModelRepository :: "finfo list \<Rightarrow> bool" where
  "isTritonModelRepository fs \<longleftrightarrow> list_ex (\<lambda>f. fi_name f = tritonRepositoryConfigFilename) fs"

section \<open>adaptmodellayout.go: config.pbtxt\<close>

text \<open>Go's index operation panics on a tensor without dimensions.\<close>

fun all_batch :: "TritonTensor list \<Rightarrow> bool res" where
  "all_batch [] = Ok True"
| "all_batch (t # ts) = (case tt_Dims t of
       [] \<Rightarrow> Panic ''runtime error: index out of range [0] with length 0''
     | d # ds \<Rightarrow> if d \<noteq> - 1 then Ok False else all_batch ts)"

definition allInputsAndOuputsHaveBatchDimension :: "TritonTensor list \<Rightarrow> TritonTensor list \<Rightarrow> bool res" where
  "allInputsAndOuputsHaveBatchDimension ins outs =
     res_bind (all_batch ins) (\<lambda>b. if \<not> b then Ok False else all_batch outs)"

definition removeFirstDimensionFromInputsAndOutputs :: "TritonTensor list \<Rightarrow> TritonTensor list" where
  "removeFirstDimensionFromInputsAndOutputs = map (\<lambda>t. t\<lparr>tt_Dims := tl (tt_Dims t)\<rparr>)"

definition batch_conflict :: goerr where
  "batch_conflict = ErrMsg ''Conflicting model configuration: If model has schema and config.pbtxt with max_batch_size > 0, then the first dimension of all inputs and outputs must have size -1.'' []"

text \<open>The rewriting of the configuration with a schema.\<close>

definition merge_schema :: "TritonTensor list option \<times> TritonTensor list option \<Rightarrow> TritonModelConfig \<Rightarrow> TritonModelConfig res" where
  "merge_schema sm m =
     res_bind (if mc_MaxBatchSize m > 0
       then res_bind (allInputsAndOuputsHaveBatchDimension (slice (fst sm)) (slice (snd sm))) (\<lambda>ok.
         if \<not> ok then Err batch_conflict
         else Ok (map_option removeFirstDimensionFromInputsAndOutputs (fst sm), map_option removeFirstDimensionFromInputsAndOutputs (snd sm)))
       else Ok sm) (\<lambda>sm'.
     Ok (m\<lparr>mc_Input := (case fst sm' of Some i \<Rightarrow> i | None \<Rightarrow> mc_Input m), mc_Output := (case snd sm' of Some out \<Rightarrow> out | None \<Rightarrow> mc_Output m)\<rparr>))"

definition processModelConfig :: "ext \<Rightarrow> triton_tools \<Rightarrow> string \<Rightarrow> string \<Rightarrow> (os, string) step" where
  "processModelConfig X T pbtxtIn schemaPath = (case tx_parse T pbtxtIn of
       None \<Rightarrow> ret pbtxtIn
     | Some m0 \<Rightarrow>
         let m = m0\<lparr>mc_Name := []\<rparr>
         in andThen (if schemaPath \<noteq> []
              then andThen (convertSchemaToConfigFromFile X schemaPath) (\<lambda>sm. lift_res (merge_schema sm m))
              else ret m) (\<lambda>m'.
            ret (case tx_print T m' of Some out \<Rightarrow> out | None \<Rightarrow> pbtxtIn)))"

section \<open>adaptmodellayout.go: the repository\<close>

definition createTritonModelRepositoryFromPath ::
  "ext \<Rightarrow> triton_tools \<Rightarrow> string \<Rightarrow> string \<Rightarrow> string \<Rightarrow> string \<Rightarrow> string \<Rightarrow> (os, unit) step" where
  "createTritonModelRepositoryFromPath X T modelPath versionNumber schemaPath modelType tritonModelIDDir =
     andThen (wrapErr (ErrWrap ''Error calling stat on %s: %w'' [modelPath]) (os_Stat modelPath)) (\<lambda>modelPathInfo.
     andThen (if fi_dir modelPathInfo
       then (case modelTypeToDirNameMapping modelType of
           Some dirName \<Rightarrow> wrapErr (ErrWrap ''Error joining link path: %w'' []) (SecureJoin X [versionNumber, dirName])
         | None \<Rightarrow> ret versionNumber)
       else (case modelTypeToFileNameMapping modelType of
           Some name \<Rightarrow> wrapErr (ErrWrap ''Error joining link path: %w'' []) (SecureJoin X [versionNumber, name])
         | None \<Rightarrow> wrapErr (ErrWrap ''Error joining link path: %w'' []) (SecureJoin X [versionNumber, path_Base modelPath]))) (\<lambda>linkPath0.
     andThen (wrapErr (ErrWrap ''Error joining link path: %w'' []) (SecureJoin X [tritonModelIDDir, linkPath0])) (\<lambda>linkPath.
     andThen (wrapErr (ErrWrap ''Error creating directories for path %s: %w'' [linkPath]) (os_MkdirAll (path_Dir linkPath))) (\<lambda>_.
     andThen (wrapErr (ErrWrap ''Error creating symlink: %w'' []) (os_Symlink modelPath linkPath)) (\<lambda>_.
     if schemaPath = [] then ret ()
     else andThen (convertSchemaToConfigFromFile X schemaPath) (\<lambda>sm.
          let m = empty_config\<lparr>mc_Backend := (case modelTypeToBackendMapping modelType of Some b \<Rightarrow> b | None \<Rightarrow> []),
                mc_Input := slice (fst sm), mc_Output := slice (snd sm)\<rparr>
          in andThen (wrapErr (ErrWrap ''Error joining path to config file: %w'' []) (SecureJoin X [tritonModelIDDir, tritonRepositoryConfigFilename])) (\<lambda>configFile.
             writeConfigPbtxt T configFile m)))))))"

definition createTritonModelRepositoryFromDirectory ::
  "ext \<Rightarrow> triton_tools \<Rightarrow> finfo list \<Rightarrow> string \<Rightarrow> string \<Rightarrow> string \<Rightarrow> string \<Rightarrow> (os, unit) step" where
  "createTritonModelRepositoryFromDirectory X T files0 modelPath0 schemaPath modelType tritonModelIDDir =
     (let files1 = snd (RemoveFileFromListOfFileInfo ModelSchemaFile files0);
          version = triton_largestNumberDir files1
      in andThen (if version \<noteq> []
           then andThen (SecureJoin X [modelPath0, version]) (\<lambda>versionPath.
                andThen (wrapErr (ErrWrap ''Could not read files in dir %s: %w'' [versionPath]) (os_ReadDir versionPath)) (\<lambda>fs.
                ret (versionPath, fs, version)))
           else ret (modelPath0, files1, ''1'')) (\<lambda>(modelPath, fs, versionNumber).
         andThen (if length fs = 1 \<and> (modelTypeToDirNameMapping modelType \<noteq> None \<or> modelTypeToFileNameMapping modelType \<noteq> None)
           then SecureJoin X [modelPath, fi_name (hd fs)] else ret modelPath) (\<lambda>modelPath'.
         createTritonModelRepositoryFromPath X T modelPath' versionNumber schemaPath modelType tritonModelIDDir)))"

text \<open>
  The loop over the entries of a repository that is already in Triton's form. The mode of \<open>config.pbtxt\<close> comes from a call of \<open>lstat\<close>, whose
  error is dropped; the nil value that comes with it is used all the same.
\<close>

fun adaptNativeModelLayout :: "ext \<Rightarrow> triton_tools \<Rightarrow> finfo list \<Rightarrow> string \<Rightarrow> string \<Rightarrow> string \<Rightarrow> (os, unit) step" where
  "adaptNativeModelLayout X T [] sourceModelIDDir schemaPath tritonModelIDDir = ret ()"
| "adaptNativeModelLayout X T (f # fs) sourceModelIDDir schemaPath tritonModelIDDir =
     (let filename = fi_name f
      in andThen (SecureJoin X [sourceModelIDDir, filename]) (\<lambda>source.
         if filename = tritonRepositoryConfigFilename
         then andThen (wrapErr (ErrWrap ''Error reading config file %s: %w'' [source]) (os_ReadFile source)) (\<lambda>pbtxt.
              andThen (processModelConfig X T pbtxt schemaPath) (\<lambda>processedPbtxt.
              andThen (SecureJoin X [tritonModelIDDir, tritonRepositoryConfigFilename]) (\<lambda>target.
              andThen (attempt (os_Lstat (sourceModelIDDir @ slash # filename))) (\<lambda>info.
              case info of
                Ok i \<Rightarrow> andThen (wrapErr (ErrWrap ''Error writing config file %s: %w'' [source]) (os_WriteFile target processedPbtxt (fi_mode i)))
                  (\<lambda>_. adaptNativeModelLayout X T fs sourceModelIDDir schemaPath tritonModelIDDir)
              | _ \<Rightarrow> lift_res (Panic ''runtime error: invalid memory address or nil pointer dereference'')))))
         else andThen (SecureJoin X [tritonModelIDDir, filename]) (\<lambda>link.
              andThen (wrapErr (ErrWrap ''Error creating symlink to %s: %w'' [source]) (os_Symlink source link))
                (\<lambda>_. adaptNativeModelLayout X T fs sourceModelIDDir schemaPath tritonModelIDDir))))"

definition triton_adaptModelLayoutForRuntime ::
  "ext \<Rightarrow> triton_tools \<Rightarrow> string \<Rightarrow> string \<Rightarrow> string \<Rightarrow> string \<Rightarrow> string \<Rightarrow> (os, unit) step" where
  "triton_adaptModelLayoutForRuntime X T rootModelDir modelID modelType0 modelPath0 schemaPath =
     (let modelType = plain_model_type modelType0
      in andThen (SecureJoin X [rootModelDir, modelID]) (\<lambda>tritonModelIDDir.
         andThen (attempt (os_RemoveAll tritonModelIDDir)) (\<lambda>_.
         andThen (wrapErr (ErrWrap ''Error creating directories for path %s: %w'' [tritonModelIDDir]) (os_MkdirAll tritonModelIDDir)) (\<lambda>_.
         andThen (wrapErr (ErrWrap ''Error calling stat on model file: %w'' []) (os_Stat modelPath0)) (\<lambda>modelPathInfo.
         andThen (if \<not> fi_dir modelPathInfo \<and> modelType = ''keras''
           then andThen (SecureJoin X [path_Dir modelPath0, tensorflowSavedModelDirName]) (\<lambda>convertedFilename.
                andThen (wrapErr (ErrWrap ''Error while converting keras model %s to tensorflow: %w'' [modelPath0])
                  (convertKerasToTF T modelPath0 convertedFilename)) (\<lambda>_.
                ret convertedFilename))
           else ret modelPath0) (\<lambda>modelPath.
         if \<not> fi_dir modelPathInfo
         then wrapErr (ErrWrap ''Error processing model/schema files for model %s: %w'' [modelID])
                (createTritonModelRepositoryFromPath X T modelPath ''1'' schemaPath modelType tritonModelIDDir)
         else andThen (wrapErr (ErrWrap ''Could not read files in dir %s: %w'' [modelPath]) (os_ReadDir modelPath)) (\<lambda>fs.
              wrapErr (ErrWrap ''Error processing model/schema files for model %s: %w'' [modelID])
                (if isTritonModelRepository fs then adaptNativeModelLayout X T fs modelPath schemaPath tritonModelIDDir
                 else createTritonModelRepositoryFromDirectory X T fs modelPath schemaPath modelType tritonModelIDDir))))))))"

section \<open>config.go\<close>

definition triton_constants :: adapter_constants where
  "triton_constants =
     \<lparr>k_adapterPort = (''ADAPTER_PORT'', 8085), k_runtimePort = (''RUNTIME_PORT'', 8001),
      k_ContainerMemReqBytes = (''CONTAINER_MEM_REQ_BYTES'', - 1), k_MemBufferBytes = (''MEM_BUFFER_BYTES'', 256 * 1024 * 1024),
      k_maxLoadingConcurrency = (''LOADING_CONCURRENCY'', 1), k_maxLoadingTimeoutMs = (''LOADTIME_TIMEOUT'', 30000),
      k_defaultModelSize = (''DEFAULT_MODELSIZE'', 1000000), k_modelSizeMultiplier = (''MODELSIZE_MULTIPLIER'', Fin 5 (- 2)),
      k_runtimeVersion = (''RUNTIME_VERSION'', ''v1''), k_limitPerModelConcurrency = (''LIMIT_PER_MODEL_CONCURRENCY'', 0),
      k_rootModelDir = (''ROOT_MODEL_DIR'', ''/models''), k_useEmbeddedPuller = (''USE_EMBEDDED_PULLER'', False)\<rparr>"

definition triton_GetAdapterConfigurationFromEnv :: "ext \<Rightarrow> env \<Rightarrow> (os, AdapterConfiguration) step" where
  "triton_GetAdapterConfigurationFromEnv X E =
     andThen (lift_res (read_adapter_env X E triton_constants)) (\<lambda>c.
     andThen (wrapErr (ErrWrap ''Could not construct root model path: %w'' [])
       (SecureJoin X [case_prod (GetEnvString E) (k_rootModelDir triton_constants), tritonModelSubdir])) (\<lambda>root.
     lift_res (check_adapter_config (c\<lparr>ac_RootModelDir := root\<rparr>))))"

section \<open>server.go\<close>

record TritonAdapterServer =
  ta_ext :: ext
  ta_tools :: triton_tools
  ta_Client :: repository_client
  ta_config :: AdapterConfiguration
  ta_puller :: EmbeddedPuller

definition triton_getModelType :: "ext \<Rightarrow> LoadModelRequest \<Rightarrow> string" where
  "triton_getModelType X req =
     (case unmarshal_map X (ModelKey req) of
        None \<Rightarrow> ModelType req
      | Some modelKey \<Rightarrow>
          if gm_get modelKey ''model_type'' = JNull then ModelType req
          else (case gm_get modelKey ''model_type'' of
              JObj m \<Rightarrow> (case as_string (gm_get m ''name'') of Some str \<Rightarrow> str | None \<Rightarrow> ModelType req)
            | v \<Rightarrow> (case as_string v of Some str \<Rightarrow> str | None \<Rightarrow> ModelType req)))"

definition triton_LoadModel :: "TritonAdapterServer \<Rightarrow> LoadModelRequest \<Rightarrow> (os, LoadModelResponse) step" where
  "triton_LoadModel S req0 =
     (let X = ta_ext S; c = ta_config S; modelType = triton_getModelType X req0
      in andThen (embedded_load X c (ta_puller S) req0) (\<lambda>req.
         andThen (lift_res (GetSchemaPath X req)) (\<lambda>schemaPath.
         andThen (wrapErr (\<lambda>e. status_Errorf (x_code X e) ''Failed to load Model due to adapter error: %s'' (Some e))
           (triton_adaptModelLayoutForRuntime X (ta_tools S) (ac_RootModelDir c) (ModelId req) modelType (ModelPath req) schemaPath)) (\<lambda>_.
         andThen (wrapErr (\<lambda>e. status_Errorf (x_code X e) ''Failed to load Model due to Triton runtime error: %s'' (Some e))
           (rc_ModelLoad (ta_Client S) (ModelId req))) (\<lambda>_.
         ret (load_response X c req))))))"

definition triton_UnloadModel :: "TritonAdapterServer \<Rightarrow> string \<Rightarrow> (os, unit) step" where
  "triton_UnloadModel S modelId =
     (let X = ta_ext S; c = ta_config S
      in andThen (unload_tolerant (is_NotFound X) (\<lambda>e. status_Errorf (x_code X e) ''Failed to unload model from Triton'' None)
           (rc_ModelUnload (ta_Client S) modelId)) (\<lambda>_.
         andThen (remove_model_dir X c modelId) (\<lambda>_. embedded_cleanup X c (ta_puller S) modelId)))"

definition triton_method_infos :: "(string \<times> nat list) list" where
  "triton_method_infos = [(''inference.GRPCInferenceService/ModelInfer'', [1]), (''inference.GRPCInferenceService/ModelMetadata'', [1])]"

text \<open>
  The status, and the server with the version that Triton reports. The handler uses the metadata response even if the call for it failed
  and the response is nil.
\<close>

definition triton_RuntimeStatus :: "TritonAdapterServer \<Rightarrow> (os, RuntimeStatusResponse \<times> TritonAdapterServer) step" where
  "triton_RuntimeStatus S =
     (let C = ta_Client S; starting = ret (status_only STARTING, S)
      in andThen (attempt (rc_ServerReady C)) (\<lambda>ready.
         if ready \<noteq> Ok True then starting
         else andThen (attempt (andThen (rc_RepositoryIndex C) (unload_listed C))) (\<lambda>unloaded.
         if \<not> is_ok unloaded then starting
         else andThen (attempt (clear_model_dirs (ta_config S) (ta_puller S) tritonModelSubdir)) (\<lambda>cleared. case cleared of
             Err e \<Rightarrow> ret (status_only FAILING, S)
           | _ \<Rightarrow> andThen (attempt (rc_ServerMetadata C)) (\<lambda>metadata. case metadata of
               Ok version \<Rightarrow>
                 let S' = (if version \<noteq> [] then S\<lparr>ta_config := (ta_config S)\<lparr>ac_RuntimeVersion := version\<rparr>\<rparr> else S)
                 in ret (ready_status (ta_config S') triton_method_infos, S')
             | _ \<Rightarrow> lift_res (Panic ''runtime error: invalid memory address or nil pointer dereference''))))))"

end
