(* ===== verification/TritonProps.thy ===== *)
theory TritonProps
  imports AdapterStartup TritonAdapter
begin

text \<open>What the Triton adapter guarantees.\<close>

section \<open>How far a layout reaches\<close>

lemma convertSchema_keeps: "keeps (\<lambda>s. I (files s)) (convertSchemaToConfigFromFile X f)"
  unfolding convertSchemaToConfigFromFile_def schema_NewFromFile_def
  by (intro keeps_intro keeps_reads keeps_option)

lemma processModelConfig_keeps: "keeps (\<lambda>s. I (files s)) (processModelConfig X T b sp)"
  unfolding processModelConfig_def Let_def
  by (intro keeps_intro keeps_option convertSchema_keeps)

lemma writeConfigPbtxt_inv:
  assumes "lay_inv d t0 (files s)" "list_all plain_name (d @ cs)" "no_links (files s) (d @ cs)" "d \<noteq> []"
  shows "lay_inv d t0 (files (snd (writeConfigPbtxt T (path_str (d @ cs)) m s)))"
  using lay_inv_WriteFile [OF assms] assms(1) by (simp add: writeConfigPbtxt_def split: option.split)

lemma triton_fromPath_keeps:
  assumes "securejoin_scoped X" "list_all plain_name d" "d \<noteq> []"
  shows "keeps (\<lambda>s. lay_inv d t0 (files s)) (createTritonModelRepositoryFromPath X T mp v sp ty (path_str d))"
proof -
  have place: "lay_inv d t0 (files (snd (andThen (wrapErr w (os_MkdirAll (path_Dir (path_str (d @ cs)))))
      (\<lambda>_. andThen (wrapErr w' (os_Symlink mp (path_str (d @ cs)))) (\<lambda>_. rest)) s)))"
    if "lay_inv d t0 (files s)" "list_all plain_name (d @ cs)" "no_links (files s) (d @ cs)" "keeps (\<lambda>s. lay_inv d t0 (files s)) rest"
    for cs s rest w w'
  proof -
    have "andThen m (\<lambda>_. andThen m' (\<lambda>_. rest)) = andThen (andThen m (\<lambda>_. m')) (\<lambda>_. rest)" for m m' :: "(os, unit) step"
      by (auto simp: andThen_def split: prod.split res.split)
    then show ?thesis
      by (simp only:) (rule keeps_at [where P = "\<lambda>s. lay_inv d t0 (files s)", OF _ that(4)], rule lay_inv_place_link [OF that(1-3) assms(3)])
  qed
  show ?thesis
    unfolding createTritonModelRepositoryFromPath_def Let_def
    by (intro keeps_andThen keeps_wrapErr keeps_reads keeps_if keeps_option keeps_ret keeps_join [OF assms] place convertSchema_keeps
        writeConfigPbtxt_inv assms(3))
qed

lemma triton_native_keeps:
  assumes "securejoin_scoped X" "list_all plain_name d" "d \<noteq> []"
  shows "keeps (\<lambda>s. lay_inv d t0 (files s)) (adaptNativeModelLayout X T fs src sp (path_str d))"
proof (induction fs)
  case Nil
  then show ?case by (simp add: keeps_def)
next
  case (Cons f fs)
  show ?case
    unfolding adaptNativeModelLayout.simps Let_def
    by (intro keeps_andThen keeps_wrapErr keeps_reads keeps_if processModelConfig_keeps keeps_join_raw [OF assms]
        lay_inv_config_then [OF _ _ _ assms(3) Cons.IH] lay_inv_link_then [OF _ _ _ Cons.IH])
qed

lemma triton_fromDirectory_keeps:
  assumes "securejoin_scoped X" "list_all plain_name d" "d \<noteq> []"
  shows "keeps (\<lambda>s. lay_inv d t0 (files s)) (createTritonModelRepositoryFromDirectory X T fs mp sp ty (path_str d))"
  unfolding createTritonModelRepositoryFromDirectory_def Let_def
  by (intro keeps_andThen keeps_wrapErr keeps_reads keeps_if keeps_ret keeps_pair triton_fromPath_keeps assms)

text \<open>A Keras model is converted where it lies, outside the directory of adapted models; all other models are only linked to.\<close>

lemma triton_adapt_below:
  assumes "plain_model_type ty \<noteq> ''keras''" "securejoin_scoped X" "d \<noteq> []" "joins_below X (files s) r mid d"
  shows "stays_below d (files s) (files (snd (triton_adaptModelLayoutForRuntime X T r mid ty mp sp s)))"
proof -
  have k: "(if \<not> fi_dir i \<and> plain_model_type ty = ''keras'' then m else m') = m'" for i :: finfo and m m' :: "(os, string) step"
    using assms(1) by simp
  show ?thesis
    unfolding triton_adaptModelLayoutForRuntime_def Let_def k
    by (intro layout_below [OF assms(3,4)] keeps_andThen keeps_wrapErr keeps_if keeps_reads keeps_ret triton_fromPath_keeps triton_native_keeps
        triton_fromDirectory_keeps assms(2)) (use assms(3) in simp_all)
qed

interpretation triton_layout: adapter_layout "\<lambda>X ty. plain_model_type ty \<noteq> ''keras''"
    "\<lambda>X root mid ty mp sp. triton_adaptModelLayoutForRuntime X T root mid ty mp sp" for T :: triton_tools
  by unfold_locales (rule triton_adapt_below)

lemma triton_load_own:
  assumes "securejoin_scoped (ta_ext S)" "d \<noteq> []" "joins_below (ta_ext S) (files s) (ac_RootModelDir (ta_config S)) (ModelId req) d"
    and "\<not> ac_UseEmbeddedPuller (ta_config S)" "client_readonly (ta_Client S)" "plain_model_type (triton_getModelType (ta_ext S) req) \<noteq> ''keras''"
  shows "stays_below d (files s) (files (snd (triton_LoadModel S req s)))"
  unfolding triton_LoadModel_def Let_def
  by (rule triton_layout.load_own [OF assms(6,1-4)])
    (intro keeps_andThen keeps_ret keeps_wrapErr, use assms(5) in \<open>simp add: client_readonly_def\<close>)

text \<open>
  Loading any model but a Keras model through the Triton adapter changes nothing outside the directory of adapted models, and nothing
  outside the models' root when the adapter pulls the model itself; whatever the request, the model's own \<open>config.pbtxt\<close> and the schema
  file say, and whether or not the load succeeds.
\<close>

lemma triton_load_confined:
  assumes "securejoin_scoped (ta_ext S)" "list_all plain_name (root @ cs)" "root \<noteq> []" "no_links (files s) (root @ cs)"
    and "ac_RootModelDir (ta_config S) = path_str (root @ cs)" "client_readonly (ta_Client S)"
    and "confined_pull pull" "ep_pull (ta_puller S) = pull (ta_ext S)" "RootModelDir (ep_config (ta_puller S)) = path_str root"
    and "plain_model_type (triton_getModelType (ta_ext S) req) \<noteq> ''keras''"
  shows "changed_below (if ac_UseEmbeddedPuller (ta_config S) then root else root @ cs) (files s) (files (snd (triton_LoadModel S req s)))"
  unfolding triton_LoadModel_def Let_def
  by (rule triton_layout.load_below [OF assms(10,1-5) _ assms(7-9)])
    (intro keeps_andThen keeps_ret keeps_wrapErr, use assms(6) in \<open>simp add: client_readonly_def\<close>)

section \<open>The configuration of a model\<close>

text \<open>
  A tensor as Triton serves it: with a positive maximal batch size, Triton puts a batch dimension in front of the dimensions in
  the configuration.
\<close>

definition served_tensor :: "TritonModelConfig \<Rightarrow> TritonTensor \<Rightarrow> string \<times> DataType \<times> int list" where
  "served_tensor m t = (tt_Name t, tt_DataType t, if mc_MaxBatchSize m > 0 then - 1 # tt_Dims t else tt_Dims t)"

definition promised_tensor :: "TensorMetadata \<Rightarrow> string \<times> DataType \<times> int list" where
  "promised_tensor t = (tm_Name t, TensorType (tm_Datatype t), slice (tm_Shape t))"

definition no_batch_dim :: "TritonTensor \<Rightarrow> bool" where
  "no_batch_dim t \<longleftrightarrow> tt_Dims t = [] \<or> hd (tt_Dims t) \<noteq> - 1"

lemma all_batch_find:
  "all_batch ts = (case find no_batch_dim ts of None \<Rightarrow> Ok True
    | Some t \<Rightarrow> if tt_Dims t = [] then Panic ''runtime error: index out of range [0] with length 0'' else Ok False)"
  by (induction ts) (auto simp: no_batch_dim_def split: list.split)

lemma find_append: "find P (xs @ ys) = (case find P xs of None \<Rightarrow> find P ys | Some x \<Rightarrow> Some x)"
  by (induction xs) auto

lemma allInputs_find:
  "allInputsAndOuputsHaveBatchDimension ins outs = (case find no_batch_dim (ins @ outs) of None \<Rightarrow> Ok True
    | Some t \<Rightarrow> if tt_Dims t = [] then Panic ''runtime error: index out of range [0] with length 0'' else Ok False)"
  by (auto simp: allInputsAndOuputsHaveBatchDimension_def all_batch_find find_append split: option.split)

lemma served_batch:
  "find no_batch_dim (map schema_tensor ts) = None \<Longrightarrow> mc_MaxBatchSize m > 0 \<Longrightarrow>
     map (served_tensor m) (removeFirstDimensionFromInputsAndOutputs (map schema_tensor ts)) = map promised_tensor ts"
  by (induction ts)
    (auto simp: removeFirstDimensionFromInputsAndOutputs_def served_tensor_def promised_tensor_def schema_tensor_def slice_def no_batch_dim_def
      split: if_splits option.splits, metis list.collapse)

lemma served_plain: "\<not> mc_MaxBatchSize m > 0 \<Longrightarrow> map (served_tensor m) (map schema_tensor ts) = map promised_tensor ts"
  by (auto simp: served_tensor_def promised_tensor_def schema_tensor_def slice_def split: option.split)

text \<open>
  C23: A model that comes with a \<open>config.pbtxt\<close> and a schema is served with the tensors of the schema: the name in the configuration is dropped, Triton's
  inputs and outputs have the names, types and shapes of the schema, whatever the maximal batch size is, and nothing else of the configuration
  changes. With batching, the first tensor of the schema that does not begin with a batch dimension makes the load fail, with an error if it
  has another first dimension, and with a panic of the process if it has no dimension at all.
\<close>

theorem triton_config_follows_schema:
  assumes "tx_parse T pbtxt = Some m" "schemaPath \<noteq> []" "schema_NewFromFile X schemaPath s = (Ok ms, s')"
  shows "case (if mc_MaxBatchSize m > 0 then find no_batch_dim (map schema_tensor (slice (Inputs ms) @ slice (Outputs ms))) else None) of
      Some t \<Rightarrow> processModelConfig X T pbtxt schemaPath s =
        (if tt_Dims t = [] then Panic ''runtime error: index out of range [0] with length 0'' else Err batch_conflict, s')
    | None \<Rightarrow> \<exists>m'. processModelConfig X T pbtxt schemaPath s = (Ok (case tx_print T m' of Some out \<Rightarrow> out | None \<Rightarrow> pbtxt), s') \<and>
        mc_Name m' = [] \<and> mc_Backend m' = mc_Backend m \<and> mc_MaxBatchSize m' = mc_MaxBatchSize m \<and> mc_Other m' = mc_Other m \<and>
        map (served_tensor m') (mc_Input m') = (case Inputs ms of Some ts \<Rightarrow> map promised_tensor ts | None \<Rightarrow> map (served_tensor m) (mc_Input m)) \<and>
        map (served_tensor m') (mc_Output m') = (case Outputs ms of Some ts \<Rightarrow> map promised_tensor ts | None \<Rightarrow> map (served_tensor m) (mc_Output m))"
proof -
  let ?m = "m\<lparr>mc_Name := []\<rparr>" and ?sm = "convertSchemaToConfig ms"
  have sl: "slice (fst ?sm) @ slice (snd ?sm) = map schema_tensor (slice (Inputs ms) @ slice (Outputs ms))"
    by (simp add: convertSchemaToConfig_def slice_def split: option.split)
  have p: "processModelConfig X T pbtxt schemaPath s = (case merge_schema ?sm ?m of
      Ok m' \<Rightarrow> (Ok (case tx_print T m' of Some out \<Rightarrow> out | None \<Rightarrow> pbtxt), s') | Err e \<Rightarrow> (Err e, s') | Panic q \<Rightarrow> (Panic q, s'))"
    using assms by (simp add: processModelConfig_def convertSchemaToConfigFromFile_def andThen_def Let_def split: res.split)
  let ?meets = "\<lambda>i out. map (served_tensor m) i = (case Inputs ms of Some ts \<Rightarrow> map promised_tensor ts | None \<Rightarrow> map (served_tensor m) (mc_Input m)) \<and>
      map (served_tensor m) out = (case Outputs ms of Some ts \<Rightarrow> map promised_tensor ts | None \<Rightarrow> map (served_tensor m) (mc_Output m))"
  let ?goal = "\<exists>m'. processModelConfig X T pbtxt schemaPath s = (Ok (case tx_print T m' of Some out \<Rightarrow> out | None \<Rightarrow> pbtxt), s') \<and>
        mc_Name m' = [] \<and> mc_Backend m' = mc_Backend m \<and> mc_MaxBatchSize m' = mc_MaxBatchSize m \<and> mc_Other m' = mc_Other m \<and>
        map (served_tensor m') (mc_Input m') = (case Inputs ms of Some ts \<Rightarrow> map promised_tensor ts | None \<Rightarrow> map (served_tensor m) (mc_Input m)) \<and>
        map (served_tensor m') (mc_Output m') = (case Outputs ms of Some ts \<Rightarrow> map promised_tensor ts | None \<Rightarrow> map (served_tensor m) (mc_Output m))"
  have fin: ?goal if "merge_schema ?sm ?m = Ok (?m\<lparr>mc_Input := i, mc_Output := out\<rparr>)" "?meets i out" for i out
  proof -
    have "served_tensor (?m\<lparr>mc_Input := i, mc_Output := out\<rparr>) = served_tensor m" by (simp add: served_tensor_def fun_eq_iff)
    with that show ?thesis by (intro exI [of _ "?m\<lparr>mc_Input := i, mc_Output := out\<rparr>"]) (simp add: p)
  qed
  show ?thesis
  proof (cases "mc_MaxBatchSize m > 0")
    case False
    then have "merge_schema ?sm ?m = Ok (?m\<lparr>mc_Input := (case fst ?sm of Some i \<Rightarrow> i | None \<Rightarrow> mc_Input m),
        mc_Output := (case snd ?sm of Some out \<Rightarrow> out | None \<Rightarrow> mc_Output m)\<rparr>)" by (simp add: merge_schema_def cong: option.case_cong)
    from fin [OF this] have ?goal
      using served_plain [OF False] by (simp add: convertSchemaToConfig_def split: option.split del: map_map list.map_comp)
    with False show ?thesis by simp
  next
    case True
    show ?thesis
    proof (cases "find no_batch_dim (map schema_tensor (slice (Inputs ms) @ slice (Outputs ms)))")
      case (Some t)
      then have "merge_schema ?sm ?m = (if tt_Dims t = [] then Panic ''runtime error: index out of range [0] with length 0'' else Err batch_conflict)"
        using True by (simp add: merge_schema_def allInputs_find sl)
      with True Some show ?thesis by (simp add: p)
    next
      case None
      have f: "find no_batch_dim (map schema_tensor (slice (Inputs ms))) = None" "find no_batch_dim (map schema_tensor (slice (Outputs ms))) = None"
        using None by (simp_all add: find_append split: option.splits)
      have "merge_schema ?sm ?m = Ok (?m\<lparr>mc_Input := (case map_option removeFirstDimensionFromInputsAndOutputs (fst ?sm) of Some i \<Rightarrow> i | None \<Rightarrow> mc_Input m),
          mc_Output := (case map_option removeFirstDimensionFromInputsAndOutputs (snd ?sm) of Some out \<Rightarrow> out | None \<Rightarrow> mc_Output m)\<rparr>)"
        using True None by (simp add: merge_schema_def allInputs_find sl cong: option.case_cong)
      moreover have "Inputs ms = Some ts \<Longrightarrow> map (served_tensor m) (removeFirstDimensionFromInputsAndOutputs (map schema_tensor ts)) = map promised_tensor ts"
        "Outputs ms = Some ts \<Longrightarrow> map (served_tensor m) (removeFirstDimensionFromInputsAndOutputs (map schema_tensor ts)) = map promised_tensor ts" for ts
        using f served_batch [OF _ True, of ts] by (simp_all add: slice_def)
      ultimately have ?goal using fin by (simp add: convertSchemaToConfig_def split: option.split)
      with True None show ?thesis by simp
    qed
  qed
qed

section \<open>Start-up\<close>

definition triton_behind_puller :: "TritonAdapterServer \<Rightarrow> TritonAdapterServer" where
  "triton_behind_puller S = S\<lparr>ta_config := (ta_config S)\<lparr>ac_RootModelDir := path_str [''models'', tritonModelSubdir], ac_UseEmbeddedPuller := False\<rparr>\<rparr>"

lemma triton_behind_puller_sel [simp]:
  "ta_ext (triton_behind_puller S) = ta_ext S" "ac_RootModelDir (ta_config (triton_behind_puller S)) = path_str [''models'', tritonModelSubdir]"
  "\<not> ac_UseEmbeddedPuller (ta_config (triton_behind_puller S))" "ta_Client (triton_behind_puller S) = ta_Client S"
  by (simp_all add: triton_behind_puller_def)

lemma triton_subdir_plain: "list_all plain_name [''models'', tritonModelSubdir]" "purge_excluded tritonModelSubdir"
  by (simp_all add: plain_name_def tritonModelSubdir_def purge_excluded_def PurgeExcludePrefixes_def has_prefix_def)

lemma triton_status_runs:
  assumes "client_works (ta_Client S) loaded version" "quiet s"
    and "\<And>u. files u = files s \<Longrightarrow> quiet u \<Longrightarrow> runs (clear_model_dirs (ta_config S) (ta_puller S) tritonModelSubdir) u () t"
  shows "runs (andThen (triton_RuntimeStatus S) (\<lambda>r. ret (fst r))) s (ready_status (with_version (ta_config S) version) triton_method_infos) t"
proof -
  from assms obtain u v w x where "rc_ServerReady (ta_Client S) s = (Ok True, u)"
    "andThen (rc_RepositoryIndex (ta_Client S)) (unload_listed (ta_Client S)) u = (Ok (), v)"
    "clear_model_dirs (ta_config S) (ta_puller S) tritonModelSubdir v = (Ok (), w)"
    "rc_ServerMetadata (ta_Client S) w = (Ok version, x)" "files x = t" "quiet x"
    by (rule client_startup)
  then show ?thesis by (simp add: triton_RuntimeStatus_def Let_def runs_def andThen_def attempt_def with_version_def)
qed

text \<open>An adapter to try it on.\<close>

text \<open>A reader of configurations that knows one text, with batching.\<close>

definition demo_triton_tools :: triton_tools where
  "demo_triton_tools = \<lparr>tx_parse = (\<lambda>b. Some (empty_config\<lparr>mc_Name := ''n'', mc_MaxBatchSize := 8\<rparr>)), tx_print = (\<lambda>m. Some (concat (map tt_Name (mc_Input m)))),
     tx_pipe = Ok (), tx_acquire = Ok (), tx_start = Ok (), tx_python = (\<lambda>k t. ret ()), tx_stderr = (\<lambda>e. [])\<rparr>"

definition demo_triton :: TritonAdapterServer where
  "demo_triton = \<lparr>ta_ext = demo_key_ext, ta_tools = demo_triton_tools, ta_Client = demo_client, ta_config = demo_config ''/models/_triton_models'',
     ta_puller = \<lparr>ep_config = demo_puller_config, ep_pull = azure_Pull demo_sdk demo_key_ext (AzNoCredential ''u''), ep_stack = 9\<rparr>\<rparr>"

definition demo_triton_fs :: fs where
  "demo_triton_fs = [([''models''], Dir), ([''models'', ''_triton_models''], Dir), ([''models'', ''_triton_models'', ''m''], Dir),
     ([''models'', ''_triton_models'', ''m'', ''1''], Link ''/models/m''), ([''models'', ''m''], Dir), ([''models'', ''m'', ''2''], Dir),
     ([''models'', ''m'', ''11''], Dir), ([''etc''], File 420 ''x'')]"

lemma demo_triton_facts:
  "real_dirs (files (demo_os demo_triton_fs)) [''models'', ''_triton_models'']" "no_links (files (demo_os demo_triton_fs)) [''models'', ''_triton_models'']"
  "list_all plain_name [''models'', ''_triton_models'']" "quiet (demo_os demo_triton_fs)"
  by (simp_all add: real_dirs_def no_links_def demo_os_def demo_triton_fs_def get_def le_Suc_eq all_conj_distrib plain_name_def quiet_def)

lemma demo_triton_sel [simp]:
  "ta_ext demo_triton = demo_key_ext" "ac_RootModelDir (ta_config demo_triton) = path_str [''models'', ''_triton_models'']"
  "\<not> ac_UseEmbeddedPuller (ta_config demo_triton)" "ep_pull (ta_puller demo_triton) = azure_Pull demo_sdk demo_key_ext (AzNoCredential ''u'')"
  "RootModelDir (ep_config (ta_puller demo_triton)) = path_str [''models'']" "ta_Client demo_triton = demo_client"
  by (simp_all add: demo_triton_def demo_config_def demo_puller_config_def path_str_def)

text \<open>Every text is the same schema of one input, whose shape is the argument.\<close>

definition demo_schema_ext :: "int list \<Rightarrow> ext" where
  "demo_schema_ext ds = demo_ext\<lparr>x_parse := (\<lambda>s. Some (JObj [(''inputs'', JArr [JObj [(''name'', JStr ''x''), (''datatype'', JStr ''FP32''),
     (''shape'', JArr (map (\<lambda>d. JNum (NInt d)) ds))]])]))\<rparr>"

lemma triton_startup:
  assumes "client_works (ta_Client S) loaded version" "client_readonly (ta_Client S)"
  shows "adapter_startup (ta_ext S) (triton_UnloadModel (triton_behind_puller S)) [''models''] tritonModelSubdir
    (andThen (triton_RuntimeStatus (triton_behind_puller S)) (\<lambda>r. ret (fst r)))
    (ready_status (with_version (ta_config (triton_behind_puller S)) version) triton_method_infos) (\<lambda>m. m) (\<lambda>x. True)"
proof (rule adapter_startupI)
  let ?S = "triton_behind_puller S"
  show "triton_UnloadModel ?S m = andThen (unload_tolerant (is_NotFound (ta_ext S))
      (\<lambda>e. status_Errorf (x_code (ta_ext S) e) ''Failed to unload model from Triton'' None) (rc_ModelUnload (ta_Client S) m))
      (\<lambda>_. andThen (remove_model_dir (ta_ext S) (ta_config ?S) m) (\<lambda>_. embedded_cleanup (ta_ext S) (ta_config ?S) (ta_puller ?S) m))" for m
    by (simp add: triton_UnloadModel_def Let_def)
  show "runs (andThen (triton_RuntimeStatus ?S) (\<lambda>r. ret (fst r))) s (ready_status (with_version (ta_config ?S) version) triton_method_infos) t"
    if "quiet s" "\<And>u. files u = files s \<Longrightarrow> quiet u \<Longrightarrow> runs (clear_model_dirs (ta_config ?S) (ta_puller ?S) tritonModelSubdir) u () t" for s t
    using triton_status_runs [of ?S loaded version s t] assms that by simp
qed (use assms triton_subdir_plain client_readonly_files in \<open>simp_all add: ready_status_def client_works_def\<close>)

section \<open>The theorems at work\<close>

theorem triton_config_follows_schema_witness:
  "fst (processModelConfig (demo_schema_ext []) demo_triton_tools ''c'' ''/etc'' (demo_os demo_triton_fs)) =
     Panic ''runtime error: index out of range [0] with length 0''"
proof -
  let ?s = "demo_os demo_triton_fs" and ?X = "demo_schema_ext []"
  let ?ms = "\<lparr>Inputs = Some [\<lparr>tm_Name = ''x'', tm_Datatype = ''FP32'', tm_Shape = Some []\<rparr>], Outputs = None\<rparr>"
  have "fst (schema_NewFromFile ?X ''/etc'' ?s) = Ok ?ms" by code_simp
  then have "schema_NewFromFile ?X ''/etc'' ?s = (Ok ?ms, snd (schema_NewFromFile ?X ''/etc'' ?s))" by (simp add: prod_eq_iff)
  with triton_config_follows_schema [of demo_triton_tools "''c''" "empty_config\<lparr>mc_Name := ''n'', mc_MaxBatchSize := 8\<rparr>" "''/etc''" ?X ?s ?ms]
  show ?thesis
    by (simp add: demo_triton_tools_def slice_def no_batch_dim_def schema_tensor_def)
qed

end
