(* ===== verification/MlserverAdapter.thy ===== *)
theory MlserverAdapter
  imports AdapterBase
begin

text \<open>
  \<open>model-mesh-mlserver-adapter/server\<close>: \<open>server.go\<close> (the layout with its \<open>model-settings.json\<close>, and the handlers) and \<open>config.go\<close>. MLServer is
  outside the repository. \<open>ind\<close> is the text that \<open>json.MarshalIndent\<close> prints; on the values here it does not fail.
\<close>

section \<open>Settings of a model\<close>

definition mlserverModelSubdir :: string where
  "mlserverModelSubdir = ''_mlserver_models''"

definition mlserverRepositoryConfigFilename :: string where
  "mlserverRepositoryConfigFilename = ''model-settings.json''"

definition tensorMetadataToJson :: "TensorMetadata \<Rightarrow> json" where
  "tensorMetadataToJson tm = JObj [(''name'', JStr (tm_Name tm)), (''datatype'', JStr (tm_Datatype tm)),
     (''shape'', case tm_Shape tm of None \<Rightarrow> JNull | Some ds \<Rightarrow> JArr (map (\<lambda>d. JNum (NInt d)) ds))]"

definition processSchema :: "gomap \<Rightarrow> ModelSchema \<Rightarrow> gomap" where
  "processSchema c s =
     (let c' = (case Inputs s of Some ts \<Rightarrow> AList.update ''inputs'' (JArr (map tensorMetadataToJson ts)) c | None \<Rightarrow> c)
      in case Outputs s of Some ts \<Rightarrow> AList.update ''outputs'' (JArr (map tensorMetadataToJson ts)) c' | None \<Rightarrow> c')"

text \<open>The schema file, read if there is one.\<close>

definition with_schema :: "ext \<Rightarrow> string \<Rightarrow> gomap \<Rightarrow> (os, gomap) step" where
  "with_schema X schemaPath j =
     (if schemaPath = [] then ret j
      else andThen (wrapErr (ErrWrap ''Error parsing schema file: %w'' []) (schema_NewFromFile X schemaPath)) (\<lambda>s. ret (processSchema j s)))"

text \<open>
  The absolute form of \<open>parameters.uri\<close>: \<open>None\<close> stands for the early return of the input when the join fails. The type assertions panic.
\<close>

definition rewrite_uri :: "ext \<Rightarrow> string \<Rightarrow> gomap \<Rightarrow> (os, gomap option) step" where
  "rewrite_uri X targetDir j =
     (if gm_get j ''parameters'' = JNull then ret (Some j)
      else (case as_map (gm_get j ''parameters'') of
          None \<Rightarrow> lift_res (Panic ''interface conversion: interface {} is not map[string]interface {}'')
        | Some p \<Rightarrow>
            if gm_get p ''uri'' = JNull then ret (Some j)
            else (case as_string (gm_get p ''uri'') of
                None \<Rightarrow> lift_res (Panic ''interface conversion: interface {} is not string'')
              | Some uri \<Rightarrow> andThen (attempt (SecureJoin X [targetDir, uri])) (\<lambda>r. case r of
                    Ok newUri \<Rightarrow> ret (Some (AList.update ''parameters'' (JObj (AList.update ''uri'' (JStr newUri) p)) j))
                  | _ \<Rightarrow> ret None))))"

text \<open>The text \<open>null\<close> is valid JSON and leaves the map nil, and an assignment to a nil map panics.\<close>

definition processConfigJSON :: "ext \<Rightarrow> (json \<Rightarrow> string) \<Rightarrow> string \<Rightarrow> string \<Rightarrow> string \<Rightarrow> string \<Rightarrow> (os, string) step" where
  "processConfigJSON X ind jsonIn modelID targetDir schemaPath = (case unmarshal_map X jsonIn of
       None \<Rightarrow> ret jsonIn
     | Some j \<Rightarrow>
         if x_parse X jsonIn = Some JNull then lift_res (Panic ''assignment to entry in nil map'')
         else andThen (rewrite_uri X targetDir (AList.update ''name'' (JStr modelID) j)) (\<lambda>r. case r of
             None \<Rightarrow> ret jsonIn
           | Some j' \<Rightarrow> andThen (with_schema X schemaPath j') (\<lambda>j''. ret (ind (JObj j'')))))"

definition modelTypeToImplementationMapping :: "(string \<times> string) list" where
  "modelTypeToImplementationMapping = [(''lightgbm'', ''mlserver_lightgbm.LightGBMModel''), (''sklearn'', ''mlserver_sklearn.SKLearnModel''),
     (''xgboost'', ''mlserver_xgboost.XGBoostModel''), (''mllib'', ''mlserver-mllib.MLlibModel'')]"

definition generateModelConfigJSON :: "ext \<Rightarrow> (json \<Rightarrow> string) \<Rightarrow> string \<Rightarrow> string \<Rightarrow> string \<Rightarrow> string \<Rightarrow> (os, string) step" where
  "generateModelConfigJSON X ind modelID modelType uri schemaPath =
     (let j = AList.update ''name'' (JStr modelID) [];
          j1 = (case map_of modelTypeToImplementationMapping modelType of Some imp \<Rightarrow> AList.update ''implementation'' (JStr imp) j | None \<Rightarrow> j);
          j2 = AList.update ''parameters'' (JObj [(''uri'', JStr uri)]) j1
      in andThen (with_schema X schemaPath j2) (\<lambda>j3. ret (ind (JObj j3))))"

section \<open>The layout\<close>

fun mlserver_adaptNativeModelLayout :: "ext \<Rightarrow> (json \<Rightarrow> string) \<Rightarrow> finfo list \<Rightarrow> string \<Rightarrow> string \<Rightarrow> string \<Rightarrow> string \<Rightarrow> (os, unit) step" where
  "mlserver_adaptNativeModelLayout X ind [] modelID modelPath schemaPath targetDir = ret ()"
| "mlserver_adaptNativeModelLayout X ind (f # fs) modelID modelPath schemaPath targetDir =
     (let filename = fi_name f
      in andThen (SecureJoin X [modelPath, filename]) (\<lambda>source.
         if filename = mlserverRepositoryConfigFilename
         then andThen (wrapErr (ErrWrap ''could not read model config file %s: %w'' [source]) (os_ReadFile source)) (\<lambda>configJSON.
              andThen (wrapErr (ErrWrap ''Error processing config file %s: %w'' [source])
                (processConfigJSON X ind configJSON modelID targetDir schemaPath)) (\<lambda>processedConfigJSON.
              andThen (SecureJoin X [targetDir, mlserverRepositoryConfigFilename]) (\<lambda>target.
              andThen (attempt (os_Lstat (modelPath @ slash # filename))) (\<lambda>info.
              case info of
                Ok i \<Rightarrow> andThen (wrapErr (ErrWrap ''error writing config file %s: %w'' [source]) (os_WriteFile target processedConfigJSON (fi_mode i)))
                  (\<lambda>_. mlserver_adaptNativeModelLayout X ind fs modelID modelPath schemaPath targetDir)
              | _ \<Rightarrow> lift_res (Panic ''runtime error: invalid memory address or nil pointer dereference'')))))
         else andThen (SecureJoin X [targetDir, filename]) (\<lambda>link.
              andThen (wrapErr (ErrWrap ''error creating symlink to %s: %w'' [source]) (os_Symlink source link))
                (\<lambda>_. mlserver_adaptNativeModelLayout X ind fs modelID modelPath schemaPath targetDir))))"

definition mlserver_adaptModelLayout :: "ext \<Rightarrow> (json \<Rightarrow> string) \<Rightarrow> string \<Rightarrow> string \<Rightarrow> string \<Rightarrow> string \<Rightarrow> string \<Rightarrow> (os, unit) step" where
  "mlserver_adaptModelLayout X ind modelID modelType modelPath schemaPath targetDir =
     andThen (SecureJoin X [targetDir, path_Base modelPath]) (\<lambda>linkPath.
     andThen (wrapErr (ErrWrap ''Error creating symlink: %w'' []) (os_Symlink modelPath linkPath)) (\<lambda>_.
     andThen (wrapErr (ErrWrap ''Error generating config file for %s: %w'' [modelID])
       (generateModelConfigJSON X ind modelID modelType linkPath schemaPath)) (\<lambda>configJSON.
     andThen (SecureJoin X [targetDir, mlserverRepositoryConfigFilename]) (\<lambda>target.
     wrapErr (ErrWrap ''Error writing generated config file for %s: %w'' [modelID]) (os_WriteFile target configJSON 436)))))"

text \<open>The first entry with the name of the settings file comes first, so that its URI is made absolute before there are links.\<close>

fun config_index :: "nat \<Rightarrow> finfo list \<Rightarrow> nat option" where
  "config_index i [] = None"
| "config_index i (f # fs) = (if fi_name f = mlserverRepositoryConfigFilename then Some i else config_index (Suc i) fs)"

definition config_first :: "finfo list \<Rightarrow> nat \<Rightarrow> finfo list" where
  "config_first fs i = (if i > 0 then (fs[i := fs ! 0])[0 := fs ! i] else fs)"

text \<open>The error of a failing \<open>ReadDir\<close> wraps the wrong variable, which is nil.\<close>

definition mlserver_adaptModelLayoutForRuntime :: "ext \<Rightarrow> (json \<Rightarrow> string) \<Rightarrow> string \<Rightarrow> string \<Rightarrow> string \<Rightarrow> string \<Rightarrow> string \<Rightarrow> (os, unit) step" where
  "mlserver_adaptModelLayoutForRuntime X ind rootModelDir modelID modelType0 modelPath schemaPath =
     (let modelType = plain_model_type modelType0
      in andThen (SecureJoin X [rootModelDir, modelID]) (\<lambda>mlserverModelIDDir.
         andThen (attempt (os_RemoveAll mlserverModelIDDir)) (\<lambda>_.
         andThen (wrapErr (ErrWrap ''Error creating directories for path %s: %w'' [mlserverModelIDDir]) (os_MkdirAll mlserverModelIDDir)) (\<lambda>_.
         andThen (wrapErr (ErrWrap ''Error calling stat on %s: %w'' [modelPath]) (os_Stat modelPath)) (\<lambda>modelPathInfo.
         if \<not> fi_dir modelPathInfo
         then wrapErr (ErrWrap ''Error adapting model directory %s: %w'' [modelPath])
                (mlserver_adaptModelLayout X ind modelID modelType modelPath schemaPath mlserverModelIDDir)
         else andThen (wrapErr (\<lambda>_. ErrMsg ''Could not read files in dir %s: %w'' [modelPath, ''%!w(<nil>)'']) (os_ReadDir modelPath)) (\<lambda>fs.
              wrapErr (ErrWrap ''Error adapting model directory %s: %w'' [modelPath])
                (case config_index 0 fs of
                   Some i \<Rightarrow> mlserver_adaptNativeModelLayout X ind (config_first fs i) modelID modelPath schemaPath mlserverModelIDDir
                 | None \<Rightarrow> mlserver_adaptModelLayout X ind modelID modelType modelPath schemaPath mlserverModelIDDir)))))))"

section \<open>config.go\<close>

definition mlserver_constants :: adapter_constants where
  "mlserver_constants =
     \<lparr>k_adapterPort = (''ADAPTER_PORT'', 8085), k_runtimePort = (''RUNTIME_PORT'', 8001),
      k_ContainerMemReqBytes = (''CONTAINER_MEM_REQ_BYTES'', - 1), k_MemBufferBytes = (''MEM_BUFFER_BYTES'', 256 * 1024 * 1024),
      k_maxLoadingConcurrency = (''LOADING_CONCURRENCY'', 1), k_maxLoadingTimeoutMs = (''LOADTIME_TIMEOUT'', 30000),
      k_defaultModelSize = (''DEFAULT_MODELSIZE'', 1000000), k_modelSizeMultiplier = (''MODELSIZE_MULTIPLIER'', Fin 5 (- 2)),
      k_runtimeVersion = (''RUNTIME_VERSION'', ''v1''), k_limitPerModelConcurrency = (''LIMIT_PER_MODEL_CONCURRENCY'', 0),
      k_rootModelDir = (''ROOT_MODEL_DIR'', ''/models''), k_useEmbeddedPuller = (''USE_EMBEDDED_PULLER'', False)\<rparr>"

definition mlserver_GetAdapterConfigurationFromEnv :: "ext \<Rightarrow> env \<Rightarrow> (os, AdapterConfiguration) step" where
  "mlserver_GetAdapterConfigurationFromEnv X E =
     andThen (lift_res (read_adapter_env X E mlserver_constants)) (\<lambda>c.
     andThen (wrapErr (ErrWrap ''Could not construct root model path: %w'' [])
       (SecureJoin X [case_prod (GetEnvString E) (k_rootModelDir mlserver_constants), mlserverModelSubdir])) (\<lambda>root.
     lift_res (check_adapter_config (c\<lparr>ac_RootModelDir := root\<rparr>))))"

section \<open>The handlers\<close>

record MLServerAdapterServer =
  ma_ext :: ext
  ma_indent :: "json \<Rightarrow> string"
  ma_Client :: repository_client
  ma_config :: AdapterConfiguration
  ma_puller :: EmbeddedPuller

text \<open>\<open>dial\<close> is the result of connecting to MLServer; the failures end the process.\<close>

definition NewMLServerAdapterServer ::
  "ext \<Rightarrow> (json \<Rightarrow> string) \<Rightarrow> repository_client res \<Rightarrow> EmbeddedPuller \<Rightarrow> AdapterConfiguration \<Rightarrow> (os, MLServerAdapterServer) step" where
  "NewMLServerAdapterServer X ind dial P c =
     andThen (attempt (os_MkdirAll (ac_RootModelDir c))) (\<lambda>r.
     if \<not> is_ok r then lift_res os_Exit
     else (case dial of
         Ok client \<Rightarrow> ret \<lparr>ma_ext = X, ma_indent = ind, ma_Client = client, ma_config = c, ma_puller = P\<rparr>
       | _ \<Rightarrow> lift_res os_Exit))"

definition mlserver_LoadModel :: "MLServerAdapterServer \<Rightarrow> LoadModelRequest \<Rightarrow> (os, LoadModelResponse) step" where
  "mlserver_LoadModel S req0 =
     (let X = ma_ext S; c = ma_config S; modelType = GetModelType X req0
      in andThen (embedded_load X c (ma_puller S) req0) (\<lambda>req.
         andThen (lift_res (GetSchemaPath X req)) (\<lambda>schemaPath.
         andThen (wrapErr (\<lambda>e. status_Errorf (x_code X e) ''Failed to load Model due to adapter error: %v'' (Some e))
           (mlserver_adaptModelLayoutForRuntime X (ma_indent S) (ac_RootModelDir c) (ModelId req) modelType (ModelPath req) schemaPath)) (\<lambda>_.
         andThen (wrapErr (\<lambda>e. status_Errorf (x_code X e) ''Failed to load Model due to MLServer runtime error: %v'' (Some e))
           (rc_ModelLoad (ma_Client S) (ModelId req))) (\<lambda>_.
         ret (load_response X c req))))))"

definition mlserver_unknown :: "ext \<Rightarrow> goerr \<Rightarrow> bool" where
  "mlserver_unknown X e \<longleftrightarrow> x_code X e = CodeInvalidArgument \<or> x_code X e = CodeNotFound"

definition mlserver_UnloadModel :: "MLServerAdapterServer \<Rightarrow> string \<Rightarrow> (os, unit) step" where
  "mlserver_UnloadModel S modelId =
     (let X = ma_ext S; c = ma_config S
      in andThen (unload_tolerant (mlserver_unknown X) (\<lambda>e. status_Errorf (x_code X e) ''Failed to unload model from MLServer'' None)
           (rc_ModelUnload (ma_Client S) modelId)) (\<lambda>_.
         andThen (remove_model_dir X c modelId) (\<lambda>_. embedded_cleanup X c (ma_puller S) modelId)))"

definition mlserver_method_infos :: "(string \<times> nat list) list" where
  "mlserver_method_infos = [(''inference.GRPCInferenceService/ModelInfer'', [1]), (''inference.GRPCInferenceService/ModelMetadata'', [1])]"

text \<open>The status, and the server with the version that MLServer reports.\<close>

definition mlserver_RuntimeStatus :: "MLServerAdapterServer \<Rightarrow> (os, RuntimeStatusResponse \<times> MLServerAdapterServer) step" where
  "mlserver_RuntimeStatus S =
     (let C = ma_Client S; starting = ret (status_only STARTING, S)
      in andThen (attempt (rc_ServerReady C)) (\<lambda>ready.
         if ready \<noteq> Ok True then starting
         else andThen (attempt (andThen (rc_RepositoryIndex C) (unload_listed C))) (\<lambda>unloaded.
         if \<not> is_ok unloaded then starting
         else andThen (attempt (clear_model_dirs (ma_config S) (ma_puller S) mlserverModelSubdir)) (\<lambda>cleared. case cleared of
             Err e \<Rightarrow> ret (status_only FAILING, S)
           | _ \<Rightarrow> andThen (attempt (rc_ServerMetadata C)) (\<lambda>metadata. case metadata of
               Ok version \<Rightarrow>
                 let S' = (if version \<noteq> [] then S\<lparr>ma_config := (ma_config S)\<lparr>ac_RuntimeVersion := version\<rparr>\<rparr> else S)
                 in ret (ready_status (ma_config S') mlserver_method_infos, S')
             | _ \<Rightarrow> starting)))))"

end
