(* ===== verification/MlserverProps.thy ===== *)
theory MlserverProps
  imports AdapterStartup MlserverAdapter
begin

text \<open>What the MLServer adapter guarantees.\<close>

section \<open>How far a layout reaches\<close>

lemma rewrite_uri_keeps: "keeps (\<lambda>s. I (files s)) (rewrite_uri X d j)"
proof -
  have "keeps (\<lambda>s. I (files s)) (andThen (attempt (SecureJoin X [d, u])) (\<lambda>r. case r of
      Ok n \<Rightarrow> ret (f n) | _ \<Rightarrow> ret None))" for u and f :: "string \<Rightarrow> gomap option"
    by (intro keeps_andThen keeps_attempt keeps_reads) (simp split: res.split add: keeps_def)
  then show ?thesis unfolding rewrite_uri_def by (intro keeps_if keeps_option keeps_ret keeps_lift)
qed

lemma with_schema_keeps: "keeps (\<lambda>s. I (files s)) (with_schema X sp j)"
  unfolding with_schema_def schema_NewFromFile_def by (intro keeps_intro keeps_reads keeps_option)

lemma processConfigJSON_keeps: "keeps (\<lambda>s. I (files s)) (processConfigJSON X ind c mid d sp)"
  unfolding processConfigJSON_def by (intro keeps_intro keeps_option rewrite_uri_keeps with_schema_keeps)

lemma generateModelConfigJSON_keeps: "keeps (\<lambda>s. I (files s)) (generateModelConfigJSON X ind mid ty u sp)"
  unfolding generateModelConfigJSON_def Let_def by (intro keeps_intro with_schema_keeps)

lemma mlserver_adaptModelLayout_keeps:
  assumes "securejoin_scoped X" "list_all plain_name d" "d \<noteq> []"
  shows "keeps (\<lambda>s. lay_inv d t0 (files s)) (mlserver_adaptModelLayout X ind mid ty mp sp (path_str d))"
proof -
  have rest: "keeps (\<lambda>s. lay_inv d t0 (files s)) (andThen (wrapErr w (generateModelConfigJSON X ind mid ty u sp)) (\<lambda>c.
      andThen (SecureJoin X [path_str d, mlserverRepositoryConfigFilename]) (\<lambda>target. wrapErr w' (os_WriteFile target c 436))))" for w w' u
    by (intro keeps_andThen keeps_wrapErr generateModelConfigJSON_keeps keeps_join_raw [OF assms])
      (use lay_inv_WriteFile [OF _ _ _ assms(3)] in simp)
  show ?thesis unfolding mlserver_adaptModelLayout_def
    by (intro keeps_join_raw [OF assms], rule keeps_at [where P = "\<lambda>s. lay_inv d t0 (files s)", OF _ rest])
      (use lay_inv_Symlink in simp)
qed

lemma mlserver_native_keeps:
  assumes "securejoin_scoped X" "list_all plain_name d" "d \<noteq> []"
  shows "keeps (\<lambda>s. lay_inv d t0 (files s)) (mlserver_adaptNativeModelLayout X ind fs mid mp sp (path_str d))"
proof (induction fs)
  case Nil
  then show ?case by (simp add: keeps_def)
next
  case (Cons f fs)
  show ?case
    unfolding mlserver_adaptNativeModelLayout.simps Let_def
    by (intro keeps_andThen keeps_wrapErr keeps_reads keeps_if processConfigJSON_keeps keeps_join_raw [OF assms]
        lay_inv_config_then [OF _ _ _ assms(3) Cons.IH] lay_inv_link_then [OF _ _ _ Cons.IH])
qed

lemma mlserver_adapt_below:
  assumes "securejoin_scoped X" "d \<noteq> []" "joins_below X (files s) r mid d"
  shows "stays_below d (files s) (files (snd (mlserver_adaptModelLayoutForRuntime X ind r mid ty mp sp s)))"
  unfolding mlserver_adaptModelLayoutForRuntime_def Let_def
  by (intro layout_below [OF assms(2,3)] keeps_andThen keeps_wrapErr keeps_if keeps_option keeps_reads mlserver_adaptModelLayout_keeps
      mlserver_native_keeps assms(1)) (use assms(2) in simp_all)

interpretation mlserver_layout: adapter_layout "\<lambda>X ty. True"
    "\<lambda>X root mid ty mp sp. mlserver_adaptModelLayoutForRuntime X ind root mid ty mp sp" for ind :: "json \<Rightarrow> string"
  by unfold_locales (rule mlserver_adapt_below)

lemma mlserver_load_own:
  assumes "securejoin_scoped (ma_ext S)" "d \<noteq> []" "joins_below (ma_ext S) (files s) (ac_RootModelDir (ma_config S)) (ModelId req) d"
    and "\<not> ac_UseEmbeddedPuller (ma_config S)" "client_readonly (ma_Client S)"
  shows "stays_below d (files s) (files (snd (mlserver_LoadModel S req s)))"
  unfolding mlserver_LoadModel_def Let_def
  by (rule mlserver_layout.load_own [OF _ assms(1-4)])
    (simp, intro keeps_andThen keeps_ret keeps_wrapErr, use assms(5) in \<open>simp add: client_readonly_def\<close>)

lemma mlserver_load_confined:
  assumes "securejoin_scoped (ma_ext S)" "list_all plain_name (root @ cs)" "root \<noteq> []" "no_links (files s) (root @ cs)"
    and "ac_RootModelDir (ma_config S) = path_str (root @ cs)" "client_readonly (ma_Client S)"
    and "confined_pull pull" "ep_pull (ma_puller S) = pull (ma_ext S)" "RootModelDir (ep_config (ma_puller S)) = path_str root"
  shows "changed_below (if ac_UseEmbeddedPuller (ma_config S) then root else root @ cs) (files s) (files (snd (mlserver_LoadModel S req s)))"
  unfolding mlserver_LoadModel_def Let_def
  by (rule mlserver_layout.load_below [OF _ assms(1-5) _ assms(7-9)])
    (simp, intro keeps_andThen keeps_ret keeps_wrapErr, use assms(6) in \<open>simp add: client_readonly_def\<close>)

section \<open>The settings of a model\<close>

lemma processSchema_get: "k \<noteq> ''inputs'' \<Longrightarrow> k \<noteq> ''outputs'' \<Longrightarrow> gm_get (processSchema c m) k = gm_get c k"
  by (simp add: processSchema_def Let_def gm_get_update split: option.split)

lemma with_schema_get:
  assumes "with_schema X sp j s = (Ok j', s')" "sp = [] \<or> (k \<noteq> ''inputs'' \<and> k \<noteq> ''outputs'')"
  shows "gm_get j' k = gm_get j k"
proof (cases "sp = []")
  case False
  with assms(1) obtain m where "j' = processSchema j m" by (auto simp: with_schema_def res_simps)
  with assms(2) False show ?thesis by (simp add: processSchema_get)
qed (use assms in \<open>simp add: with_schema_def\<close>)

lemma rewrite_uri_string:
  assumes "as_map (gm_get j ''parameters'') = Some p" "as_string (gm_get p ''uri'') = Some u"
  shows "rewrite_uri X d j s = (case x_securejoin X (files s) d u of
    Ok q \<Rightarrow> (Ok (Some (AList.update ''parameters'' (JObj (AList.update ''uri'' (JStr q) p)) j)), s)
  | Err e \<Rightarrow> (Ok None, s) | Panic m \<Rightarrow> (Panic m, s))"
proof -
  have "gm_get j ''parameters'' \<noteq> JNull" "gm_get p ''uri'' \<noteq> JNull" using assms by (cases "gm_get j ''parameters''"; cases "gm_get p ''uri''"; simp)+
  then show ?thesis using assms
    by (simp add: rewrite_uri_def andThen_def attempt_def SecureJoin_def SecureJoin_at_def split: res.split)
qed

text \<open>
  C24: A settings file with a relative URI, as MLServer gets it: the name is the model's id, the URI is an absolute path below the directory of
  the adapted model, whatever the file says, and no other parameter and no other key changes but, with a schema, the inputs and the outputs.
  When the URI cannot be joined the file is taken over as it is.
\<close>

theorem mlserver_settings:
  assumes "securejoin_scoped X" "list_all plain_name d" "d \<noteq> []" "no_links (files s) d"
    and "unmarshal_map X c = Some j" "as_map (gm_get j ''parameters'') = Some p" "as_string (gm_get p ''uri'') = Some u"
    and "processConfigJSON X ind c modelID (path_str d) sp s = (Ok out, s')"
  shows "case x_securejoin X (files s) (path_str d) u of
    Ok q \<Rightarrow> \<exists>j' p' cs. out = ind (JObj j') \<and> gm_get j' ''name'' = JStr modelID \<and> gm_get j' ''parameters'' = JObj p' \<and>
      gm_get p' ''uri'' = JStr (path_str (d @ cs)) \<and> list_all plain_name cs \<and> no_links (files s) (d @ cs) \<and>
      (\<forall>k. k = ''uri'' \<or> gm_get p' k = gm_get p k) \<and>
      (\<forall>k. k \<in> {''name'', ''parameters''} \<or> (sp \<noteq> [] \<and> k \<in> {''inputs'', ''outputs''}) \<or> gm_get j' k = gm_get j k)
  | _ \<Rightarrow> out = c"
proof -
  let ?j = "AList.update ''name'' (JStr modelID) j"
  have nn: "x_parse X c \<noteq> Some JNull" using assms(5,6) by (auto simp: unmarshal_map_def gm_get_def)
  have m: "as_map (gm_get ?j ''parameters'') = Some p" using assms(6) by (simp add: gm_get_update)
  note rw = rewrite_uri_string [OF m assms(7), of X "path_str d" s]
  show ?thesis
  proof (cases "x_securejoin X (files s) (path_str d) u")
    case (Ok q)
    let ?p = "AList.update ''uri'' (JStr q) p"
    let ?j' = "AList.update ''parameters'' (JObj ?p) ?j"
    from assms(1-4) Ok obtain cs where cs: "q = path_str (d @ cs)" "list_all plain_name cs" "no_links (files s) (d @ cs)"
      unfolding securejoin_scoped_def by blast
    from assms(8) nn rw Ok obtain j' where j': "with_schema X sp ?j' s = (Ok j', s')" "out = ind (JObj j')"
      by (auto simp: processConfigJSON_def assms(5) andThen_def split: prod.splits res.splits)
    have g: "gm_get j' k = gm_get ?j' k" if "sp = [] \<or> (k \<noteq> ''inputs'' \<and> k \<noteq> ''outputs'')" for k using with_schema_get [OF j'(1) that] .
    have n: "gm_get j' ''name'' = JStr modelID" "gm_get j' ''parameters'' = JObj ?p" by (simp_all add: g gm_get_update)
    have p: "gm_get ?p ''uri'' = JStr (path_str (d @ cs))" "k = ''uri'' \<or> gm_get ?p k = gm_get p k" for k using cs(1) by (simp_all add: gm_get_update)
    have k: "k \<in> {''name'', ''parameters''} \<or> (sp \<noteq> [] \<and> k \<in> {''inputs'', ''outputs''}) \<or> gm_get j' k = gm_get j k" for k
      by (cases "sp = [] \<or> (k \<noteq> ''inputs'' \<and> k \<noteq> ''outputs'')") (auto simp: gm_get_update g)
    show ?thesis unfolding Ok res.case
      by (intro exI [of _ j'] exI [of _ ?p] exI [of _ cs] conjI allI) (fact j'(2) n p cs k)+
  qed (use assms(5,8) nn rw in \<open>simp_all add: processConfigJSON_def andThen_def\<close>)
qed

text \<open>
  The settings file of a model, which its author writes, can end the adapter: the code asserts the types of \<open>parameters\<close> and of its \<open>uri\<close>
  without a test, and assigns to the nil map that the text \<open>null\<close> gives.
\<close>

definition panicking_settings :: "ext \<Rightarrow> string \<Rightarrow> bool" where
  "panicking_settings X c \<longleftrightarrow> (case unmarshal_map X c of
     None \<Rightarrow> False
   | Some j \<Rightarrow> x_parse X c = Some JNull \<or> (gm_get j ''parameters'' \<noteq> JNull \<and> (case as_map (gm_get j ''parameters'') of
         None \<Rightarrow> True
       | Some p \<Rightarrow> gm_get p ''uri'' \<noteq> JNull \<and> as_string (gm_get p ''uri'') = None)))"

lemma syscall_no_panic: "fst (syscall p f s) \<noteq> Panic m"
  by (simp add: syscall_def Let_def split: option.split sum.split)

lemma with_schema_no_panic: "fst (with_schema X sp j s) \<noteq> Panic m"
proof -
  have "fst (schema_NewFromFile X sp s) \<noteq> Panic m" for m
    using syscall_no_panic [of sp _ s]
    by (auto simp: schema_NewFromFile_def os_ReadFile_def andThen_def on_err_Panic_iff split: prod.splits res.splits option.splits)
  then show ?thesis by (auto simp: with_schema_def andThen_def on_err_Panic_iff split: prod.splits res.splits)
qed

lemma mlserver_settings_panic:
  assumes "\<And>t a b m. x_securejoin X t a b \<noteq> Panic m"
  shows "(\<exists>m. fst (processConfigJSON X ind c modelID d sp s) = Panic m) \<longleftrightarrow> panicking_settings X c"
proof (cases "unmarshal_map X c")
  case None
  then show ?thesis by (simp add: processConfigJSON_def panicking_settings_def)
next
  case (Some j)
  let ?j = "AList.update ''name'' (JStr modelID) j"
  have ws: "fst (andThen (with_schema X sp j') (\<lambda>j''. ret (ind (JObj j''))) s) \<noteq> Panic m" for j' m
    using with_schema_no_panic [of X sp j' s] by (cases "with_schema X sp j' s"; cases "fst (with_schema X sp j' s)") (auto simp: andThen_def)
  have rest: "fst ((case r of None \<Rightarrow> ret c | Some j' \<Rightarrow> andThen (with_schema X sp j') (\<lambda>j''. ret (ind (JObj j'')))) s) \<noteq> Panic m" for r m
    using ws by (cases r) simp_all
  show ?thesis
  proof (cases "panicking_settings X c")
    case True
    then show ?thesis using Some
      by (auto simp: panicking_settings_def processConfigJSON_def rewrite_uri_def gm_get_update andThen_def split: option.splits)
  next
    case False
    have "\<exists>r. rewrite_uri X d ?j s = (Ok r, s)"
      using False Some assms by (auto simp: panicking_settings_def rewrite_uri_def gm_get_update andThen_def attempt_def SecureJoin_def
          SecureJoin_at_def split: option.splits res.splits)
    then obtain r where r: "rewrite_uri X d ?j s = (Ok r, s)" by blast
    have "x_parse X c \<noteq> Some JNull" using False Some by (simp add: panicking_settings_def)
    then show ?thesis using False Some rest
      by (simp add: processConfigJSON_def andThen_eval(1) [where m = "rewrite_uri X d ?j", OF r])
  qed
qed

section \<open>Start-up\<close>

definition mlserver_behind_puller :: "MLServerAdapterServer \<Rightarrow> MLServerAdapterServer" where
  "mlserver_behind_puller S = S\<lparr>ma_config := (ma_config S)\<lparr>ac_RootModelDir := path_str [''models'', mlserverModelSubdir], ac_UseEmbeddedPuller := False\<rparr>\<rparr>"

lemma mlserver_behind_puller_sel [simp]:
  "ma_ext (mlserver_behind_puller S) = ma_ext S" "ac_RootModelDir (ma_config (mlserver_behind_puller S)) = path_str [''models'', mlserverModelSubdir]"
  "\<not> ac_UseEmbeddedPuller (ma_config (mlserver_behind_puller S))" "ma_Client (mlserver_behind_puller S) = ma_Client S"
  by (simp_all add: mlserver_behind_puller_def)

lemma mlserver_subdir_plain: "list_all plain_name [''models'', mlserverModelSubdir]" "purge_excluded mlserverModelSubdir"
  by (simp_all add: plain_name_def mlserverModelSubdir_def purge_excluded_def PurgeExcludePrefixes_def has_prefix_def)

lemma mlserver_status_runs:
  assumes "client_works (ma_Client S) loaded version" "quiet s"
    and "\<And>u. files u = files s \<Longrightarrow> quiet u \<Longrightarrow> runs (clear_model_dirs (ma_config S) (ma_puller S) mlserverModelSubdir) u () t"
  shows "runs (andThen (mlserver_RuntimeStatus S) (\<lambda>r. ret (fst r))) s (ready_status (with_version (ma_config S) version) mlserver_method_infos) t"
proof -
  from assms obtain u v w x where "rc_ServerReady (ma_Client S) s = (Ok True, u)"
    "andThen (rc_RepositoryIndex (ma_Client S)) (unload_listed (ma_Client S)) u = (Ok (), v)"
    "clear_model_dirs (ma_config S) (ma_puller S) mlserverModelSubdir v = (Ok (), w)"
    "rc_ServerMetadata (ma_Client S) w = (Ok version, x)" "files x = t" "quiet x"
    by (rule client_startup)
  then show ?thesis by (simp add: mlserver_RuntimeStatus_def Let_def runs_def andThen_def attempt_def with_version_def)
qed

lemma mlserver_startup:
  assumes "client_works (ma_Client S) loaded version" "client_readonly (ma_Client S)"
  shows "adapter_startup (ma_ext S) (mlserver_UnloadModel (mlserver_behind_puller S)) [''models''] mlserverModelSubdir
    (andThen (mlserver_RuntimeStatus (mlserver_behind_puller S)) (\<lambda>r. ret (fst r)))
    (ready_status (with_version (ma_config (mlserver_behind_puller S)) version) mlserver_method_infos) (\<lambda>m. m) (\<lambda>x. True)"
proof (rule adapter_startupI)
  let ?S = "mlserver_behind_puller S"
  show "mlserver_UnloadModel ?S m = andThen (unload_tolerant (mlserver_unknown (ma_ext S))
      (\<lambda>e. status_Errorf (x_code (ma_ext S) e) ''Failed to unload model from MLServer'' None) (rc_ModelUnload (ma_Client S) m))
      (\<lambda>_. andThen (remove_model_dir (ma_ext S) (ma_config ?S) m) (\<lambda>_. embedded_cleanup (ma_ext S) (ma_config ?S) (ma_puller ?S) m))" for m
    by (simp add: mlserver_UnloadModel_def Let_def)
  show "runs (andThen (mlserver_RuntimeStatus ?S) (\<lambda>r. ret (fst r))) s (ready_status (with_version (ma_config ?S) version) mlserver_method_infos) t"
    if "quiet s" "\<And>u. files u = files s \<Longrightarrow> quiet u \<Longrightarrow> runs (clear_model_dirs (ma_config ?S) (ma_puller ?S) mlserverModelSubdir) u () t" for s t
    using mlserver_status_runs [of ?S loaded version s t] assms that by simp
qed (use assms mlserver_subdir_plain client_readonly_files in \<open>simp_all add: ready_status_def client_works_def\<close>)

section \<open>The theorems at work\<close>

text \<open>Every text is one settings file, and its printed form is the URI in it.\<close>

definition demo_settings_ext :: ext where
  "demo_settings_ext = demo_ext\<lparr>x_parse := (\<lambda>s. Some (JObj [(''parameters'', JObj [(''uri'', JStr ''model.bin'')])]))\<rparr>"

definition demo_indent :: "json \<Rightarrow> string" where
  "demo_indent v = (case as_map v of None \<Rightarrow> [] | Some m \<Rightarrow> (case as_map (gm_get m ''parameters'') of None \<Rightarrow> []
     | Some p \<Rightarrow> (case as_string (gm_get p ''uri'') of None \<Rightarrow> [] | Some u \<Rightarrow> u)))"

theorem mlserver_settings_witness:
  "\<exists>cs. fst (processConfigJSON demo_settings_ext demo_indent ''x'' ''m'' (path_str [''models'', ''m'']) [] (demo_os [])) =
     Ok (path_str ([''models'', ''m''] @ cs))"
proof -
  let ?r = "processConfigJSON demo_settings_ext demo_indent ''x'' ''m'' (path_str [''models'', ''m'']) [] (demo_os [])"
  have "fst ?r = Ok ''/models/m/model.bin''" by code_simp
  then have r: "?r = (Ok ''/models/m/model.bin'', snd ?r)" by (simp add: prod_eq_iff)
  have j: "x_securejoin demo_settings_ext (files (demo_os [])) (path_str [''models'', ''m'']) ''model.bin'' = Ok ''/models/m/model.bin''" by code_simp
  have s: "securejoin_scoped demo_settings_ext" by (rule demo_securejoin_scoped) (simp add: demo_settings_ext_def)
  have "list_all plain_name [''models'', ''m'']" "no_links (files (demo_os [])) [''models'', ''m'']"
    by (simp_all add: plain_name_def no_links_def demo_os_def get_def)
  moreover have "unmarshal_map demo_settings_ext ''x'' = Some [(''parameters'', JObj [(''uri'', JStr ''model.bin'')])]" by code_simp
  ultimately obtain j' p' cs where "''/models/m/model.bin'' = demo_indent (JObj j')" "gm_get j' ''parameters'' = JObj p'"
      "gm_get p' ''uri'' = JStr (path_str ([''models'', ''m''] @ cs))"
    using mlserver_settings [OF s _ _ _ _ _ _ r, of "[(''parameters'', JObj [(''uri'', JStr ''model.bin'')])]" "[(''uri'', JStr ''model.bin'')]"
        "''model.bin''"] j by (auto simp: gm_get_def)
  then have "''/models/m/model.bin'' = path_str ([''models'', ''m''] @ cs)" by (simp add: demo_indent_def)
  then show ?thesis using r by (metis fst_conv)
qed

end
