(* ===== verification/TorchserveAdapter.thy ===== *)
theory TorchserveAdapter
  imports AdapterBase
begin

text \<open>
  \<open>model-mesh-torchserve-adapter/server\<close>: \<open>server.go\<close> and \<open>config.go\<close>. TorchServe is outside the repository: its management and inference
  services are a record of steps, one per remote call, and their answers are JSON texts that the adapter decodes into structs.
\<close>

section \<open>config.go\<close>

definition torchServeModelStoreDirName :: string where
  "torchServeModelStoreDirName = ''_torchserve_models''"

text \<open>\<open>ac_RootModelDir\<close> is \<open>ModelStoreDir\<close> here.\<close>

record TorchServeConfiguration = AdapterConfiguration +
  tc_InferenceEndpoint :: string
  tc_RequestBatchSize :: int
  tc_MaxBatchDelaySecs :: int

definition torchserve_constants :: adapter_constants where
  "torchserve_constants =
     \<lparr>k_adapterPort = (''ADAPTER_PORT'', 8085), k_runtimePort = (''RUNTIME_PORT'', 7071),
      k_ContainerMemReqBytes = (''CONTAINER_MEM_REQ_BYTES'', - 1), k_MemBufferBytes = (''MEM_BUFFER_BYTES'', 256 * 1024 * 1024),
      k_maxLoadingConcurrency = (''LOADING_CONCURRENCY'', 1), k_maxLoadingTimeoutMs = (''LOADTIME_TIMEOUT'', 30000),
      k_defaultModelSize = (''DEFAULT_MODELSIZE'', 1000000), k_modelSizeMultiplier = (''MODELSIZE_MULTIPLIER'', Fin 11 (- 2)),
      k_runtimeVersion = (''RUNTIME_VERSION'', ''v1''), k_limitPerModelConcurrency = (''LIMIT_PER_MODEL_CONCURRENCY'', 0),
      k_rootModelDir = (''ROOT_MODEL_DIR'', ''/models''), k_useEmbeddedPuller = (''USE_EMBEDDED_PULLER'', False)\<rparr>"

definition torchserve_GetAdapterConfigurationFromEnv :: "ext \<Rightarrow> env \<Rightarrow> (os, TorchServeConfiguration) step" where
  "torchserve_GetAdapterConfigurationFromEnv X E =
     andThen (lift_res (read_adapter_env X E torchserve_constants)) (\<lambda>c.
     andThen (wrapErr (ErrWrap ''Could not construct torchserve model store path: %w'' [])
       (SecureJoin X [case_prod (GetEnvString E) (k_rootModelDir torchserve_constants), torchServeModelStoreDirName])) (\<lambda>dir.
     andThen (lift_res (GetEnvInt32 E ''REQUEST_BATCH_SIZE'' 0)) (\<lambda>batchSize.
     andThen (lift_res (GetEnvInt32 E ''MAX_BATCH_DELAY_SECS'' 0)) (\<lambda>batchDelay.
     lift_res (check_adapter_config (AdapterConfiguration.extend (c\<lparr>ac_RootModelDir := dir\<rparr>)
       (TorchServeConfiguration.fields (GetEnvString E ''RUNTIME_DATA_ENDPOINT'' ''port:7070'') batchSize batchDelay)))))))"

section \<open>TorchServe as the adapter sees it\<close>

datatype conn_state = Idle | Connecting | Connected | TransientFailure | Shutdown

record RegisterModelRequest =
  rr_ModelName :: string
  rr_Url :: string
  rr_InitialWorkers :: int
  rr_BatchSize :: int
  rr_MaxBatchDelay :: int

text \<open>
  \<open>ts_GetState\<close> is the state of the management connection, \<open>ts_Dial\<close> connects to the inference endpoint within a minute. \<open>ts_Wait\<close> waits
  one second; its error is the one of the context when the call ends before.
\<close>

record torchserve_client =
  ts_GetState :: "(os, conn_state) step"
  ts_Dial :: "string \<Rightarrow> (os, unit) step"
  ts_Ping :: "(os, string) step"
  ts_RegisterModel :: "RegisterModelRequest \<Rightarrow> (os, unit) step"
  ts_UnregisterModel :: "string \<Rightarrow> (os, unit) step"
  ts_ListModels :: "int \<Rightarrow> (os, string) step"
  ts_DescribeModel :: "string \<Rightarrow> (os, string) step"
  ts_Wait :: "(os, unit) step"

text \<open>
  The server; \<open>sa_connected\<close> says that there is an inference client. \<open>sa_pages\<close> bounds the pages of a listing of models that the model
  follows: the code has no bound.
\<close>

record TorchServeAdapterServer =
  sa_ext :: ext
  sa_Client :: torchserve_client
  sa_config :: TorchServeConfiguration
  sa_puller :: EmbeddedPuller
  sa_InferenceEndpoint :: string
  sa_connected :: bool
  sa_pages :: nat

section \<open>The model store\<close>

definition configFileName :: string where
  "configFileName = ''mmconfig.properties''"

definition configFileContents :: "string \<Rightarrow> string" where
  "configFileContents modelStoreDir = join_with (CHR 0x0A)
     [[], ''enable_envvars_config=true'', ''model_store='' @ modelStoreDir, ''metric_time_interval=10'',
      ''# The REST inference_address is set to use a different port'',
      ''# than its default 8080 which clashes with that used for modelmesh internal litelinks communication'',
      ''inference_address=http://127.0.0.1:8083'',
      ''# Recommended performance defaults - TBC, can be overriden by TC_ env vars'',
      ''number_of_netty_threads=8'', ''job_queue_size=512'', []]"

text \<open>The file is written under another name and moved, as TorchServe waits for it to appear.\<close>

definition setupModelStoreDirAndConfigFile :: "'a AdapterConfiguration_scheme \<Rightarrow> (os, unit) step" where
  "setupModelStoreDirAndConfigFile c =
     (let modelStoreDir = ac_RootModelDir c;
          configFilePath = path_Join [modelStoreDir, configFileName];
          configFileTempPath = configFilePath @ ''.tmp''
      in andThen (wrapErr (ErrWrap ''failed to create model store directory %s: %w'' [modelStoreDir]) (os_MkdirAll modelStoreDir)) (\<lambda>_.
         andThen (wrapErr (ErrWrap ''failed to write config file %s: %w'' [configFileTempPath])
           (os_WriteFile configFileTempPath (configFileContents modelStoreDir) 436)) (\<lambda>_.
         wrapErr (ErrWrap ''failed to rename config file %s to %s: %w'' [configFileTempPath, configFilePath])
           (os_Rename configFileTempPath configFilePath))))"

text \<open>The name of the link of a model: a backslash is doubled, and a slash becomes a backslash and an underscore.\<close>

definition backslash :: char where
  "backslash = CHR 0x5C"

definition marFileName :: "string \<Rightarrow> string" where
  "marFileName modelId = replace_all slash [backslash, CHR ''_''] (replace_all backslash [backslash, backslash] modelId) @ ''.mar''"

definition targetPathForModelId :: "string \<Rightarrow> string \<Rightarrow> string \<times> string" where
  "targetPathForModelId modelId storeDir = (path_Join [storeDir, marFileName modelId], marFileName modelId)"

text \<open>An error of the removal is ignored.\<close>

definition clearModelLink :: "string \<Rightarrow> (os, unit) step" where
  "clearModelLink targetPath = andThen (attempt (os_RemoveAll targetPath)) (\<lambda>_. ret ())"

definition linkModelFile :: "string \<Rightarrow> string \<Rightarrow> string \<Rightarrow> (os, string) step" where
  "linkModelFile modelPath modelId storeDir =
     andThen (wrapErr (ErrWrap ''Error calling stat on %s: %w'' [modelPath]) (os_Stat modelPath)) (\<lambda>modelPathInfo.
     if fi_dir modelPathInfo then fail_with (ErrMsg ''Model path is a directory, must be a MAR file: %s'' [modelPath])
     else let (targetPath, marFileName) = targetPathForModelId modelId storeDir
          in andThen (wrapErr (ErrWrap ''Error clearing path for model symlink: %w'' []) (clearModelLink targetPath)) (\<lambda>_.
             andThen (wrapErr (ErrWrap ''Error creating symlink: %w'' []) (os_Symlink modelPath targetPath)) (\<lambda>_.
             ret marFileName)))"

section \<open>Loading and unloading\<close>

text \<open>\<open>os.Exit(1)\<close> when the store cannot be set up, the endpoint is invalid or TorchServe cannot be dialled.\<close>

definition NewTorchServeAdapterServer ::
  "ext \<Rightarrow> torchserve_client res \<Rightarrow> EmbeddedPuller \<Rightarrow> nat \<Rightarrow> TorchServeConfiguration \<Rightarrow> (os, TorchServeAdapterServer) step" where
  "NewTorchServeAdapterServer X dial P pages c =
     andThen (attempt (setupModelStoreDirAndConfigFile c)) (\<lambda>r.
     if \<not> is_ok r then lift_res os_Exit
     else (case (ResolveLocalGrpcEndpoint (tc_InferenceEndpoint c), dial) of
         (Ok endpoint, Ok client) \<Rightarrow> ret \<lparr>sa_ext = X, sa_Client = client, sa_config = c, sa_puller = P, sa_InferenceEndpoint = endpoint,
             sa_connected = False, sa_pages = pages\<rparr>
       | _ \<Rightarrow> lift_res os_Exit))"

text \<open>The workers of a model: the configured limit as an \<open>int32\<close>, at least one.\<close>

definition workerCount :: "'a AdapterConfiguration_scheme \<Rightarrow> int" where
  "workerCount c = (let n = sint (word_of_int (ac_LimitModelConcurrency c) :: 32 word) in if n \<le> 0 then 1 else n)"

text \<open>The path of a schema is looked up for a log message only, and an error of the lookup is ignored.\<close>

definition torchserve_LoadModel :: "TorchServeAdapterServer \<Rightarrow> LoadModelRequest \<Rightarrow> (os, LoadModelResponse) step" where
  "torchserve_LoadModel S req0 =
     (let X = sa_ext S; c = sa_config S
      in andThen (embedded_load X c (sa_puller S) req0) (\<lambda>req.
         andThen (linkModelFile (ModelPath req) (ModelId req) (ac_RootModelDir c)) (\<lambda>marFileName.
         andThen (wrapErr (\<lambda>e. status_Errorf (x_code X e) ''Failed to load model due to TorchServe register error: %v'' (Some e))
           (ts_RegisterModel (sa_Client S) \<lparr>rr_ModelName = ModelId req, rr_Url = marFileName, rr_InitialWorkers = workerCount c,
              rr_BatchSize = tc_RequestBatchSize c, rr_MaxBatchDelay = tc_MaxBatchDelaySecs c\<rparr>)) (\<lambda>_.
         ret \<lparr>SizeInBytes = 0, MaxConcurrency = word_of_int (ac_LimitModelConcurrency c)\<rparr>))))"

text \<open>The error branch after \<open>clearModelLink\<close>, which returns none, is left out.\<close>

definition torchserve_UnloadModel :: "TorchServeAdapterServer \<Rightarrow> string \<Rightarrow> (os, unit) step" where
  "torchserve_UnloadModel S modelId =
     (let X = sa_ext S; c = sa_config S
      in andThen (unload_tolerant (is_NotFound X) (\<lambda>e. status_Errorf (x_code X e) ''Failed to unload model from TorchServe'' None)
           (ts_UnregisterModel (sa_Client S) modelId)) (\<lambda>_.
         andThen (clearModelLink (fst (targetPathForModelId modelId (ac_RootModelDir c)))) (\<lambda>_.
         embedded_cleanup X c (sa_puller S) modelId)))"

section \<open>The size of a model\<close>

text \<open>The memory usage of a worker, and the workers of a description of a model.\<close>

fun dec_worker :: "json \<Rightarrow> int option" where
  "dec_worker JNull = Some 0"
| "dec_worker (JObj m) = dec_int64 (field m ''MemoryUsage'')"
| "dec_worker v = None"

fun dec_modelDesc :: "json \<Rightarrow> int list option" where
  "dec_modelDesc JNull = Some []"
| "dec_modelDesc (JObj m) = (case dec_slice dec_worker (field m ''Workers'') of
     None \<Rightarrow> None | Some None \<Rightarrow> Some [] | Some (Some ws) \<Rightarrow> Some ws)"
| "dec_modelDesc v = None"

text \<open>The loop over the workers stops at the first that reports nothing.\<close>

fun worker_memory :: "64 word \<Rightarrow> int list \<Rightarrow> 64 word" where
  "worker_memory memUsage [] = memUsage"
| "worker_memory memUsage (w # ws) = (if w \<le> 0 then memUsage else worker_memory (memUsage + word_of_int w) ws)"

definition described_memory :: "ext \<Rightarrow> string \<Rightarrow> 64 word res" where
  "described_memory X msg =
     (case Option.bind (x_parse X msg) (dec_slice dec_modelDesc) of
        None \<Rightarrow> Err (ErrMsg ''Failed to parse DescribeModel response: %w: %s'' [msg])
      | Some (Some (ws # descs)) \<Rightarrow>
          if ws = [] then Err (ErrMsg ''DescribeModel response contained no model worker entries'' [])
          else Ok (worker_memory 0 ws)
      | _ \<Rightarrow> Err (ErrMsg ''DescribeModel response contained no model entries'' []))"

text \<open>The loop, with the number of attempts after this one. The response is the one of the call before the loop.\<close>

fun memory_attempts :: "ext \<Rightarrow> torchserve_client \<Rightarrow> string \<Rightarrow> nat \<Rightarrow> (os, 64 word) step" where
  "memory_attempts X C msg 0 =
     andThen (lift_res (described_memory X msg)) (\<lambda>memUsage.
     if memUsage > 0 then ret memUsage
     else fail_with (ErrMsg ''No worker memory usage reported in DescribeModel responses'' []))"
| "memory_attempts X C msg (Suc n) =
     andThen (lift_res (described_memory X msg)) (\<lambda>memUsage.
     if memUsage > 0 then ret memUsage
     else andThen (ts_Wait C) (\<lambda>_. memory_attempts X C msg n))"

definition modelSizeFromTorchServe :: "ext \<Rightarrow> torchserve_client \<Rightarrow> string \<Rightarrow> (os, 64 word) step" where
  "modelSizeFromTorchServe X C modelId =
     andThen (wrapErr (ErrWrap ''Failed to describe registered model: %w'' []) (ts_DescribeModel C modelId)) (\<lambda>msg.
     andThen (memory_attempts X C msg 16) (\<lambda>memUsage.
     ret (memUsage + memUsage div 10)))"

definition modelSizeFromDisk :: "TorchServeAdapterServer \<Rightarrow> string \<Rightarrow> (os, 64 word) step" where
  "modelSizeFromDisk S modelId =
     (let c = sa_config S; modelPath = fst (targetPathForModelId modelId (ac_RootModelDir c))
      in andThen (wrapErr (ErrWrap ''Failed to determine size of model file on disk: %s: %w'' [modelPath]) (os_Stat modelPath)) (\<lambda>fi.
         ret (u64_of_f64 (x_oob (sa_ext S)) (f64_of_int (int (fi_size fi)) * ac_ModelSizeMultiplier c))))"

definition torchserve_ModelSize :: "TorchServeAdapterServer \<Rightarrow> string \<Rightarrow> (os, 64 word) step" where
  "torchserve_ModelSize S modelId =
     andThen (attempt (modelSizeFromTorchServe (sa_ext S) (sa_Client S) modelId)) (\<lambda>r. case r of
       Ok usage \<Rightarrow> ret usage
     | _ \<Rightarrow> modelSizeFromDisk S modelId)"

section \<open>The status\<close>

fun dec_modelEntry :: "json \<Rightarrow> string option" where
  "dec_modelEntry JNull = Some []"
| "dec_modelEntry (JObj m) = dec_string (field m ''ModelName'')"
| "dec_modelEntry v = None"

fun dec_int32 :: "json \<Rightarrow> int option" where
  "dec_int32 JNull = Some 0"
| "dec_int32 (JNum (NInt i)) = (if - (2 ^ 31) \<le> i \<and> i < 2 ^ 31 then Some i else None)"
| "dec_int32 v = None"

text \<open>A page of the list of models: their names, and the token of the next page, 0 on the last one.\<close>

fun dec_modelListResp :: "json \<Rightarrow> (string list \<times> int) option" where
  "dec_modelListResp JNull = Some ([], 0)"
| "dec_modelListResp (JObj m) =
     (case (dec_slice dec_modelEntry (field m ''Models''), dec_int32 (field m ''NextPageToken'')) of
        (Some ms, Some token) \<Rightarrow> Some (case ms of None \<Rightarrow> [] | Some names \<Rightarrow> names, token)
      | _ \<Rightarrow> None)"
| "dec_modelListResp v = None"

fun list_models :: "ext \<Rightarrow> torchserve_client \<Rightarrow> nat \<Rightarrow> int \<Rightarrow> string list list \<Rightarrow> (os, string list list) step" where
  "list_models X C 0 token modelList = lift_res (Panic ''did not return'')"
| "list_models X C (Suc fuel) token modelList =
     andThen (ts_ListModels C token) (\<lambda>msg.
     case Option.bind (x_parse X msg) dec_modelListResp of
       None \<Rightarrow> fail_with (ErrMsg ''Failed to parse ModelList response'' [msg])
     | Some (models, next) \<Rightarrow>
         if next = 0 then ret (modelList @ [models]) else list_models X C fuel next (modelList @ [models]))"

fun unregister_models :: "torchserve_client \<Rightarrow> string list \<Rightarrow> (os, unit) step" where
  "unregister_models C [] = ret ()"
| "unregister_models C (model # models) = andThen (ts_UnregisterModel C model) (\<lambda>_. unregister_models C models)"

definition unregisterAllModels :: "ext \<Rightarrow> torchserve_client \<Rightarrow> nat \<Rightarrow> (os, unit) step" where
  "unregisterAllModels X C pages =
     andThen (list_models X C pages 0 []) (\<lambda>modelList. unregister_models C (concat modelList))"

text \<open>A health text is decoded into a struct with one field.\<close>

fun dec_healthStatus :: "json \<Rightarrow> string option" where
  "dec_healthStatus JNull = Some []"
| "dec_healthStatus (JObj m) = dec_string (field m ''Status'')"
| "dec_healthStatus v = None"

definition torchserve_method_infos :: "(string \<times> nat list) list" where
  "torchserve_method_infos = [(''org.pytorch.serve.grpc.inference.InferenceAPIsService/Predictions'', [1]),
     (''inference.GRPCInferenceService/ModelInfer'', [1]), (''inference.GRPCInferenceService/ModelMetadata'', [1])]"

definition is_mar :: "string \<Rightarrow> bool" where
  "is_mar name \<longleftrightarrow> has_suffix name ''.mar''"

text \<open>The links are removed, and the files of an embedded puller; an error is reported as FAILING.\<close>

definition clear_model_links :: "'a AdapterConfiguration_scheme \<Rightarrow> EmbeddedPuller \<Rightarrow> (os, unit) step" where
  "clear_model_links c P =
     andThen (ClearDirectoryContents (ac_RootModelDir c) (Some (\<lambda>f. is_mar (fi_name f)))) (\<lambda>_.
     if ac_UseEmbeddedPuller c then ClearLocalModelStorage (ep_config P) torchServeModelStoreDirName else ret ())"

text \<open>The inference client, connected when there is none.\<close>

definition torchserve_connect :: "TorchServeAdapterServer \<Rightarrow> (os, unit) step" where
  "torchserve_connect S = (if sa_connected S then ret () else ts_Dial (sa_Client S) (sa_InferenceEndpoint S))"

text \<open>What follows once there is an inference client, in the server that has it.\<close>

definition torchserve_status_connected :: "TorchServeAdapterServer \<Rightarrow> (os, RuntimeStatusResponse \<times> TorchServeAdapterServer) step" where
  "torchserve_status_connected S =
     (let X = sa_ext S; C = sa_Client S; c = sa_config S; starting = ret (status_only STARTING, S)
      in andThen (attempt (ts_Ping C)) (\<lambda>ping. case ping of
         Ok health \<Rightarrow>
           if Option.bind (x_parse X health) dec_healthStatus \<noteq> Some ''Healthy'' then starting
           else andThen (attempt (unregisterAllModels X C (sa_pages S))) (\<lambda>unregistered.
             if \<not> is_ok unregistered then starting
             else andThen (attempt (clear_model_links c (sa_puller S))) (\<lambda>cleared. case cleared of
                 Err e \<Rightarrow> ret (status_only FAILING, S)
               | _ \<Rightarrow> ret (ready_status c torchserve_method_infos, S\<lparr>sa_connected := False\<rparr>)))
       | _ \<Rightarrow> starting))"

definition torchserve_RuntimeStatus :: "TorchServeAdapterServer \<Rightarrow> (os, RuntimeStatusResponse \<times> TorchServeAdapterServer) step" where
  "torchserve_RuntimeStatus S =
     andThen (ts_GetState (sa_Client S)) (\<lambda>state.
     if state \<noteq> Idle \<and> state \<noteq> Connected then ret (status_only STARTING, S)
     else andThen (attempt (torchserve_connect S)) (\<lambda>conn.
          if is_ok conn then torchserve_status_connected (S\<lparr>sa_connected := True\<rparr>) else ret (status_only STARTING, S)))"

end
