(* ===== verification/TorchserveProps.thy ===== *)
theory TorchserveProps
  imports TorchserveAdapter AdapterStartup
begin

text \<open>
  The TorchServe adapter: the names of its links, what a load and an unload touch, the size of a model, the listing of the
  models, and the start of a model server.
\<close>

section \<open>The names of the links\<close>

definition encode_char :: "char \<Rightarrow> string" where
  "encode_char c = (if c = backslash then [backslash, backslash] else if c = slash then [backslash, CHR ''_''] else [c])"

lemma replace_all_append: "replace_all c new (xs @ ys) = replace_all c new xs @ replace_all c new ys"
  by (simp add: replace_all_def)

lemma marFileName_encodes: "marFileName m = concat (map encode_char m) @ ''.mar''"
proof -
  have "replace_all slash [backslash, CHR ''_''] (replace_all backslash [backslash, backslash] m) = concat (map encode_char m)"
    by (induction m) (auto simp: replace_all_def encode_char_def backslash_def)
  then show ?thesis by (simp add: marFileName_def)
qed

text \<open>The model id that a name stands for.\<close>

fun decode_chars :: "string \<Rightarrow> string" where
  "decode_chars (c # d # cs) =
     (if c = backslash then (if d = CHR ''_'' then slash else d) # decode_chars cs else c # decode_chars (d # cs))"
| "decode_chars cs = cs"

definition modelIdForMarFile :: "string \<Rightarrow> string" where
  "modelIdForMarFile name = decode_chars (take (length name - 4) name)"

lemma decode_cons: "c \<noteq> backslash \<Longrightarrow> decode_chars (c # cs) = c # decode_chars cs"
  by (cases cs) simp_all

lemma decode_encoded: "decode_chars (concat (map encode_char m)) = m"
  by (induction m) (auto simp: encode_char_def decode_cons backslash_def)

lemma modelIdForMarFile_name: "modelIdForMarFile (marFileName m) = m"
  by (simp add: modelIdForMarFile_def marFileName_encodes decode_encoded)

lemma marFileName_plain: "plain_name (marFileName m)"
proof -
  have "slash \<notin> set (concat (map encode_char m))" by (auto simp: encode_char_def backslash_def)
  moreover have "length (marFileName m) \<ge> 4" by (simp add: marFileName_encodes)
  moreover have "length ''..'' = 2" "length ''.'' = 1" by simp_all
  ultimately show ?thesis unfolding plain_name_def
    by (auto simp: marFileName_encodes)
qed

lemma marFileName_is_mar: "is_mar (marFileName m)"
  by (auto simp: is_mar_def has_suffix_iff marFileName_encodes)

text \<open>
  C25: The link of a model in TorchServe's store has a name of its own: the name is a plain file name with the suffix that the clean-up at
  start-up looks for, whatever the model's id, the id can be read back from it, and so two models never share a link.
\<close>

theorem mar_file_names:
  "plain_name (marFileName m) \<and> is_mar (marFileName m) \<and> modelIdForMarFile (marFileName m) = m \<and>
     (marFileName m = marFileName m' \<longleftrightarrow> m = m')"
  using marFileName_plain marFileName_is_mar modelIdForMarFile_name by metis

section \<open>What a load and an unload touch\<close>

lemma walk_last:
  "no_links t (cur @ cs) \<Longrightarrow> ''..'' \<notin> set cs \<Longrightarrow> x \<noteq> ''..'' \<Longrightarrow> walk n t False cur (cs @ [x]) = Inr r \<Longrightarrow> r = cur @ cs @ [x]"
proof (induction cs arbitrary: cur)
  case Nil
  then show ?case by (auto split: if_splits option.splits node.splits)
next
  case (Cons c cs)
  have "get t (cur @ [c]) \<noteq> Some (Link l)" for l using no_links_nth Cons.prems(1) by blast
  then have "walk n t False (cur @ [c]) (cs @ [x]) = Inr r" using Cons.prems by (auto split: if_splits option.splits node.splits)
  then show ?case using Cons.IH [of "cur @ [c]"] Cons.prems by simp
qed

lemma resolve_entry_below:
  assumes "no_links t p" "list_all plain_name (p @ [x])" "resolve t False (path_str (p @ [x])) = Inr r"
  shows "r = p @ [x]"
  using walk_last [of t "[]" p x maxlinks r] assms plain_no_dotdot [OF assms(2)]
  by (auto simp: resolve_def comps_path_str)

lemma targetPath_str: "list_all plain_name root \<Longrightarrow> root \<noteq> [] \<Longrightarrow> targetPathForModelId m (path_str root) = (path_str (root @ [marFileName m]), marFileName m)"
  using path_Join_path_str [of root "marFileName m"] marFileName_plain by (simp add: targetPathForModelId_def)

lemma clearModelLink_below:
  assumes "no_links (files s) root" "list_all plain_name (root @ [x])"
  shows "removed_below (root @ [x]) (files s) (files (snd (clearModelLink (path_str (root @ [x])) s)))"
  using prune_removed_below
  by (auto simp: clearModelLink_def andThen_def attempt_def os_RemoveAll_def syscall_def Let_def
      split: option.splits sum.splits dest!: resolve_entry_below [OF assms])

lemma put_below: "changed_below (root @ [x]) t (put (root @ [x]) n t)"
  unfolding changed_below_def
proof (intro allI impI)
  fix p assume n: "get (put (root @ [x]) n t) p \<noteq> get t p"
  then have "p = root @ [x]" by (cases "p = []") (auto simp: get_put split: if_splits)
  then show "prefix (root @ [x]) p \<or> (strict_prefix p (root @ [x]) \<and> get t p = None \<and> get (put (root @ [x]) n t) p = Some Dir)" by simp
qed

lemma os_Symlink_entry_below:
  assumes "no_links (files s) root" "list_all plain_name (root @ [x])"
  shows "changed_below (root @ [x]) (files s) (files (snd (os_Symlink old (path_str (root @ [x])) s)))"
  using put_below
  by (auto simp: os_Symlink_def syscall_def Let_def split: option.splits sum.splits dest!: resolve_entry_below [OF assms])

lemma linkModelFile_below:
  assumes "no_links (files s) root" "list_all plain_name root" "root \<noteq> []"
  shows "changed_below (root @ [marFileName m]) (files s) (files (snd (linkModelFile mp m (path_str root) s)))"
proof -
  let ?p = "root @ [marFileName m]"
  have pl: "list_all plain_name ?p" using assms(2) marFileName_plain by simp
  let ?rest = "\<lambda>i. if fi_dir i then fail_with (ErrMsg ''Model path is a directory, must be a MAR file: %s'' [mp])
     else andThen (wrapErr (ErrWrap ''Error clearing path for model symlink: %w'' []) (clearModelLink (path_str ?p))) (\<lambda>_.
       andThen (wrapErr (ErrWrap ''Error creating symlink: %w'' []) (os_Symlink mp (path_str ?p))) (\<lambda>_. ret (marFileName m)))"
  have rest: "changed_below ?p (files u) (files (snd (?rest i u)))" if u: "files u = files s" for i u
  proof -
    obtain r v where v: "clearModelLink (path_str ?p) u = (r, v)" by fastforce
    have rb: "removed_below ?p (files u) (files v)" using clearModelLink_below [of u root "marFileName m"] assms(1) pl v u by simp
    have "no_links (files v) root" using removed_below_no_links [OF rb] assms(1) u by simp
    then have "changed_below ?p (files v) (files (snd (os_Symlink mp (path_str ?p) v)))" by (rule os_Symlink_entry_below [OF _ pl])
    then have sy: "changed_below ?p (files v) (files (snd (andThen (wrapErr (ErrWrap ''Error creating symlink: %w'' []) (os_Symlink mp (path_str ?p)))
        (\<lambda>_. ret (marFileName m)) v)))"
      by (cases "os_Symlink mp (path_str ?p) v"; cases "fst (os_Symlink mp (path_str ?p) v)") (simp_all add: andThen_def)
    have rm: "changed_below ?p (files u) (files v)" by (rule changed_below_removed [OF rb])
    show ?thesis using v rm changed_below_trans [OF rm sy]
      by (cases r) (simp_all add: andThen_def [of "wrapErr _ (clearModelLink _)"])
  qed
  obtain r v where v: "os_Stat mp s = (r, v)" "files v = files s"
    using keepsD [OF keeps_reads(1) [of "\<lambda>t. t = files s"], of s] by (metis prod.collapse)
  show ?thesis
  proof (cases r)
    case (Ok i)
    with v have "os_Stat mp s = (Ok i, v)" by simp
    then have "linkModelFile mp m (path_str root) s = ?rest i v"
      unfolding linkModelFile_def by (subst andThen_wrapErr_Ok) (auto simp: targetPath_str [OF assms(2,3)])
    then show ?thesis using rest [OF v(2), of i] v(2) by (simp only:)
  qed (use v in \<open>simp_all add: linkModelFile_def andThen_def\<close>)
qed

text \<open>
  A load changes nothing outside the store but, when the adapter pulls by itself, the models' root.
\<close>

lemma torchserve_go_below:
  assumes "ac_RootModelDir c = path_str store" "list_all plain_name store" "store \<noteq> []" "no_links (files u) store"
    and "\<And>r Q. keeps (\<lambda>u. Q (files u)) (ts_RegisterModel C r)"
  shows "changed_below (store @ [marFileName mid]) (files u) (files (snd (andThen (linkModelFile mp mid (ac_RootModelDir c)) (\<lambda>f.
    andThen (wrapErr w (ts_RegisterModel C (q f))) (\<lambda>_. ret x)) u)))"
proof (rule keeps_at)
  let ?d = "store @ [marFileName mid]"
  show "changed_below ?d (files u) (files (snd (linkModelFile mp mid (ac_RootModelDir c) u)))"
    unfolding assms(1) by (rule linkModelFile_below [OF assms(4,2,3)])
  show "keeps (\<lambda>v. changed_below ?d (files u) (files v)) (andThen (wrapErr w (ts_RegisterModel C (q f))) (\<lambda>_. ret x))" for f
    by (intro keeps_intro assms(5))
qed

lemma torchserve_load_confined:
  assumes "securejoin_scoped (sa_ext S)" "list_all plain_name (root @ cs)" "root \<noteq> []" "no_links (files s) (root @ cs)"
    and "ac_RootModelDir (sa_config S) = path_str (root @ cs)" "\<And>r Q. keeps (\<lambda>u. Q (files u)) (ts_RegisterModel (sa_Client S) r)"
    and "confined_pull pull" "ep_pull (sa_puller S) = pull (sa_ext S)" "RootModelDir (ep_config (sa_puller S)) = path_str root"
  shows "changed_below (if ac_UseEmbeddedPuller (sa_config S) then root else root @ cs) (files s) (files (snd (torchserve_LoadModel S req s)))"
  unfolding torchserve_LoadModel_def Let_def
  by (rule embedded_load_below [OF _ assms(1-4,7-9)])
    (rule changed_below_mono, rule torchserve_go_below [OF assms(5,2) _ _ assms(6)], use assms(3) in simp_all)

text \<open>TorchServe does not write to the volume.\<close>

definition torchserve_readonly :: "torchserve_client \<Rightarrow> bool" where
  "torchserve_readonly C \<longleftrightarrow> (\<forall>P. (\<forall>m. keeps (\<lambda>s. P (files s)) (ts_UnregisterModel C m)) \<and> (\<forall>r. keeps (\<lambda>s. P (files s)) (ts_RegisterModel C r)) \<and>
     keeps (\<lambda>s. P (files s)) (ts_GetState C) \<and> (\<forall>e. keeps (\<lambda>s. P (files s)) (ts_Dial C e)) \<and> keeps (\<lambda>s. P (files s)) (ts_Ping C) \<and>
     (\<forall>n. keeps (\<lambda>s. P (files s)) (ts_ListModels C n)))"

lemma torchserve_load_own:
  assumes "ac_RootModelDir (sa_config S) = path_str store" "list_all plain_name store" "store \<noteq> []" "no_links (files s) store"
    and "torchserve_readonly (sa_Client S)" "\<not> ac_UseEmbeddedPuller (sa_config S)"
  shows "changed_below (store @ [marFileName (ModelId req)]) (files s) (files (snd (torchserve_LoadModel S req s)))"
proof -
  have "keeps (\<lambda>u. Q (files u)) (ts_RegisterModel (sa_Client S) r)" for r Q using assms(5) by (simp add: torchserve_readonly_def)
  from torchserve_go_below [OF assms(1-4) this] show ?thesis using assms(6) by (simp add: torchserve_LoadModel_def Let_def embedded_load_def)
qed

section \<open>Listing the models\<close>

text \<open>The pages that the listing from a token goes through: each page but the last has a token other than 0.\<close>

fun pages_from :: "ext \<Rightarrow> torchserve_client \<Rightarrow> int \<Rightarrow> (string list \<times> int) list \<Rightarrow> bool" where
  "pages_from X C token [] \<longleftrightarrow> False"
| "pages_from X C token ((models, next) # ps) \<longleftrightarrow>
     (\<forall>s. quiet s \<longrightarrow> (\<exists>msg. runs (ts_ListModels C token) s msg (files s) \<and> Option.bind (x_parse X msg) dec_modelListResp = Some (models, next))) \<and>
     (if next = 0 then ps = [] else pages_from X C next ps)"

lemma list_models_runs:
  "pages_from X C token ps \<Longrightarrow> quiet s \<Longrightarrow> length ps \<le> fuel \<Longrightarrow> runs (list_models X C fuel token acc) s (acc @ map fst ps) (files s)"
proof (induction ps arbitrary: token s fuel acc)
  case Nil
  then show ?case by simp
next
  case (Cons p ps)
  obtain models "next" where p: "p = (models, next)" by fastforce
  obtain fuel' where f: "fuel = Suc fuel'" "length ps \<le> fuel'" using Cons.prems(3) by (cases fuel) auto
  obtain msg where msg: "runs (ts_ListModels C token) s msg (files s)" "Option.bind (x_parse X msg) dec_modelListResp = Some (models, next)"
    using Cons.prems(1,2) by (auto simp: p)
  show ?case unfolding f(1) list_models.simps
  proof (rule runs_andThen [OF msg(1)])
    fix u assume u: "files u = files s" "quiet u"
    show "runs (case Option.bind (x_parse X msg) dec_modelListResp of
        None \<Rightarrow> fail_with (ErrMsg ''Failed to parse ModelList response'' [msg])
      | Some (models, next) \<Rightarrow> if next = 0 then ret (acc @ [models]) else list_models X C fuel' next (acc @ [models])) u (acc @ map fst (p # ps)) (files s)"
    proof (cases "next = 0")
      case True
      then show ?thesis using Cons.prems(1) u by (simp add: msg(2) p runs_def)
    next
      case False
      then show ?thesis using Cons.IH [of "next" u fuel' "acc @ [models]"] Cons.prems(1) u f(2) by (simp add: msg(2) p)
    qed
  qed
qed

text \<open>A service whose every page has a token is followed forever.\<close>

lemma list_models_endless:
  assumes "\<And>token s. \<exists>msg u models next. ts_ListModels C token s = (Ok msg, u) \<and>
    Option.bind (x_parse X msg) dec_modelListResp = Some (models, next) \<and> next \<noteq> 0"
  shows "fst (list_models X C fuel token acc s) = Panic ''did not return''"
proof (induction fuel arbitrary: token acc s)
  case 0
  then show ?case by simp
next
  case (Suc fuel)
  obtain msg u models "next" where "ts_ListModels C token s = (Ok msg, u)"
    "Option.bind (x_parse X msg) dec_modelListResp = Some (models, next)" "next \<noteq> 0" using assms by blast
  then show ?case using Suc by (simp add: andThen_def)
qed

lemma unregister_models_runs:
  assumes "\<And>m s. quiet s \<Longrightarrow> runs (ts_UnregisterModel C m) s () (files s)" "quiet s"
  shows "runs (unregister_models C ms) s () (files s)"
  using assms(2)
proof (induction ms arbitrary: s)
  case Nil
  then show ?case by (simp add: runs_def)
next
  case (Cons m ms)
  show ?case unfolding unregister_models.simps
    by (rule runs_andThen [OF assms(1) [OF Cons.prems]]) (use Cons.IH in \<open>metis\<close>)
qed

text \<open>
  C38: At start-up the adapter unregisters every model of TorchServe: when the pages of the listing end, the loop over them ends, whatever
  number of pages the model of the loop allows beyond theirs, and then the models of all pages are unregistered in their order.
\<close>

theorem listing_ends:
  assumes "pages_from X C 0 ps" "quiet s" "length ps \<le> fuel"
  shows "\<exists>u. unregisterAllModels X C fuel s = unregister_models C (concat (map fst ps)) u \<and> files u = files s \<and> quiet u"
proof -
  obtain u where "list_models X C fuel 0 [] s = (Ok (map fst ps), u)" "files u = files s" "quiet u"
    using list_models_runs [OF assms, of "[]"] by (auto simp: runs_def)
  then show ?thesis by (auto simp: unregisterAllModels_def andThen_def)
qed

section \<open>The size of a model\<close>

lemma worker_memory_sum: "worker_memory m ws = m + word_of_int (sum_list (takeWhile (\<lambda>w. 0 < w) ws))"
  by (induction m ws rule: worker_memory.induct) (simp_all add: algebra_simps)

lemma sum_positive: "0 \<le> sum_list (takeWhile (\<lambda>w. 0 < w) (ws :: int list))"
  by (rule sum_list_nonneg) (auto dest: set_takeWhileD)

lemma word_plus_tenth:
  assumes "0 \<le> used" "11 * used < 10 * 2 ^ 64"
  defines "m \<equiv> word_of_int used :: 64 word"
  shows "uint (m + m div 10) = used + used div 10" and "m > 0 \<longleftrightarrow> used > 0"
proof -
  have wi: "uint (word_of_int x :: 64 word) = x" if "0 \<le> x" "x < 2 ^ 64" for x using that by (simp add: uint_word_of_int)
  have u: "uint m = used" unfolding m_def using assms(1,2) by (intro wi) simp_all
  have "m div 10 = word_of_int (used div 10)" by (simp add: word_div_def u)
  then have e: "m + m div 10 = word_of_int (used + used div 10)" by (simp add: m_def)
  have "0 \<le> used + used div 10" "used + used div 10 < 2 ^ 64" using assms(1,2) by linarith+
  then show "uint (m + m div 10) = used + used div 10" unfolding e by (rule wi)
  show "m > 0 \<longleftrightarrow> used > 0" using u assms(1) by (simp add: word_less_def)
qed

text \<open>The attempts all read the same text: without a worker that reports memory first they fail, after the waits.\<close>

lemma memory_attempts_zero:
  assumes "described_memory X msg = Ok 0" "\<And>v. fst (ts_Wait C v) = Ok ()"
  shows "fst (memory_attempts X C msg n s) = Err (ErrMsg ''No worker memory usage reported in DescribeModel responses'' [])"
proof (induction n arbitrary: s)
  case 0
  then show ?case using assms(1) by (simp add: andThen_def)
next
  case (Suc n)
  have "ts_Wait C s = (Ok (), snd (ts_Wait C s))" using assms(2) [of s] by (simp add: prod_eq_iff)
  then show ?case using Suc [of "snd (ts_Wait C s)"] assms(1) by (simp add: andThen_def [of "lift_res _"] andThen_eval)
qed

lemma memory_attempts_pos:
  "described_memory X msg = Ok m \<Longrightarrow> m > 0 \<Longrightarrow> memory_attempts X C msg n s = (Ok m, s)"
  by (cases n) (simp_all add: andThen_def)

text \<open>
  C26: The size of a model is the memory that its workers report, up to the first worker that reports none, and a tenth more, without
  wrap-around as long as that fits 64 bits. When the first worker reports no memory, the retries, which read the first
  response again, do not help, and the size is the one of the archive on disk, by the multiplier.
\<close>

theorem torchserve_size:
  assumes "ts_DescribeModel (sa_Client S) modelId s = (Ok msg, u)"
    and "Option.bind (x_parse (sa_ext S) msg) (dec_slice dec_modelDesc) = Some (Some (ws # descs))" "ws \<noteq> []"
    and "used = sum_list (takeWhile (\<lambda>w. 0 < w) ws)" "11 * used < 10 * 2 ^ 64" "\<And>v. fst (ts_Wait (sa_Client S) v) = Ok ()"
  shows "if used > 0 then \<exists>m. torchserve_ModelSize S modelId s = (Ok m, u) \<and> uint m = used + used div 10
    else \<exists>v. torchserve_ModelSize S modelId s = modelSizeFromDisk S modelId v"
proof -
  let ?m = "word_of_int used :: 64 word"
  let ?d = "modelSizeFromTorchServe (sa_ext S) (sa_Client S) modelId"
  have dm: "described_memory (sa_ext S) msg = Ok ?m" using assms(2,3) by (simp add: described_memory_def worker_memory_sum assms(4))
  have t: "0 \<le> used" using sum_positive assms(4) by simp
  note w = word_plus_tenth [OF t assms(5)]
  show ?thesis
  proof (cases "used > 0")
    case True
    then have "memory_attempts (sa_ext S) (sa_Client S) msg 16 u = (Ok ?m, u)" using memory_attempts_pos [OF dm] w(2) by blast
    then have "?d s = (Ok (?m + ?m div 10), u)" using assms(1) by (simp add: modelSizeFromTorchServe_def andThen_def)
    then show ?thesis using True w(1) by (simp add: torchserve_ModelSize_def attempt_def andThen_def)
  next
    case False
    then have "described_memory (sa_ext S) msg = Ok 0" using t dm by simp
    from memory_attempts_zero [OF this assms(6), of 16 u] obtain v e where
      "memory_attempts (sa_ext S) (sa_Client S) msg 16 u = (Err e, v)" by (metis prod.collapse)
    then have "?d s = (Err e, v)" using assms(1) by (simp add: modelSizeFromTorchServe_def andThen_def)
    then show ?thesis using False by (auto simp: torchserve_ModelSize_def attempt_def andThen_def)
  qed
qed

section \<open>Start-up\<close>

text \<open>TorchServe answers: its models are listed in pages and it unregisters all of them.\<close>

definition torchserve_works :: "ext \<Rightarrow> torchserve_client \<Rightarrow> (string list \<times> int) list \<Rightarrow> bool" where
  "torchserve_works X C ps \<longleftrightarrow> pages_from X C 0 ps \<and> (\<forall>s. quiet s \<longrightarrow>
     (\<exists>st. runs (ts_GetState C) s st (files s) \<and> (st = Idle \<or> st = Connected)) \<and> (\<forall>e. runs (ts_Dial C e) s () (files s)) \<and>
     (\<exists>health. runs (ts_Ping C) s health (files s) \<and> Option.bind (x_parse X health) dec_healthStatus = Some ''Healthy'') \<and>
     (\<forall>m. runs (ts_UnregisterModel C m) s () (files s)))"

definition torchserve_behind_puller :: "TorchServeAdapterServer \<Rightarrow> TorchServeAdapterServer" where
  "torchserve_behind_puller S = S\<lparr>sa_config := (sa_config S)\<lparr>ac_RootModelDir := path_str [''models'', torchServeModelStoreDirName],
     ac_UseEmbeddedPuller := False\<rparr>\<rparr>"

lemma torchserve_behind_puller_sel [simp]:
  "sa_ext (torchserve_behind_puller S) = sa_ext S" "sa_Client (torchserve_behind_puller S) = sa_Client S"
  "ac_RootModelDir (sa_config (torchserve_behind_puller S)) = path_str [''models'', torchServeModelStoreDirName]"
  "\<not> ac_UseEmbeddedPuller (sa_config (torchserve_behind_puller S))" "sa_pages (torchserve_behind_puller S) = sa_pages S"
  "sa_connected (torchserve_behind_puller S) = sa_connected S"
  by (simp_all add: torchserve_behind_puller_def)

lemma torchserve_subdir_plain: "list_all plain_name [''models'', torchServeModelStoreDirName]" "purge_excluded torchServeModelStoreDirName"
  by (simp_all add: plain_name_def torchServeModelStoreDirName_def purge_excluded_def PurgeExcludePrefixes_def has_prefix_def)

lemma unregister_all_runs:
  assumes "torchserve_works X C ps" "quiet s" "length ps \<le> fuel"
  shows "runs (unregisterAllModels X C fuel) s () (files s)"
proof -
  have "pages_from X C 0 ps" using assms(1) by (simp add: torchserve_works_def)
  from list_models_runs [OF this assms(2,3), of "[]"] show ?thesis unfolding unregisterAllModels_def
    by (rule runs_andThen) (use unregister_models_runs [of C] assms(1) in \<open>auto simp: torchserve_works_def\<close>, metis)
qed

text \<open>A status request in each of the two states of the inference connection.\<close>

lemma torchserve_connected_runs:
  assumes "torchserve_works (sa_ext S) (sa_Client S) ps" "length ps \<le> sa_pages S" "quiet s"
    and "\<And>u. files u = files s \<Longrightarrow> quiet u \<Longrightarrow> runs (clear_model_links (sa_config S) (sa_puller S)) u () t"
  shows "runs (torchserve_status_connected S) s (ready_status (sa_config S) torchserve_method_infos, S\<lparr>sa_connected := False\<rparr>) t"
proof -
  obtain health u where h: "ts_Ping (sa_Client S) s = (Ok health, u)" "files u = files s" "quiet u"
      "Option.bind (x_parse (sa_ext S) health) dec_healthStatus = Some ''Healthy''"
    using assms(1,3) by (fastforce simp: torchserve_works_def runs_def)
  obtain v where v: "unregisterAllModels (sa_ext S) (sa_Client S) (sa_pages S) u = (Ok (), v)" "files v = files s" "quiet v"
    using unregister_all_runs [OF assms(1) h(3) assms(2)] h(2) by (auto simp: runs_def)
  obtain w where w: "clear_model_links (sa_config S) (sa_puller S) v = (Ok (), w)" "files w = t" "quiet w"
    using assms(4) [OF v(2,3)] by (auto simp: runs_def)
  show ?thesis using h v(1) w by (simp add: torchserve_status_connected_def Let_def runs_def andThen_def attempt_def)
qed

lemma torchserve_status_runs:
  assumes "torchserve_works (sa_ext S) (sa_Client S) ps" "length ps \<le> sa_pages S" "quiet s"
    and "\<And>u. files u = files s \<Longrightarrow> quiet u \<Longrightarrow> runs (clear_model_links (sa_config S) (sa_puller S)) u () t"
  shows "runs (torchserve_RuntimeStatus S) s (ready_status (sa_config S) torchserve_method_infos, S\<lparr>sa_connected := False\<rparr>) t"
proof -
  obtain st u where u: "ts_GetState (sa_Client S) s = (Ok st, u)" "files u = files s" "quiet u" "st = Idle \<or> st = Connected"
    using assms(1,3) by (fastforce simp: torchserve_works_def runs_def)
  have "runs (torchserve_connect S) u () (files u)"
    using assms(1) u(3) by (simp add: torchserve_connect_def torchserve_works_def runs_def)
  then obtain v where v: "torchserve_connect S u = (Ok (), v)" "files v = files s" "quiet v" using u(2) by (auto simp: runs_def)
  have "runs (torchserve_status_connected (S\<lparr>sa_connected := True\<rparr>)) v (ready_status (sa_config S) torchserve_method_infos, S\<lparr>sa_connected := False\<rparr>) t"
    using torchserve_connected_runs [of "S\<lparr>sa_connected := True\<rparr>" ps v t] assms(1,2,4) v(2,3) by simp
  then show ?thesis using u v(1) by (auto simp: torchserve_RuntimeStatus_def runs_def andThen_def attempt_def)
qed

lemma runs_clear_model_links:
  assumes "quiet s" "real_dirs (files s) p" "list_all plain_name p" "p \<noteq> []" "list_all plain_name (entry_names (files s) p)"
    and "ac_RootModelDir c = path_str p" "\<not> ac_UseEmbeddedPuller c"
  shows "runs (clear_model_links c P) s () (prune_all p (filter is_mar (entry_names (files s) p)) (files s))"
  using runs_ClearDirectoryContents(2) [OF assms(1-5), of is_mar] assms(6,7) by (auto simp: clear_model_links_def runs_def andThen_def)

text \<open>An unload behind the puller: what it does, what it touches, and that it succeeds.\<close>

abbreviation torchserve_store :: fpath where
  "torchserve_store \<equiv> [''models'', torchServeModelStoreDirName]"

lemma torchserve_link_plain: "list_all plain_name (torchserve_store @ [marFileName m])"
  using torchserve_subdir_plain marFileName_plain by simp

lemma torchserve_unload_behind:
  "torchserve_UnloadModel (torchserve_behind_puller S) m = andThen (unload_tolerant (is_NotFound (sa_ext S))
      (\<lambda>e. status_Errorf (x_code (sa_ext S) e) ''Failed to unload model from TorchServe'' None) (ts_UnregisterModel (sa_Client S) m))
      (\<lambda>_. andThen (clearModelLink (path_str (torchserve_store @ [marFileName m]))) (\<lambda>_. ret ()))"
  using targetPath_str [of torchserve_store m] torchserve_subdir_plain by (simp add: torchserve_UnloadModel_def Let_def embedded_cleanup_def)

lemma torchserve_unload_own:
  assumes "ac_RootModelDir (sa_config S) = path_str store" "list_all plain_name store" "store \<noteq> []" "no_links (files s) store"
    and "torchserve_readonly (sa_Client S)" "\<not> ac_UseEmbeddedPuller (sa_config S)"
  shows "removed_below (store @ [marFileName m]) (files s) (files (snd (torchserve_UnloadModel S m s)))"
proof -
  let ?m = "unload_tolerant (is_NotFound (sa_ext S))
    (\<lambda>e. status_Errorf (x_code (sa_ext S) e) ''Failed to unload model from TorchServe'' None) (ts_UnregisterModel (sa_Client S) m)"
  let ?c = "clearModelLink (path_str (store @ [marFileName m]))"
  have def: "torchserve_UnloadModel S m = andThen ?m (\<lambda>_. andThen ?c (\<lambda>_. ret ()))"
    using assms(6) by (simp add: torchserve_UnloadModel_def Let_def embedded_cleanup_def assms(1) targetPath_str [OF assms(2,3)])
  have "files (snd (?m s)) = files s"
    using keepsD [of "\<lambda>u. files u = files s" "ts_UnregisterModel (sa_Client S) m" s] assms(5)
    unfolding torchserve_readonly_def unload_tolerant_snd by (auto dest: spec [of _ "\<lambda>t. t = files s"])
  then obtain r u where u: "?m s = (r, u)" "files u = files s" by (metis prod.collapse)
  obtain r' v where v: "?c u = (r', v)" by fastforce
  have "list_all plain_name (store @ [marFileName m])" using assms(2) marFileName_plain by simp
  then have "removed_below (store @ [marFileName m]) (files u) (files v)"
    using clearModelLink_below [of u store "marFileName m"] assms(4) u v by simp
  then show ?thesis unfolding def using u v by (cases r; cases r') (simp_all add: andThen_def)
qed

lemma torchserve_unload_below:
  assumes "torchserve_readonly (sa_Client S)" "no_links (files s) torchserve_store"
  shows "removed_below torchserve_store (files s) (files (snd (torchserve_UnloadModel (torchserve_behind_puller S) m s)))"
  using torchserve_unload_own [of "torchserve_behind_puller S" torchserve_store s m] torchserve_subdir_plain assms
  by (simp add: removed_below_mono)

lemma runs_torchserve_unload:
  assumes "torchserve_works (sa_ext S) (sa_Client S) ps" "quiet s" "real_dirs (files s) torchserve_store"
  shows "runs (torchserve_UnloadModel (torchserve_behind_puller S) m) s () (prune (torchserve_store @ [marFileName m]) (files s))"
  unfolding torchserve_unload_behind
proof (rule runs_andThen)
  show "runs (unload_tolerant (is_NotFound (sa_ext S)) (\<lambda>e. status_Errorf (x_code (sa_ext S) e) ''Failed to unload model from TorchServe'' None)
      (ts_UnregisterModel (sa_Client S) m)) s () (files s)"
    using assms(1) [unfolded torchserve_works_def, THEN conjunct2, rule_format, OF assms(2)] by (auto simp: runs_def unload_tolerant_Ok_iff)
  fix u assume u: "files u = files s" "quiet u"
  have "runs (os_RemoveAll (path_str (torchserve_store @ [marFileName m]))) u () (prune (torchserve_store @ [marFileName m]) (files u))"
    by (rule runs_RemoveAll [OF u(2) _ torchserve_link_plain]) (use assms(3) u(1) in simp)
  then show "runs (andThen (clearModelLink (path_str (torchserve_store @ [marFileName m]))) (\<lambda>_. ret ())) u ()
      (prune (torchserve_store @ [marFileName m]) (files s))"
    using u(1) by (auto simp: clearModelLink_def runs_def andThen_def attempt_def)
qed

lemma torchserve_startup:
  assumes "torchserve_works (sa_ext S) (sa_Client S) ps" "length ps \<le> sa_pages S" "torchserve_readonly (sa_Client S)"
  shows "adapter_startup (sa_ext S) (torchserve_UnloadModel (torchserve_behind_puller S)) [''models''] torchServeModelStoreDirName
    (andThen (torchserve_RuntimeStatus (torchserve_behind_puller S)) (\<lambda>r. ret (fst r)))
    (ready_status (sa_config (torchserve_behind_puller S)) torchserve_method_infos) marFileName is_mar"
proof
  let ?S = "torchserve_behind_puller S"
  show "is_mar (marFileName m)" for m by (rule marFileName_is_mar)
  show "rs_Status (ready_status (sa_config ?S) torchserve_method_infos) = READY" by (simp add: ready_status_def)
  show "removed_below ([''models''] @ [torchServeModelStoreDirName]) (files s) (files (snd (torchserve_UnloadModel ?S m s)))"
    if "no_links (files s) ([''models''] @ [torchServeModelStoreDirName])" for s m
    using torchserve_unload_below [OF assms(3)] that by simp
  fix s :: os
  assume q: "quiet s" and rd: "real_dirs (files s) ([''models''] @ [torchServeModelStoreDirName])"
  show "runs (torchserve_UnloadModel ?S m) s () (prune ([''models''] @ [torchServeModelStoreDirName, marFileName m]) (files s))" for m
    using runs_torchserve_unload [OF assms(1) q] rd by simp
  assume names: "list_all plain_name (entry_names (files s) ([''models''] @ [torchServeModelStoreDirName]))"
  have "runs (clear_model_links (sa_config ?S) (sa_puller ?S)) u ()
      (prune_all torchserve_store (filter is_mar (entry_names (files s) torchserve_store)) (files s))" if u: "files u = files s" "quiet u" for u
    using runs_clear_model_links [OF u(2) _ torchserve_subdir_plain(1), of "sa_config ?S" "sa_puller ?S"] rd names u(1) by simp
  from torchserve_status_runs [OF _ _ q this, of ps]
  show "runs (andThen (torchserve_RuntimeStatus ?S) (\<lambda>r. ret (fst r))) s (ready_status (sa_config ?S) torchserve_method_infos)
      (prune_all ([''models''] @ [torchServeModelStoreDirName]) (filter is_mar (entry_names (files s) ([''models''] @ [torchServeModelStoreDirName]))) (files s))"
    using assms(1,2) by (auto simp: runs_def andThen_def)
qed (use torchserve_subdir_plain in simp_all)

section \<open>The theorems at work\<close>

definition demo_ts_ext :: ext where
  "demo_ts_ext = demo_key_ext\<lparr>x_parse := (\<lambda>s.
     if s = ''page1'' then Some (JObj [(''models'', JArr [JObj [(''modelName'', JStr ''a'')], JObj [(''modelName'', JStr ''b'')]]),
       (''nextPageToken'', JNum (NInt 2))])
     else if s = ''page2'' then Some (JObj [(''models'', JArr [JObj [(''modelName'', JStr ''c'')]])])
     else if s = ''healthy'' then Some (JObj [(''status'', JStr ''Healthy'')])
     else if s = ''desc'' then Some (JArr [JObj [(''workers'', JArr (map (\<lambda>i. JObj [(''memoryUsage'', JNum (NInt i))]) [100, 50, 0, 7]))]])
     else x_parse demo_key_ext s)\<rparr>"

definition demo_ts_client :: torchserve_client where
  "demo_ts_client = \<lparr>ts_GetState = ret Idle, ts_Dial = (\<lambda>e. ret ()), ts_Ping = ret ''healthy'', ts_RegisterModel = (\<lambda>r. ret ()),
     ts_UnregisterModel = (\<lambda>m. ret ()), ts_ListModels = (\<lambda>t. ret (if t = 0 then ''page1'' else ''page2'')),
     ts_DescribeModel = (\<lambda>m. ret ''desc''), ts_Wait = ret ()\<rparr>"

definition demo_ts :: TorchServeAdapterServer where
  "demo_ts = \<lparr>sa_ext = demo_ts_ext, sa_Client = demo_ts_client,
     sa_config = AdapterConfiguration.extend (demo_config ''/models/_torchserve_models'') (TorchServeConfiguration.fields ''localhost:7070'' 0 0),
     sa_puller = \<lparr>ep_config = demo_puller_config, ep_pull = azure_Pull demo_sdk demo_ts_ext (AzNoCredential ''u''), ep_stack = 9\<rparr>,
     sa_InferenceEndpoint = ''localhost:7070'', sa_connected = False, sa_pages = 2\<rparr>"

definition demo_ts_fs :: fs where
  "demo_ts_fs = [([''models''], Dir), ([''models'', ''_torchserve_models''], Dir),
     ([''models'', ''_torchserve_models'', ''mmconfig.properties''], File 436 ''x''), ([''models'', ''_torchserve_models'', ''m.mar''], Link ''/models/m/a''),
     ([''models'', ''m''], Dir), ([''models'', ''m'', ''a''], File 420 ''x''), ([''etc''], File 420 ''x'')]"

lemma demo_ts_facts: "real_dirs (files (demo_os demo_ts_fs)) [''models'', ''_torchserve_models'']" "quiet (demo_os demo_ts_fs)"
  by (simp_all add: real_dirs_def demo_os_def demo_ts_fs_def get_def le_Suc_eq all_conj_distrib quiet_def)

lemma demo_ts_sel [simp]: "sa_ext demo_ts = demo_ts_ext" "sa_Client demo_ts = demo_ts_client" "sa_pages demo_ts = 2"
  by (simp_all add: demo_ts_def)

lemma demo_ts_pages: "pages_from demo_ts_ext demo_ts_client 0 [([''a'', ''b''], 2), ([''c''], 0)]"
proof -
  have "Option.bind (x_parse demo_ts_ext ''page1'') dec_modelListResp = Some ([''a'', ''b''], 2)"
    "Option.bind (x_parse demo_ts_ext ''page2'') dec_modelListResp = Some ([''c''], 0)" by code_simp+
  then show ?thesis by (simp add: demo_ts_client_def runs_def)
qed

lemma demo_ts_laws: "securejoin_scoped demo_ts_ext" "securejoin_plain demo_ts_ext" "torchserve_readonly demo_ts_client"
  "torchserve_works demo_ts_ext demo_ts_client [([''a'', ''b''], 2), ([''c''], 0)]"
proof -
  show "securejoin_scoped demo_ts_ext" "securejoin_plain demo_ts_ext"
    by (simp_all add: demo_securejoin_scoped demo_securejoin_plain demo_ts_ext_def demo_key_ext_def)
  show "torchserve_readonly demo_ts_client" by (simp add: torchserve_readonly_def demo_ts_client_def keeps_def)
  have "Option.bind (x_parse demo_ts_ext ''healthy'') dec_healthStatus = Some ''Healthy''" by code_simp
  then show "torchserve_works demo_ts_ext demo_ts_client [([''a'', ''b''], 2), ([''c''], 0)]"
    using demo_ts_pages by (simp add: torchserve_works_def demo_ts_client_def runs_def)
qed

interpretation torchserve_start: adapter_startup demo_ts_ext "torchserve_UnloadModel (torchserve_behind_puller demo_ts)" "[''models'']"
  torchServeModelStoreDirName "andThen (torchserve_RuntimeStatus (torchserve_behind_puller demo_ts)) (\<lambda>r. ret (fst r))"
  "ready_status (sa_config (torchserve_behind_puller demo_ts)) torchserve_method_infos" marFileName is_mar
  using torchserve_startup [of demo_ts "[([''a'', ''b''], 2), ([''c''], 0)]"] demo_ts_laws by simp

theorem listing_ends_witness:
  "\<exists>u. unregisterAllModels demo_ts_ext demo_ts_client 2 (demo_os []) = unregister_models demo_ts_client [''a'', ''b'', ''c''] u"
  using listing_ends [OF demo_ts_pages, of "demo_os []" 2] by (auto simp: quiet_def demo_os_def)

theorem torchserve_size_witness:
  "\<exists>m. torchserve_ModelSize demo_ts ''m'' (demo_os []) = (Ok m, demo_os []) \<and> uint m = 165"
proof -
  have "Option.bind (x_parse demo_ts_ext ''desc'') (dec_slice dec_modelDesc) = Some (Some [[100, 50, 0, 7]])" by code_simp
  then show ?thesis
    using torchserve_size [of demo_ts "''m''" "demo_os []" "''desc''" "demo_os []" "[100, 50, 0, 7]" "[]" 150]
    by (simp add: demo_ts_client_def)
qed

end
