(* ===== verification/Adapters.thy ===== *)
theory Adapters
  imports OvmsAdapterProps TritonProps MlserverProps TorchserveProps
begin

text \<open>
  The four adapters as one: each is a server of the model runtime interface in front of its own model server, and a model server consists of
  the puller and one of them. What they have in common, whichever it is: how far a load reaches, and how a model server starts.
\<close>

section \<open>An adapter\<close>

text \<open>The OVMS adapter comes with the answers of its model manager.\<close>

datatype adapter =
    OVMS OvmsAdapterServer "requestType \<Rightarrow> string \<Rightarrow> string \<Rightarrow> answer"
  | Triton TritonAdapterServer
  | MLServer MLServerAdapterServer
  | TorchServe TorchServeAdapterServer

primrec adapter_ext :: "adapter \<Rightarrow> ext" where
  "adapter_ext (OVMS S ans) = oa_ext S"
| "adapter_ext (Triton S) = ta_ext S"
| "adapter_ext (MLServer S) = ma_ext S"
| "adapter_ext (TorchServe S) = sa_ext S"

primrec adapter_config :: "adapter \<Rightarrow> AdapterConfiguration" where
  "adapter_config (OVMS S ans) = AdapterConfiguration.truncate (oa_config S)"
| "adapter_config (Triton S) = ta_config S"
| "adapter_config (MLServer S) = ma_config S"
| "adapter_config (TorchServe S) = AdapterConfiguration.truncate (sa_config S)"

primrec adapter_puller :: "adapter \<Rightarrow> EmbeddedPuller" where
  "adapter_puller (OVMS S ans) = oa_puller S"
| "adapter_puller (Triton S) = ta_puller S"
| "adapter_puller (MLServer S) = ma_puller S"
| "adapter_puller (TorchServe S) = sa_puller S"

text \<open>The directory of the models' root in which an adapter keeps the adapted models.\<close>

primrec adapter_subdir :: "adapter \<Rightarrow> string" where
  "adapter_subdir (OVMS S ans) = ovmsModelSubdir"
| "adapter_subdir (Triton S) = tritonModelSubdir"
| "adapter_subdir (MLServer S) = mlserverModelSubdir"
| "adapter_subdir (TorchServe S) = torchServeModelStoreDirName"

text \<open>The handlers. A status request gives the response; the change of the server that it may make is left out.\<close>

primrec adapter_load :: "adapter \<Rightarrow> LoadModelRequest \<Rightarrow> (os, LoadModelResponse) step" where
  "adapter_load (OVMS S ans) req = ovms_LoadModel S ans req"
| "adapter_load (Triton S) req = triton_LoadModel S req"
| "adapter_load (MLServer S) req = mlserver_LoadModel S req"
| "adapter_load (TorchServe S) req = torchserve_LoadModel S req"

primrec adapter_unload :: "adapter \<Rightarrow> string \<Rightarrow> (os, unit) step" where
  "adapter_unload (OVMS S ans) = ovms_UnloadModel S ans"
| "adapter_unload (Triton S) = triton_UnloadModel S"
| "adapter_unload (MLServer S) = mlserver_UnloadModel S"
| "adapter_unload (TorchServe S) = torchserve_UnloadModel S"

primrec adapter_status :: "adapter \<Rightarrow> (os, RuntimeStatusResponse) step" where
  "adapter_status (OVMS S ans) = ovms_RuntimeStatus S (Ok ()) False ans"
| "adapter_status (Triton S) = andThen (triton_RuntimeStatus S) (\<lambda>r. ret (fst r))"
| "adapter_status (MLServer S) = andThen (mlserver_RuntimeStatus S) (\<lambda>r. ret (fst r))"
| "adapter_status (TorchServe S) = andThen (torchserve_RuntimeStatus S) (\<lambda>r. ret (fst r))"

text \<open>The adapter as it runs behind the puller: without a puller of its own, in its default directory.\<close>

primrec behind_puller :: "adapter \<Rightarrow> adapter" where
  "behind_puller (OVMS S ans) = OVMS (ovms_behind_puller S) ans"
| "behind_puller (Triton S) = Triton (triton_behind_puller S)"
| "behind_puller (MLServer S) = MLServer (mlserver_behind_puller S)"
| "behind_puller (TorchServe S) = TorchServe (torchserve_behind_puller S)"

text \<open>The model server of the adapter does not write to the volume; it answers, with its version; and the status then.\<close>

primrec runtime_readonly :: "adapter \<Rightarrow> bool" where
  "runtime_readonly (OVMS S ans) \<longleftrightarrow> True"
| "runtime_readonly (Triton S) \<longleftrightarrow> client_readonly (ta_Client S)"
| "runtime_readonly (MLServer S) \<longleftrightarrow> client_readonly (ma_Client S)"
| "runtime_readonly (TorchServe S) \<longleftrightarrow> torchserve_readonly (sa_Client S)"

primrec runtime_works :: "adapter \<Rightarrow> string \<Rightarrow> bool" where
  "runtime_works (OVMS S ans) version \<longleftrightarrow> ovms_works S ans"
| "runtime_works (Triton S) version \<longleftrightarrow> (\<exists>loaded. client_works (ta_Client S) loaded version)"
| "runtime_works (MLServer S) version \<longleftrightarrow> (\<exists>loaded. client_works (ma_Client S) loaded version)"
| "runtime_works (TorchServe S) version \<longleftrightarrow> (\<exists>ps. torchserve_works (sa_ext S) (sa_Client S) ps \<and> length ps \<le> sa_pages S)"

primrec ready_answer :: "adapter \<Rightarrow> string \<Rightarrow> RuntimeStatusResponse" where
  "ready_answer (OVMS S ans) version = ready_status (oa_config (ovms_behind_puller S)) ovms_method_infos"
| "ready_answer (Triton S) version = ready_status (with_version (ta_config (triton_behind_puller S)) version) triton_method_infos"
| "ready_answer (MLServer S) version = ready_status (with_version (ma_config (mlserver_behind_puller S)) version) mlserver_method_infos"
| "ready_answer (TorchServe S) version = ready_status (sa_config (torchserve_behind_puller S)) torchserve_method_infos"

text \<open>Where the adapted form of a model is, and what is removed at start-up.\<close>

primrec adapter_entry :: "adapter \<Rightarrow> string \<Rightarrow> string" where
  "adapter_entry (OVMS S ans) = (\<lambda>m. m)"
| "adapter_entry (Triton S) = (\<lambda>m. m)"
| "adapter_entry (MLServer S) = (\<lambda>m. m)"
| "adapter_entry (TorchServe S) = marFileName"

primrec adapter_clears :: "adapter \<Rightarrow> string \<Rightarrow> bool" where
  "adapter_clears (OVMS S ans) = (\<lambda>x. True)"
| "adapter_clears (Triton S) = (\<lambda>x. True)"
| "adapter_clears (MLServer S) = (\<lambda>x. True)"
| "adapter_clears (TorchServe S) = is_mar"

section \<open>How far a load reaches\<close>

text \<open>The layout of a Keras model is made by a converter outside the repository.\<close>

primrec needs_converter :: "adapter \<Rightarrow> LoadModelRequest \<Rightarrow> bool" where
  "needs_converter (OVMS S ans) req \<longleftrightarrow> False"
| "needs_converter (Triton S) req \<longleftrightarrow> plain_model_type (triton_getModelType (ta_ext S) req) = ''keras''"
| "needs_converter (MLServer S) req \<longleftrightarrow> False"
| "needs_converter (TorchServe S) req \<longleftrightarrow> False"


section \<open>Starting a model server\<close>

lemma adapter_starts:
  assumes "runtime_works A version" "runtime_readonly A"
  shows "adapter_startup (adapter_ext A) (adapter_unload (behind_puller A)) [''models''] (adapter_subdir A)
    (adapter_status (behind_puller A)) (ready_answer A version) (adapter_entry A) (adapter_clears A)"
proof (cases A)
  case (OVMS S ans)
  then show ?thesis using ovms_startup assms by simp
next
  case (Triton S)
  then show ?thesis using triton_startup assms by auto
next
  case (MLServer S)
  then show ?thesis using mlserver_startup assms by auto
next
  case (TorchServe S)
  then show ?thesis using torchserve_startup assms by auto
qed

text \<open>
  C2: A model server starts clean, whichever its adapter: when its runtime answers and no call fails by itself, the status request through
  the puller and the adapter is answered with READY and the configured capacity; then the adapter's directory holds none of the
  entries of adapted models, no entry of the models' root is left but those with the excluded prefix, and nothing else on the volume was touched.
\<close>

theorem model_server_starts_clean:
  assumes "securejoin_scoped (adapter_ext A)" "securejoin_plain (adapter_ext A)" "runtime_works A version" "runtime_readonly A"
    and "ps_ext S = adapter_ext A" "rt_UnloadModel (ps_runtime S) = adapter_unload (behind_puller A)"
      "rt_RuntimeStatus (ps_runtime S) = adapter_status (behind_puller A)" "RootModelDir (ps_config S) = path_str [''models'']"
    and "quiet s" "real_dirs (files s) [''models'', adapter_subdir A]" "list_all plain_name (entry_names (files s) [''models'', adapter_subdir A])"
      "list_all plain_name (entry_names (files s) [''models''])"
      "list_all (\<lambda>x. \<not> is_link (get (files s) [''models'', x])) (entry_names (files s) [''models''])"
  shows "\<exists>s'. ps_RuntimeStatus S s = (Ok (Some (ready_answer A version), None), s') \<and> rs_Status (ready_answer A version) = READY \<and>
    list_all (\<lambda>x. \<not> adapter_clears A x) (entry_names (files s') [''models'', adapter_subdir A]) \<and>
    list_all purge_excluded (entry_names (files s') [''models'']) \<and> removed_below [''models''] (files s) (files s')"
  using adapter_startup.starts_clean [OF adapter_starts [OF assms(3,4)] assms(1,2,5-9)] assms(10-13)
    adapter_startup.status_ready [OF adapter_starts [OF assms(3,4)]] by simp

section \<open>The theorems at work\<close>


theorem model_server_starts_clean_witness:
  "fst (ps_RuntimeStatus (demo_server\<lparr>ps_ext := demo_ts_ext, ps_runtime := demo_runtime\<lparr>rt_UnloadModel := adapter_unload (behind_puller (TorchServe demo_ts)),
       rt_RuntimeStatus := adapter_status (behind_puller (TorchServe demo_ts))\<rparr>\<rparr>) (demo_os demo_ts_fs)) =
     Ok (Some (ready_answer (TorchServe demo_ts) ''''), None)"
proof -
  let ?s = "demo_os demo_ts_fs"
  let ?S = "demo_server\<lparr>ps_ext := demo_ts_ext, ps_runtime := demo_runtime\<lparr>rt_UnloadModel := adapter_unload (behind_puller (TorchServe demo_ts)),
       rt_RuntimeStatus := adapter_status (behind_puller (TorchServe demo_ts))\<rparr>\<rparr>"
  have e: "entry_names (files ?s) [''models''] = [''_torchserve_models'', ''m'']"
    "entry_names (files ?s) [''models'', ''_torchserve_models''] = [''m.mar'', ''mmconfig.properties'']" by code_simp+
  moreover have "list_all (\<lambda>x. \<not> is_link (get (files ?s) [''models'', x])) (entry_names (files ?s) [''models''])"
    unfolding e by (simp add: is_link_def demo_os_def demo_ts_fs_def get_def)
  moreover have "runtime_works (TorchServe demo_ts) ''''" using demo_ts_laws(4) by (auto intro!: exI [of _ "[([''a'', ''b''], 2), ([''c''], 0)]"])
  ultimately have "\<exists>s'. ps_RuntimeStatus ?S ?s = (Ok (Some (ready_answer (TorchServe demo_ts) ''''), None), s')"
    using model_server_starts_clean [of "TorchServe demo_ts" "''''" ?S ?s] demo_ts_facts demo_ts_laws demo_models_facts(1) plain_name_def
    by (auto simp: torchServeModelStoreDirName_def demo_server_def simp del: runtime_works.simps ready_answer.simps)
  then show ?thesis by auto
qed

end
