(* ===== verification/EmbeddedPulling.thy ===== *)
theory EmbeddedPulling
  imports Adapters
begin

text \<open>
  An adapter pulls a model itself when \<open>USE_EMBEDDED_PULLER\<close> is set, and leaves it to the puller in front of it otherwise. The two deployments
  are written separately (\<open>puller/server.go\<close> on one side, the handlers of each adapter on the other); this theory shows for
  all four adapters that they do the same.
\<close>

section \<open>The two deployments\<close>

text \<open>The adapter with its own puller switched off, and the puller server with the adapter's puller in front of it.\<close>

primrec standalone :: "adapter \<Rightarrow> adapter" where
  "standalone (OVMS S ans) = OVMS (S\<lparr>oa_config := (oa_config S)\<lparr>ac_UseEmbeddedPuller := False\<rparr>\<rparr>) ans"
| "standalone (Triton S) = Triton (S\<lparr>ta_config := (ta_config S)\<lparr>ac_UseEmbeddedPuller := False\<rparr>\<rparr>)"
| "standalone (MLServer S) = MLServer (S\<lparr>ma_config := (ma_config S)\<lparr>ac_UseEmbeddedPuller := False\<rparr>\<rparr>)"
| "standalone (TorchServe S) = TorchServe (S\<lparr>sa_config := (sa_config S)\<lparr>ac_UseEmbeddedPuller := False\<rparr>\<rparr>)"

definition in_front_of :: "PullerServer \<Rightarrow> adapter \<Rightarrow> bool" where
  "in_front_of S A \<longleftrightarrow> ps_ext S = adapter_ext A \<and> ps_config S = ep_config (adapter_puller A) \<and> ps_pull S = ep_pull (adapter_puller A) \<and>
     ps_stack S = ep_stack (adapter_puller A) \<and> rt_LoadModel (ps_runtime S) = adapter_load (standalone A) \<and>
     rt_UnloadModel (ps_runtime S) = adapter_unload (standalone A) \<and> rt_RuntimeStatus (ps_runtime S) = adapter_status (standalone A)"

text \<open>Two outcomes that a caller of the interface cannot tell apart but by the text of an error.\<close>

fun same_answer :: "ext \<Rightarrow> 'a res \<Rightarrow> 'a res \<Rightarrow> bool" where
  "same_answer X (Ok x) (Ok y) = (x = y)"
| "same_answer X (Err d) (Err e) = (x_code X d = x_code X e)"
| "same_answer X (Panic p) (Panic q) = (p = q)"
| "same_answer X r r' = False"

definition same_outcome :: "ext \<Rightarrow> ('s, 'a) step \<Rightarrow> ('s, 'a) step \<Rightarrow> bool" where
  "same_outcome X m n \<longleftrightarrow> (\<forall>s. same_answer X (fst (m s)) (fst (n s)) \<and> snd (m s) = snd (n s))"

lemma same_answer_refl [simp]: "same_answer X r r"
  by (cases r) simp_all

lemma same_outcome_wrapErr:
  assumes "\<And>e. x_code X (g e) = x_code X (h e)"
  shows "same_outcome X (wrapErr g m) (wrapErr h m)"
  unfolding same_outcome_def
proof
  fix s
  show "same_answer X (fst (wrapErr g m s)) (fst (wrapErr h m s)) \<and> snd (wrapErr g m s) = snd (wrapErr h m s)"
    using assms by (cases "fst (m s)") simp_all
qed

lemma same_outcome_andThen:
  assumes "\<And>x. same_outcome X (f x) (g x)"
  shows "same_outcome X (andThen m f) (andThen m g)"
  using assms by (auto simp: same_outcome_def andThen_def split: prod.splits res.splits)

lemma andThen_same:
  assumes "\<And>x u v. m u = (Ok x, v) \<Longrightarrow> f x = g x"
  shows "andThen m f = andThen m g"
  using assms by (auto simp: andThen_def fun_eq_iff split: prod.splits res.splits)

lemma andThen_assoc: "andThen (andThen m f) g = andThen m (\<lambda>x. andThen (f x) g)"
  by (auto simp: andThen_def fun_eq_iff split: prod.splits res.splits)

section \<open>The model type\<close>

text \<open>
  An adapter reads the type of a model from the key as it came, by the exact name of the entry; the puller decodes the key into a struct, where case
  does not matter, and writes it anew. What follows assumes that no entry is called \<open>model_type\<close> but for its case, and that the new
  key is read back with the type it was written with.
\<close>

definition type_spelled_exactly :: "ext \<Rightarrow> string \<Rightarrow> bool" where
  "type_spelled_exactly X key \<longleftrightarrow> (case x_parse X key of
     Some (JObj m) \<Rightarrow> list_all (\<lambda>e. to_lower (fst e) = ''model_type'' \<longrightarrow> fst e = ''model_type'') m
   | _ \<Rightarrow> True)"

definition type_written_back :: "ext \<Rightarrow> string \<Rightarrow> bool" where
  "type_written_back X key \<longleftrightarrow> (\<forall>k k'. Option.bind (x_parse X key) dec_model_key = Some k \<longrightarrow> mk_ModelType k' = mk_ModelType k \<longrightarrow>
     (\<exists>m. unmarshal_map X (x_print X (enc_model_key k')) = Some m \<and> gm_get m ''model_type'' = mk_ModelType k'))"


lemma field_absent: "\<forall>e \<in> set m. to_lower (fst e) \<noteq> to_lower k \<Longrightarrow> field m k = JNull"
  by (induction m k rule: field.induct) auto

lemma field_exact:
  assumes "list_all (\<lambda>e. to_lower (fst e) = to_lower k \<longrightarrow> fst e = k) m"
  shows "gm_get (last_wins m) k = field m k"
  using assms
proof (induction m)
  case (Cons e m)
  obtain k' v where e: "e = (k', v)" by (cases e)
  have absent: "map_of (last_wins m) k = None \<longleftrightarrow> k \<notin> fst ` set m"
    unfolding map_of_eq_None_iff by (metis last_wins_keys list.set_map)
  show ?case
  proof (cases "\<exists>e \<in> set m. to_lower (fst e) = to_lower k")
    case True
    then obtain x where "x \<in> set m" "to_lower (fst x) = to_lower k" by blast
    with Cons.prems have "k \<in> fst ` set m" by (metis (mono_tags, lifting) image_eqI list.set_intros(2) list_all_iff)
    with Cons True absent show ?thesis by (auto simp: e gm_get_def split: option.splits)
  next
    case False
    then have "k \<notin> fst ` set m" by auto
    with Cons.prems False absent show ?thesis by (auto simp: e gm_get_def field_absent)
  qed
qed (simp add: gm_get_def)

lemma field_dedup: "field (map (\<lambda>e. (fst e, dedup (snd e))) m) k = dedup (field m k)"
  by (induction m k rule: field.induct) auto

lemma spelled_type:
  assumes "type_spelled_exactly X key" "Option.bind (x_parse X key) dec_model_key = Some k"
  shows "\<exists>m. unmarshal_map X key = Some m \<and> gm_get m ''model_type'' = mk_ModelType k"
proof (cases "x_parse X key")
  case (Some v)
  show ?thesis
  proof (cases v)
    case (JObj m)
    let ?m = "map (\<lambda>e. (fst e, dedup (snd e))) m"
    have low: "to_lower ''model_type'' = ''model_type''" by code_simp
    have "list_all (\<lambda>e. to_lower (fst e) = to_lower ''model_type'' \<longrightarrow> fst e = ''model_type'') ?m"
      using assms(1) by (simp add: type_spelled_exactly_def Some JObj low list_all_iff)
    from field_exact [OF this] assms(2) show ?thesis
      by (auto simp: unmarshal_map_def Some JObj field_dedup split: option.splits)
  qed (use assms(2) Some in \<open>auto simp: unmarshal_map_def gm_get_def\<close>)
qed (use assms(2) in simp)

text \<open>The puller does not change the type that the adapter sees.\<close>

lemma GetModelType_kept:
  assumes "type_spelled_exactly X (ModelKey req)" "type_written_back X (ModelKey req)"
    and "ProcessLoadModelRequest X cfg pull n req s = (Ok req', s')"
  shows "GetModelType X req' = GetModelType X req"
proof -
  from ProcessLoadModelRequest_Ok [OF assms(3)] obtain k k' p where k: "Option.bind (x_parse X (ModelKey req)) dec_model_key = Some k"
    and r: "req' = req\<lparr>ModelPath := p, ModelKey := x_print X (enc_model_key k')\<rparr>" "mk_ModelType k' = mk_ModelType k" by auto
  from assms(2) k r(2) obtain m where "unmarshal_map X (ModelKey req') = Some m" "gm_get m ''model_type'' = mk_ModelType k"
    unfolding type_written_back_def r(1) by auto
  with spelled_type [OF assms(1) k] r(1) show ?thesis by (auto simp: GetModelType_def split: json.split option.split)
qed

lemma triton_getModelType_eq: "triton_getModelType X req = GetModelType X req"
  by (auto simp: triton_getModelType_def GetModelType_def split: option.splits json.splits)

section \<open>Loading\<close>

lemma standalone_sel [simp]:
  "adapter_ext (standalone A) = adapter_ext A" "adapter_subdir (standalone A) = adapter_subdir A"
  "\<not> ac_UseEmbeddedPuller (adapter_config (standalone A))" "adapter_entry (standalone A) = adapter_entry A"
  "ac_RootModelDir (adapter_config (standalone A)) = ac_RootModelDir (adapter_config A)"
  by (cases A; simp add: AdapterConfiguration.defs)+

lemma embedded_load_off: "\<not> ac_UseEmbeddedPuller c \<Longrightarrow> embedded_load X c P = ret"
  by (simp add: embedded_load_def fun_eq_iff)

lemma embedded_load_on:
  "ac_UseEmbeddedPuller c \<Longrightarrow> embedded_load X c P = ProcessLoadModelRequest X (ep_config P) (ep_pull P) (ep_stack P)"
  by (simp add: embedded_load_def fun_eq_iff)

lemma load_response_off: "load_response X (c\<lparr>ac_UseEmbeddedPuller := b\<rparr>) req = load_response X c req"
  by (simp add: load_response_def)


lemma adapter_load_pulls:
  assumes "ac_UseEmbeddedPuller (adapter_config A)"
    and "type_spelled_exactly (adapter_ext A) (ModelKey req)" "type_written_back (adapter_ext A) (ModelKey req)"
  shows "adapter_load A req = andThen (ProcessLoadModelRequest (adapter_ext A) (ep_config (adapter_puller A)) (ep_pull (adapter_puller A))
    (ep_stack (adapter_puller A)) req) (adapter_load (standalone A))"
proof (cases A)
  case (OVMS S ans)
  have on: "ac_UseEmbeddedPuller (oa_config S)" using assms(1) by (simp add: OVMS AdapterConfiguration.defs)
  show ?thesis
    unfolding OVMS adapter_load.simps standalone.simps adapter_ext.simps adapter_puller.simps ovms_LoadModel_def [of S] Let_def embedded_load_on [OF on]
    by (rule andThen_same) (simp add: ovms_LoadModel_def Let_def embedded_load_off load_response_off
      GetModelType_kept [OF assms(2,3) [unfolded OVMS adapter_ext.simps]])
next
  case (Triton S)
  have on: "ac_UseEmbeddedPuller (ta_config S)" using assms(1) by (simp add: Triton)
  show ?thesis
    unfolding Triton adapter_load.simps standalone.simps adapter_ext.simps adapter_puller.simps triton_LoadModel_def [of S] Let_def embedded_load_on [OF on]
    by (rule andThen_same) (simp add: triton_LoadModel_def Let_def embedded_load_off load_response_off triton_getModelType_eq
      GetModelType_kept [OF assms(2,3) [unfolded Triton adapter_ext.simps]])
next
  case (MLServer S)
  have on: "ac_UseEmbeddedPuller (ma_config S)" using assms(1) by (simp add: MLServer)
  show ?thesis
    unfolding MLServer adapter_load.simps standalone.simps adapter_ext.simps adapter_puller.simps mlserver_LoadModel_def [of S] Let_def embedded_load_on [OF on]
    by (rule andThen_same) (simp add: mlserver_LoadModel_def Let_def embedded_load_off load_response_off
      GetModelType_kept [OF assms(2,3) [unfolded MLServer adapter_ext.simps]])
next
  case (TorchServe S)
  have on: "ac_UseEmbeddedPuller (sa_config S)" using assms(1) by (simp add: TorchServe AdapterConfiguration.defs)
  show ?thesis
    unfolding TorchServe adapter_load.simps standalone.simps adapter_ext.simps adapter_puller.simps torchserve_LoadModel_def [of S] Let_def
      embedded_load_on [OF on]
    by (rule andThen_same) (simp add: torchserve_LoadModel_def Let_def embedded_load_off workerCount_def)
qed

section \<open>Unloading\<close>

text \<open>Errors that are not made with a status of their own never have the code NotFound; gRPC documents that their code is Unknown.\<close>

definition no_local_NotFound :: "ext \<Rightarrow> bool" where
  "no_local_NotFound X \<longleftrightarrow> status_codes X \<and> (\<forall>e p. x_code X (OsErr e p) \<noteq> CodeNotFound) \<and>
     (\<forall>t r u e. x_securejoin X t r u = Err e \<longrightarrow> x_code X e \<noteq> CodeNotFound)"

definition fails_with :: "(goerr \<Rightarrow> bool) \<Rightarrow> ('s, 'a) step \<Rightarrow> bool" where
  "fails_with Q m \<longleftrightarrow> (\<forall>s e u. m s = (Err e, u) \<longrightarrow> Q e)"

lemma fails_with_andThen: "fails_with Q m \<Longrightarrow> (\<And>x. fails_with Q (f x)) \<Longrightarrow> fails_with Q (andThen m f)"
  by (fastforce simp: fails_with_def andThen_def split: prod.splits res.splits)

lemma fails_with_tolerant: "(\<And>e. \<not> F e \<Longrightarrow> Q (g e)) \<Longrightarrow> fails_with Q (unload_tolerant F g m)"
  by (auto simp: fails_with_def unload_tolerant_def andThen_def attempt_def split: prod.splits res.splits if_splits)

lemma fails_with_wrapErr: "fails_with (\<lambda>e. Q (g e)) m \<Longrightarrow> fails_with Q (wrapErr g m)"
  by (auto simp: fails_with_def prod_eq_iff res_simps)

lemma fails_with_ret: "fails_with Q (ret x)"
  by (simp add: fails_with_def)

lemma fails_with_RemoveAll: "(\<And>e p. Q (OsErr e p)) \<Longrightarrow> fails_with Q (os_RemoveAll p)"
  by (auto simp: fails_with_def os_RemoveAll_def syscall_def Let_def split: if_splits option.splits sum.splits prod.splits)

lemma fails_with_attempt: "fails_with Q (attempt m)"
  by (auto simp: fails_with_def attempt_def split: prod.splits res.splits)

lemma fails_with_SecureJoin:
  "no_local_NotFound X \<Longrightarrow> fails_with (\<lambda>e. x_code X e \<noteq> CodeNotFound) (SecureJoin X [r, u])"
  by (auto simp: fails_with_def SecureJoin_def SecureJoin_at_def no_local_NotFound_def)

lemma remove_model_dir_not_NotFound: "no_local_NotFound X \<Longrightarrow> fails_with (\<lambda>e. x_code X e \<noteq> CodeNotFound) (remove_model_dir X c m)"
  unfolding remove_model_dir_def
  by (intro fails_with_andThen fails_with_SecureJoin fails_with_wrapErr fails_with_RemoveAll)
    (auto simp: no_local_NotFound_def status_codes_def status_Errorf_def)

text \<open>An adapter never answers an unload with NotFound.\<close>

lemma standalone_unload_not_NotFound:
  assumes "no_local_NotFound (adapter_ext A)"
  shows "fails_with (\<lambda>e. x_code (adapter_ext A) e \<noteq> CodeNotFound) (adapter_unload (standalone A) m)"
proof -
  have code: "x_code (adapter_ext A) (status_Errorf c t e) = c" for c t e
    using assms by (simp add: no_local_NotFound_def status_codes_def status_Errorf_def)
  show ?thesis
    using assms code
    by (cases A) (auto simp: ovms_UnloadModel_def triton_UnloadModel_def mlserver_UnloadModel_def torchserve_UnloadModel_def embedded_cleanup_def
      is_NotFound_def mlserver_unknown_def clearModelLink_def Let_def
      intro!: fails_with_andThen fails_with_tolerant remove_model_dir_not_NotFound fails_with_ret fails_with_attempt)
qed


lemma adapter_unload_cleans:
  assumes "ac_UseEmbeddedPuller (adapter_config A)"
  shows "adapter_unload A m = andThen (adapter_unload (standalone A) m)
    (\<lambda>_. embedded_cleanup (adapter_ext A) (adapter_config A) (adapter_puller A) m)"
  using assms
  by (cases A) (simp_all add: ovms_UnloadModel_def triton_UnloadModel_def mlserver_UnloadModel_def torchserve_UnloadModel_def
    embedded_cleanup_def remove_model_dir_def Let_def andThen_assoc AdapterConfiguration.defs del: wrapErr_apply)

lemma tolerant_same_outcome:
  assumes "fails_with (\<lambda>e. \<not> F e) m" "\<And>e. x_code X (g e) = x_code X e" "\<And>x. same_outcome X (f x) (f' x)"
  shows "same_outcome X (andThen (unload_tolerant F g m) f) (andThen m f')"
  unfolding same_outcome_def
proof
  fix s
  obtain r u where r: "m s = (r, u)" by (cases "m s")
  show "same_answer X (fst (andThen (unload_tolerant F g m) f s)) (fst (andThen m f' s)) \<and>
    snd (andThen (unload_tolerant F g m) f s) = snd (andThen m f' s)"
    using assms r unfolding same_outcome_def fails_with_def
    by (cases r) (auto simp: unload_tolerant_def andThen_def attempt_def split: prod.splits res.splits)
qed

section \<open>Properties\<close>

text \<open>
  C12: It makes no difference whether the puller runs in front of an adapter or inside it: for every adapter, request, model and state of the
  volume, the puller server with the standalone adapter behind it and the adapter with the embedded puller leave the same files, give the same
  answer to a load and to an unload, and fail with the same status code. The model type must be spelled
  exactly in the key: otherwise the embedded puller's adapter, which reads it before the key is rewritten, sees another type.
\<close>

theorem embedded_puller_equivalent:
  assumes "in_front_of S A" "ac_UseEmbeddedPuller (adapter_config A)" "no_local_NotFound (adapter_ext A)"
    and "type_spelled_exactly (adapter_ext A) (ModelKey req)" "type_written_back (adapter_ext A) (ModelKey req)"
  shows "same_outcome (adapter_ext A) (ps_loadModel S req) (adapter_load A req) \<and>
    same_outcome (adapter_ext A) (ps_unloadModel S m) (adapter_unload A m)"
proof
  note front = assms(1) [unfolded in_front_of_def]
  have code: "x_code (adapter_ext A) (status_Errorf (x_code (adapter_ext A) e) t d) = x_code (adapter_ext A) e" for e t d
    using assms(3) by (simp add: no_local_NotFound_def status_codes_def status_Errorf_def)
  have "same_outcome (adapter_ext A) (wrapErr (\<lambda>e. status_Errorf (x_code (adapter_ext A) e) t (Some e)) n) (wrapErr (\<lambda>e. e) n)" for t n
    by (rule same_outcome_wrapErr) (rule code)
  then have wrapped: "same_outcome (adapter_ext A) (wrapErr (\<lambda>e. status_Errorf (x_code (adapter_ext A) e) t (Some e)) n) n" for t n
    by (simp add: wrapErr_id)
  show "same_outcome (adapter_ext A) (ps_loadModel S req) (adapter_load A req)"
    unfolding adapter_load_pulls [OF assms(2,4,5)] ps_loadModel_def
    using front by (simp del: wrapErr_apply) (rule same_outcome_andThen, rule wrapped)
  have found: "fails_with (\<lambda>e. \<not> is_NotFound (adapter_ext A) e) (adapter_unload (standalone A) m)"
    using standalone_unload_not_NotFound [OF assms(3)] by (simp add: is_NotFound_def)
  show "same_outcome (adapter_ext A) (ps_unloadModel S m) (adapter_unload A m)"
    unfolding adapter_unload_cleans [OF assms(2)] ps_unloadModel_def embedded_cleanup_def
    using front assms(2) code
    by (simp del: wrapErr_apply) (intro tolerant_same_outcome [OF found] same_outcome_wrapErr; simp)
qed

section \<open>The theorem at work\<close>

text \<open>A key with a model type, and an MLServer adapter that pulls a model of one file.\<close>

definition demo_type_ext :: ext where
  "demo_type_ext = demo_ext\<lparr>x_parse := (\<lambda>s. Some (JObj [(''model_type'', JStr ''sklearn''), (''storage_params'', JObj [(''type'', JStr ''pvc'')])]))\<rparr>"

definition demo_pulling :: MLServerAdapterServer where
  "demo_pulling = \<lparr>ma_ext = demo_type_ext, ma_indent = (\<lambda>v. ''{}''), ma_Client = demo_client,
     ma_config = (demo_config ''/r/_s'')\<lparr>ac_UseEmbeddedPuller := True\<rparr>,
     ma_puller = \<lparr>ep_config = demo_puller_config\<lparr>RootModelDir := ''/r''\<rparr>,
       ep_pull = (\<lambda>pc. andThen (os_MkdirAll (Directory pc)) (\<lambda>_. os_WriteFile (Directory pc @ ''/p'') ''x'' 420)), ep_stack = 9\<rparr>\<rparr>"

definition demo_front :: PullerServer where
  "demo_front = \<lparr>ps_ext = demo_type_ext, ps_config = ep_config (ma_puller demo_pulling), ps_pull = ep_pull (ma_puller demo_pulling), ps_stack = 9,
     ps_runtime = demo_runtime\<lparr>rt_LoadModel := adapter_load (standalone (MLServer demo_pulling)),
       rt_UnloadModel := adapter_unload (standalone (MLServer demo_pulling)), rt_RuntimeStatus := adapter_status (standalone (MLServer demo_pulling))\<rparr>\<rparr>"

lemma demo_type_ext_laws:
  "securejoin_scoped demo_type_ext" "securejoin_plain demo_type_ext" "no_local_NotFound demo_type_ext"
  "type_spelled_exactly demo_type_ext k" "type_written_back demo_type_ext k"
proof -
  let ?m = "[(''model_type'', JStr ''sklearn''), (''storage_params'', JObj [(''type'', JStr ''pvc'')])]"
  have p: "x_parse demo_type_ext k = Some (JObj ?m)" for k by (simp add: demo_type_ext_def)
  show "securejoin_scoped demo_type_ext" "securejoin_plain demo_type_ext"
    by (simp_all add: demo_securejoin_scoped demo_securejoin_plain demo_type_ext_def)
  show "no_local_NotFound demo_type_ext"
    by (auto simp: no_local_NotFound_def demo_type_ext_def status_codes_def demo_securejoin_def Let_def split: if_splits)
  show "type_spelled_exactly demo_type_ext k" unfolding type_spelled_exactly_def p by code_simp
  have "map_option mk_ModelType (dec_model_key (the (x_parse demo_type_ext k))) = Some (JStr ''sklearn'')" unfolding p by code_simp
  moreover have "decode_map (the (x_parse demo_type_ext k)) = Some ?m" for k by (simp add: p)
  ultimately show "type_written_back demo_type_ext k" by (auto simp: type_written_back_def unmarshal_map_def p gm_get_def)
qed

theorem embedded_puller_equivalent_witness:
  "get (files (snd (ps_loadModel demo_front demo_load_req (demo_os [([''r''], Dir)])))) [''r'', ''_s'', ''m'', ''p''] =
     Some (Link ''/r/m/p'')"
proof -
  let ?s = "demo_os [([''r''], Dir)]" and ?A = "MLServer demo_pulling"
  have "in_front_of demo_front ?A" "ac_UseEmbeddedPuller (adapter_config ?A)" "adapter_ext ?A = demo_type_ext"
    by (simp_all add: in_front_of_def demo_front_def demo_pulling_def)
  then have "snd (ps_loadModel demo_front demo_load_req ?s) = snd (adapter_load ?A demo_load_req ?s)"
    using embedded_puller_equivalent [of demo_front ?A demo_load_req] demo_type_ext_laws by (simp add: same_outcome_def)
  moreover have "get (files (snd (adapter_load ?A demo_load_req ?s))) [''r'', ''_s'', ''m'', ''p''] = Some (Link ''/r/m/p'')"
    by code_simp
  ultimately show ?thesis by simp
qed

end
