(* ===== verification/ModelIsolation.thy ===== *)
theory ModelIsolation
  imports EmbeddedPulling
begin

text \<open>
  A model server: the puller in front of an adapter, both on one volume. What loading and unloading one model can do to the
  files of another: nothing.
\<close>

section \<open>A model server and its volume\<close>

text \<open>
  The parts and how they are configured: the adapter's directory is a directory of the models' root, the adapter's runtime does not write to the
  volume, and the pull manager keeps to the directory of its command, as it does when each pull is done by one of the providers (\<open>provider_pull_bounded\<close>).
\<close>

definition model_server :: "PullerServer \<Rightarrow> adapter \<Rightarrow> fpath \<Rightarrow> bool" where
  "model_server S A root \<longleftrightarrow> in_front_of S A \<and> securejoin_scoped (adapter_ext A) \<and> securejoin_plain (adapter_ext A) \<and>
     list_all plain_name root \<and> root \<noteq> [] \<and> RootModelDir (ps_config S) = path_str root \<and>
     ac_RootModelDir (adapter_config A) = path_str (root @ [adapter_subdir A]) \<and> runtime_readonly A \<and>
     (\<exists>pull. bounded_pull pull \<and> ps_pull S = pull (adapter_ext A))"

text \<open>The adapted form of a model is a directory, but for TorchServe, where it is a link.\<close>

primrec adapted_dirs :: "adapter \<Rightarrow> bool" where
  "adapted_dirs (OVMS S ans) = True"
| "adapted_dirs (Triton S) = True"
| "adapted_dirs (MLServer S) = True"
| "adapted_dirs (TorchServe S) = False"

definition volume_ok :: "adapter \<Rightarrow> fpath \<Rightarrow> fs \<Rightarrow> bool" where
  "volume_ok A root t \<longleftrightarrow> real_dirs t (root @ [adapter_subdir A]) \<and> (\<forall>x. \<not> is_link (get t (root @ [x]))) \<and>
     (adapted_dirs A \<longrightarrow> (\<forall>x. \<not> is_link (get t (root @ [adapter_subdir A, x])))) \<and>
     (\<forall>x. get t (root @ [x]) \<noteq> None \<or> get t (root @ [adapter_subdir A, x]) \<noteq> None \<longrightarrow> plain_name x)"

text \<open>The paths of a model: what was pulled for it, and its adapted form.\<close>

definition own_path :: "adapter \<Rightarrow> fpath \<Rightarrow> string \<Rightarrow> fpath \<Rightarrow> bool" where
  "own_path A root m p \<longleftrightarrow> prefix (root @ [m]) p \<or> prefix (root @ [adapter_subdir A, adapter_entry A m]) p"

text \<open>Model ids that are names of directories, other than the adapter's own.\<close>

definition model_id :: "adapter \<Rightarrow> string \<Rightarrow> bool" where
  "model_id A m \<longleftrightarrow> plain_name m \<and> m \<noteq> adapter_subdir A"

definition touches_only :: "(fpath \<Rightarrow> bool) \<Rightarrow> fs \<Rightarrow> fs \<Rightarrow> bool" where
  "touches_only Q t t' \<longleftrightarrow> (\<forall>p. get t' p \<noteq> get t p \<longrightarrow> Q p)"

lemma touches_only_refl [simp]: "touches_only Q t t"
  by (simp add: touches_only_def)

lemma touches_only_trans: "touches_only Q t u \<Longrightarrow> touches_only Q u v \<Longrightarrow> touches_only Q t v"
  unfolding touches_only_def by metis

lemma adapter_entry_inj: "adapter_entry A m = adapter_entry A m' \<Longrightarrow> m = m'"
  using modelIdForMarFile_name by (cases A) (simp_all, metis)

lemma adapter_entry_plain: "adapted_dirs A \<Longrightarrow> adapter_entry A m = m" "adapter_subdir A \<noteq> []"
  by (cases A; simp add: ovmsModelSubdir_def tritonModelSubdir_def mlserverModelSubdir_def torchServeModelStoreDirName_def)+

lemma adapter_entry_plain_name: "plain_name m \<Longrightarrow> plain_name (adapter_entry A m)"
  by (cases A) (simp_all add: marFileName_plain)

lemma prefix_snocs: "prefix (r @ [a]) (r @ b # q) \<longleftrightarrow> a = b"
  by (auto simp: prefix_def)

lemma strict_prefix_snocD: "strict_prefix p (q @ [x]) \<Longrightarrow> prefix p q"
  by (auto simp: strict_prefix_def prefix_snoc)

lemma own_path_disjoint:
  assumes "own_path A root m p" "own_path A root m' p" "model_id A m" "model_id A m'"
  shows "m = m'"
proof -
  have "prefix [m] q \<or> prefix [adapter_subdir A, adapter_entry A m] q" "prefix [m'] q \<or> prefix [adapter_subdir A, adapter_entry A m'] q"
    if "p = root @ q" for q
    using assms(1,2) that by (auto simp: own_path_def)
  moreover obtain q where "p = root @ q" using assms(1) unfolding own_path_def prefix_def by force
  ultimately show ?thesis
    using assms(3,4) adapter_entry_inj [of A m m'] by (cases q; cases "tl q") (auto simp: model_id_def)
qed

section \<open>Steps that touch one model\<close>

lemma volume_links: "volume_ok A root t \<Longrightarrow> no_links t (root @ [adapter_subdir A])"
  by (simp add: volume_ok_def real_dirs_no_links)

lemma volume_dir:
  assumes "volume_ok A root t" "prefix p (root @ [adapter_subdir A])"
  shows "get t p = Some Dir"
proof -
  obtain zs where zs: "root @ [adapter_subdir A] = p @ zs" using assms(2) by (auto simp: prefix_def)
  then have "take (length p) (root @ [adapter_subdir A]) = p" "length p \<le> length (root @ [adapter_subdir A])" by simp_all
  then show ?thesis using assms(1) unfolding volume_ok_def real_dirs_def by metis
qed

lemma volume_root: "volume_ok A root t \<Longrightarrow> real_dirs t root"
  unfolding volume_ok_def using real_dirs_appendD by blast

text \<open>With the directories in place, a change below a model's path touches only that.\<close>

lemma changed_below_touches:
  assumes "volume_ok A root t" "changed_below d t t'" "d = root @ [x] \<or> d = root @ [adapter_subdir A, x]"
  shows "touches_only (prefix d) t t'"
  unfolding touches_only_def
proof (intro allI impI)
  fix p assume "get t' p \<noteq> get t p"
  with assms(2) have "prefix d p \<or> (strict_prefix p d \<and> get t p = None)" unfolding changed_below_def by blast
  moreover have "prefix p (root @ [adapter_subdir A])" if "strict_prefix p d"
    using that assms(3) strict_prefix_snocD [of p root x] strict_prefix_snocD [of p "root @ [adapter_subdir A]" x] by auto
  ultimately show "prefix d p" using volume_dir [OF assms(1)] by fastforce
qed

lemma volume_touched:
  assumes "volume_ok A root t" "touches_only (prefix d) t t'"
    and "(d = root @ [m] \<and> m \<noteq> adapter_subdir A) \<or> d = root @ [adapter_subdir A, e]" "plain_name (last d)"
    and "adapted_dirs A \<or> d = root @ [m] \<Longrightarrow> \<not> is_link (get t' d)"
  shows "volume_ok A root t'"
proof -
  have same: "get t' p = get t p" if "\<not> prefix d p" for p using assms(2) that unfolding touches_only_def by blast
  have "get t' (take i (root @ [adapter_subdir A])) = Some Dir" if "i \<le> length (root @ [adapter_subdir A])" for i
  proof -
    have "\<not> prefix d (root @ [adapter_subdir A])" using assms(3) prefix_snocs [of root m "adapter_subdir A" "[]"] by (auto dest: prefix_length_le)
    then have "\<not> prefix d (take i (root @ [adapter_subdir A]))" by (metis prefix_order.trans take_is_prefix)
    then show ?thesis using same assms(1) that unfolding volume_ok_def real_dirs_def by simp
  qed
  moreover have "\<not> is_link (get t' (root @ [x]))" for x
  proof (cases "d = root @ [x]")
    case False
    then have "\<not> prefix d (root @ [x])" using assms(3) by (auto dest: prefix_length_le)
    then show ?thesis using same assms(1) unfolding volume_ok_def by simp
  qed (use assms(3,5) in auto)
  moreover have "\<not> is_link (get t' (root @ [adapter_subdir A, x]))" if "adapted_dirs A" for x
  proof (cases "d = root @ [adapter_subdir A, x]")
    case False
    then have "\<not> prefix d (root @ [adapter_subdir A, x])" using assms(3) by (auto simp: prefix_def)
    then show ?thesis using same assms(1) that unfolding volume_ok_def by simp
  qed (use assms(5) that in auto)
  moreover have "plain_name x" if "get t' (root @ [x]) \<noteq> None \<or> get t' (root @ [adapter_subdir A, x]) \<noteq> None" for x
  proof (cases "d = root @ [x] \<or> d = root @ [adapter_subdir A, x]")
    case False
    have "plain_name x" if "get t (root @ [x]) \<noteq> None \<or> get t (root @ [adapter_subdir A, x]) \<noteq> None"
      using assms(1) that unfolding volume_ok_def by blast
    moreover have "\<not> prefix d (root @ [x])" "\<not> prefix d (root @ [adapter_subdir A, x])"
      using False assms(3) by (auto simp: prefix_def)
    ultimately show ?thesis using same that by metis
  qed (use assms(4) in auto)
  ultimately show ?thesis unfolding volume_ok_def real_dirs_def by blast
qed


lemma removed_below_touches: "removed_below d t t' \<Longrightarrow> touches_only (prefix d) t t'"
  unfolding removed_below_def touches_only_def by blast

section \<open>The handlers of the adapter\<close>

lemma no_links_last: "no_links t d \<Longrightarrow> \<not> is_link (get t d)"
  unfolding no_links_def is_link_def by (auto split: option.split node.split dest: spec [of _ "length d"])

text \<open>Without an embedded puller an adapter touches the adapted form of the model only.\<close>

definition adapted_path :: "adapter \<Rightarrow> fpath \<Rightarrow> string \<Rightarrow> fpath" where
  "adapted_path A root m = root @ [adapter_subdir A, adapter_entry A m]"

lemma adapted_joins:
  assumes "model_server S A root" "volume_ok A root t" "plain_name m" "adapted_dirs A"
  shows "joins_below (adapter_ext A) t (ac_RootModelDir (adapter_config A)) m (adapted_path A root m)"
proof -
  let ?r = "root @ [adapter_subdir A]"
  have plain: "list_all plain_name ?r" 
    using assms(1) by (cases A) (simp_all add: model_server_def plain_name_def ovmsModelSubdir_def tritonModelSubdir_def mlserverModelSubdir_def
      torchServeModelStoreDirName_def)
  have "joins_below (adapter_ext A) t (path_str ?r) m (?r @ [m])"
    by (rule joins_below_model) (use assms plain in \<open>simp_all add: model_server_def volume_ok_def\<close>)
  then show ?thesis using assms(1,4) by (simp add: model_server_def adapted_path_def adapter_entry_plain)
qed


lemma model_server_plain:
  assumes "model_server S A root"
  shows "list_all plain_name (root @ [adapter_subdir A])" "root \<noteq> []"
  using assms
  by (cases A; simp add: model_server_def plain_name_def ovmsModelSubdir_def tritonModelSubdir_def mlserverModelSubdir_def
      torchServeModelStoreDirName_def)+

lemma adapter_load_stays:
  assumes "model_server S A root" "volume_ok A root (files s)" "plain_name (ModelId req)" "\<not> needs_converter A req"
  shows "changed_below (adapted_path A root (ModelId req)) (files s) (files (snd (adapter_load (standalone A) req s))) \<and>
    (adapted_dirs A \<longrightarrow> \<not> is_link (get (files (snd (adapter_load (standalone A) req s))) (adapted_path A root (ModelId req))))"
proof (cases "adapted_dirs A")
  case True
  let ?d = "adapted_path A root (ModelId req)"
  note ms = assms(1) [unfolded model_server_def]
  have j: "joins_below (adapter_ext A) (files s) (ac_RootModelDir (adapter_config A)) (ModelId req) ?d"
    by (rule adapted_joins [OF assms(1-3) True])
  have d: "?d \<noteq> []" by (simp add: adapted_path_def)
  have "stays_below ?d (files s) (files (snd (adapter_load (standalone A) req s)))"
  proof (cases A)
    case (OVMS S ans)
    then show ?thesis using ovms_load_own [OF _ d, of "S\<lparr>oa_config := (oa_config S)\<lparr>ac_UseEmbeddedPuller := False\<rparr>\<rparr>"] j ms
      by (simp add: AdapterConfiguration.defs)
  next
    case (Triton S)
    then show ?thesis using triton_load_own [OF _ d, of "S\<lparr>ta_config := (ta_config S)\<lparr>ac_UseEmbeddedPuller := False\<rparr>\<rparr>"] j ms assms(4)
      by simp
  next
    case (MLServer S)
    then show ?thesis using mlserver_load_own [OF _ d, of "S\<lparr>ma_config := (ma_config S)\<lparr>ac_UseEmbeddedPuller := False\<rparr>\<rparr>"] j ms
      by simp
  next
    case (TorchServe S)
    then show ?thesis using True by simp
  qed
  moreover have "no_links (files s) ?d"
    using assms(2) True volume_links [OF assms(2)] no_links_snoc [of "files s" "root @ [adapter_subdir A]"]
    by (simp add: adapted_path_def volume_ok_def is_link_def split: option.splits node.splits) blast
  ultimately show ?thesis using no_links_last by (auto simp: stays_below_def)
next
  case False
  then obtain S' where A: "A = TorchServe S'" by (cases A) simp_all
  show ?thesis
    using assms(1) torchserve_load_own [of "S'\<lparr>sa_config := (sa_config S')\<lparr>ac_UseEmbeddedPuller := False\<rparr>\<rparr>" "root @ [torchServeModelStoreDirName]" s req]
      model_server_plain [OF assms(1)] volume_links [OF assms(2)]
    by (simp add: A adapted_path_def model_server_def AdapterConfiguration.defs)
qed

lemma adapter_unload_removes:
  assumes "model_server S A root" "volume_ok A root (files s)" "plain_name m"
  shows "removed_below (adapted_path A root m) (files s) (files (snd (adapter_unload (standalone A) m s)))"
proof (cases "adapted_dirs A")
  case True
  let ?d = "adapted_path A root m"
  note ms = assms(1) [unfolded model_server_def]
  have j: "joins_below (adapter_ext A) (files s) (ac_RootModelDir (adapter_config A)) m ?d" by (rule adapted_joins [OF assms True])
  have d: "?d \<noteq> []" by (simp add: adapted_path_def)
  show ?thesis
  proof (cases A)
    case (OVMS S ans)
    then show ?thesis using ovms_unload_below [OF _ d, of "S\<lparr>oa_config := (oa_config S)\<lparr>ac_UseEmbeddedPuller := False\<rparr>\<rparr>"] j
      by (simp add: AdapterConfiguration.defs)
  next
    case (Triton S)
    have "files (snd (rc_ModelUnload (ta_Client S) m s)) = files s" using ms client_readonly_files by (simp add: Triton)
    then show ?thesis using j d by (auto simp: Triton triton_UnloadModel_def Let_def intro!: unload_below)
  next
    case (MLServer S)
    have "files (snd (rc_ModelUnload (ma_Client S) m s)) = files s" using ms client_readonly_files by (simp add: MLServer)
    then show ?thesis using j d by (auto simp: MLServer mlserver_UnloadModel_def Let_def intro!: unload_below)
  qed (use True in simp)
next
  case False
  then obtain S' where A: "A = TorchServe S'" by (cases A) simp_all
  show ?thesis
    using assms(1) torchserve_unload_own [of "S'\<lparr>sa_config := (sa_config S')\<lparr>ac_UseEmbeddedPuller := False\<rparr>\<rparr>" "root @ [torchServeModelStoreDirName]" s m]
      model_server_plain [OF assms(1)] volume_links [OF assms(2)]
    by (simp add: A adapted_path_def model_server_def AdapterConfiguration.defs)
qed

section \<open>The handlers of the puller\<close>

lemma own_path_iff: "own_path A root m p \<longleftrightarrow> prefix (root @ [m]) p \<or> prefix (adapted_path A root m) p"
  by (simp add: own_path_def adapted_path_def)

lemma touches_own:
  "touches_only (prefix (root @ [m])) t t' \<Longrightarrow> touches_only (own_path A root m) t t'"
  "touches_only (prefix (adapted_path A root m)) t t' \<Longrightarrow> touches_only (own_path A root m) t t'"
  unfolding touches_only_def own_path_iff by blast+

text \<open>A step of the puller or of the adapter on the model's directory, or on its adapted form.\<close>

lemma volume_step:
  assumes "volume_ok A root t" "changed_below d t t'" "model_id A m"
    and "d = root @ [m] \<or> d = adapted_path A root m" "d = root @ [m] \<or> adapted_dirs A \<Longrightarrow> \<not> is_link (get t' d)"
  shows "touches_only (own_path A root m) t t' \<and> volume_ok A root t'"
proof -
  have t: "touches_only (prefix d) t t'"
    using changed_below_touches [OF assms(1,2)] assms(4) by (auto simp: adapted_path_def)
  moreover have "volume_ok A root t'"
    using volume_touched [OF assms(1) t, of m "adapter_entry A m"] assms(3-5) adapter_entry_plain_name [of m A]
    by (auto simp: adapted_path_def model_id_def)
  ultimately show ?thesis using touches_own assms(4) by auto
qed

lemma model_server_facts:
  assumes "model_server S A root"
  shows "ps_ext S = adapter_ext A" "RootModelDir (ps_config S) = path_str root" "securejoin_scoped (adapter_ext A)"
    "securejoin_plain (adapter_ext A)" "list_all plain_name root" "root \<noteq> []"
    "rt_LoadModel (ps_runtime S) = adapter_load (standalone A)" "rt_UnloadModel (ps_runtime S) = adapter_unload (standalone A)"
    "\<exists>pull. bounded_pull pull \<and> ps_pull S = pull (adapter_ext A)" "rt_RuntimeStatus (ps_runtime S) = adapter_status (standalone A)"
  using assms unfolding model_server_def in_front_of_def by blast+

lemma puller_load_stays:
  assumes "model_server S A root" "volume_ok A root (files s)" "model_id A (ModelId req)"
  shows "touches_only (own_path A root (ModelId req)) (files s)
      (files (snd (ProcessLoadModelRequest (ps_ext S) (ps_config S) (ps_pull S) (ps_stack S) req s))) \<and>
    volume_ok A root (files (snd (ProcessLoadModelRequest (ps_ext S) (ps_config S) (ps_pull S) (ps_stack S) req s)))"
proof -
  let ?t' = "files (snd (ProcessLoadModelRequest (ps_ext S) (ps_config S) (ps_pull S) (ps_stack S) req s))"
  note ms = model_server_facts [OF assms(1)]
  obtain pull where pull: "bounded_pull pull" "ps_pull S = pull (adapter_ext A)" using ms(9) by blast
  have nl: "\<not> is_link (get (files s) (root @ [ModelId req]))" using assms(2) by (simp add: volume_ok_def)
  have "list_all plain_name (root @ [ModelId req])" using ms(5) assms(3) by (simp add: model_id_def)
  then have st: "stays_below (root @ [ModelId req]) (files s) ?t'"
    unfolding pull(2) ms(1) by (intro scoped_pull.load_own [OF pull(1) ms(3,4,2)] ms(6) volume_root [OF assms(2)] nl)
  moreover have "no_links (files s) (root @ [ModelId req])"
    using real_dirs_no_links [OF volume_root [OF assms(2)]] nl by (auto simp: no_links_snoc is_link_def)
  ultimately have "\<not> is_link (get ?t' (root @ [ModelId req]))" using no_links_last by (simp add: stays_below_def)
  then show ?thesis using volume_step [OF assms(2) stays_below_changed [OF st] assms(3)] by blast
qed

lemma puller_cleanup_removes:
  assumes "model_server S A root" "volume_ok A root (files s)" "plain_name m"
  shows "removed_below (root @ [m]) (files s) (files (snd (CleanupModel (ps_ext S) (ps_config S) m s)))"
proof -
  note ms = model_server_facts [OF assms(1)]
  have "joins_below (ps_ext S) (files s) (RootModelDir (ps_config S)) m (root @ [m])"
    unfolding ms(1,2) by (rule joins_below_model) (use ms assms volume_root [OF assms(2)] in \<open>simp_all add: volume_ok_def\<close>)
  then show ?thesis
    unfolding joins_below_def CleanupModel_def
    by (cases "SecureJoin_at (ps_ext S) (files s) [RootModelDir (ps_config S), m]")
      (auto simp: andThen_def SecureJoin_def intro: removed_below_mono os_RemoveAll_below)
qed

text \<open>What a step leaves, whatever its result, and the steps after it.\<close>

lemma andThen_isolated:
  assumes "touches_only Q (files s) (files (snd (m s))) \<and> V (files (snd (m s)))"
    and "\<And>x u. m s = (Ok x, u) \<Longrightarrow> V (files u) \<Longrightarrow> touches_only Q (files u) (files (snd (f x u))) \<and> V (files (snd (f x u)))"
  shows "touches_only Q (files s) (files (snd (andThen m f s))) \<and> V (files (snd (andThen m f s)))"
proof (cases "m s")
  case (Pair r u)
  then show ?thesis using assms touches_only_trans by (cases r) (fastforce simp: andThen_def)+
qed


lemma wrapErr_snd: "snd (wrapErr g m s) = snd (m s)"
  by simp

lemma needs_converter_kept:
  assumes "type_spelled_exactly (adapter_ext A) (ModelKey req)" "type_written_back (adapter_ext A) (ModelKey req)"
    and "ProcessLoadModelRequest (adapter_ext A) cfg pull n req s = (Ok req', s')"
  shows "needs_converter A req' = needs_converter A req"
  using GetModelType_kept [OF assms] by (cases A) (simp_all add: triton_getModelType_eq)

lemma load_isolated:
  assumes "model_server S A root" "volume_ok A root (files s)" "model_id A (ModelId req)" "\<not> needs_converter A req"
    and "type_spelled_exactly (adapter_ext A) (ModelKey req)" "type_written_back (adapter_ext A) (ModelKey req)"
  shows "touches_only (own_path A root (ModelId req)) (files s) (files (snd (ps_loadModel S req s))) \<and>
    volume_ok A root (files (snd (ps_loadModel S req s)))"
  unfolding ps_loadModel_def
proof (rule andThen_isolated [where V = "volume_ok A root"], rule puller_load_stays [OF assms(1-3)])
  fix req' u
  note ms = model_server_facts [OF assms(1)]
  assume p: "ProcessLoadModelRequest (ps_ext S) (ps_config S) (ps_pull S) (ps_stack S) req s = (Ok req', u)" and v: "volume_ok A root (files u)"
  have id: "ModelId req' = ModelId req" using ProcessLoadModelRequest_Ok [OF p] by auto
  have nc: "\<not> needs_converter A req'" using needs_converter_kept [OF assms(5,6) p [unfolded ms(1)]] assms(4) by simp
  have "plain_name (ModelId req')" using assms(3) id by (simp add: model_id_def)
  from adapter_load_stays [OF assms(1) v this nc]
  show "touches_only (own_path A root (ModelId req)) (files u) (files (snd (wrapErr (\<lambda>e. status_Errorf (x_code (ps_ext S) e)
      ''Failed to load model due to model runtime error: %s'' (Some e)) (rt_LoadModel (ps_runtime S) req') u))) \<and>
    volume_ok A root (files (snd (wrapErr (\<lambda>e. status_Errorf (x_code (ps_ext S) e)
      ''Failed to load model due to model runtime error: %s'' (Some e)) (rt_LoadModel (ps_runtime S) req') u)))"
    unfolding wrapErr_snd ms(7) by (intro volume_step [OF v _ assms(3)]) (auto simp: id adapted_path_def)
qed

lemma removed_isolated:
  assumes "volume_ok A root t" "removed_below d t t'" "model_id A m" "d = root @ [m] \<or> d = adapted_path A root m"
  shows "touches_only (own_path A root m) t t' \<and> volume_ok A root t'"
proof (rule volume_step [OF assms(1) changed_below_removed [OF assms(2)] assms(3,4)])
  assume "d = root @ [m] \<or> adapted_dirs A"
  then have "\<not> is_link (get t d)" using assms(1,4) by (auto simp: volume_ok_def adapted_path_def)
  then show "\<not> is_link (get t' d)" by (rule removed_below_is_link [OF assms(2)])
qed

lemma unload_isolated:
  assumes "model_server S A root" "volume_ok A root (files s)" "model_id A m"
  shows "touches_only (own_path A root m) (files s) (files (snd (ps_unloadModel S m s))) \<and>
    volume_ok A root (files (snd (ps_unloadModel S m s)))"
  unfolding ps_unloadModel_def
proof (rule andThen_isolated [where V = "volume_ok A root"], goal_cases)
  note ms = model_server_facts [OF assms(1)]
  have m: "plain_name m" using assms(3) by (simp add: model_id_def)
  case 1
  show ?case unfolding unload_tolerant_snd ms(8)
    by (rule removed_isolated [OF assms(2) adapter_unload_removes [OF assms(1,2) m] assms(3)]) simp
  case (2 x u)
  show ?case unfolding wrapErr_snd
    by (rule removed_isolated [OF 2(2) puller_cleanup_removes [OF assms(1) 2(2) m] assms(3)]) simp
qed

section \<open>A status request\<close>

text \<open>Asked for its status, an adapter removes at most entries of its directory.\<close>

lemma sweep_clear_model_dirs:
  "list_all plain_name d \<Longrightarrow> d \<noteq> [] \<Longrightarrow> ac_RootModelDir c = path_str d \<Longrightarrow> \<not> ac_UseEmbeddedPuller c \<Longrightarrow>
     keeps (\<lambda>s. sweep_inv d t0 (files s)) (clear_model_dirs c P sub)"
  "list_all plain_name d \<Longrightarrow> d \<noteq> [] \<Longrightarrow> ac_RootModelDir c = path_str d \<Longrightarrow> \<not> ac_UseEmbeddedPuller c \<Longrightarrow>
     keeps (\<lambda>s. sweep_inv d t0 (files s)) (clear_model_links c P)"
  by (auto simp: clear_model_dirs_def clear_model_links_def intro!: keeps_intro sweep_ClearDirectoryContents)

lemma keeps_unload_listed: "(\<And>m. keeps P (rc_ModelUnload C m)) \<Longrightarrow> keeps P (unload_listed C ms)"
  by (induction ms) (auto intro!: keeps_intro)

lemma keeps_unregister_models: "(\<And>m. keeps P (ts_UnregisterModel C m)) \<Longrightarrow> keeps P (unregister_models C ms)"
  by (induction ms) (auto intro!: keeps_intro)

lemma keeps_list_models: "(\<And>n. keeps P (ts_ListModels C n)) \<Longrightarrow> keeps P (list_models X C fuel token l)"
  by (induction fuel arbitrary: token l) (auto intro!: keeps_intro split: option.split prod.split)

lemma adapter_status_sweeps:
  assumes "model_server S A root" "volume_ok A root (files s)"
  shows "swept (root @ [adapter_subdir A]) (files s) (files (snd (adapter_status (standalone A) s)))"
proof -
  let ?d = "root @ [adapter_subdir A]" and ?I = "\<lambda>u. sweep_inv (root @ [adapter_subdir A]) (files s) (files u)"
  note ms = assms(1) [unfolded model_server_def]
  have d: "list_all plain_name ?d" "?d \<noteq> []" using model_server_plain [OF assms(1)] by simp_all
  have "keeps ?I (adapter_status (standalone A))"
  proof (cases A)
    case (OVMS S ans)
    then show ?thesis using ms d
      by (auto simp: ovms_RuntimeStatus_def AdapterConfiguration.defs split: res.split intro!: keeps_intro sweep_clear_model_dirs)
  next
    case (Triton S)
    then have "client_readonly (ta_Client S)" using ms by simp
    then show ?thesis using Triton ms d
      by (auto simp: triton_RuntimeStatus_def client_readonly_def Let_def split: res.split intro!: keeps_intro sweep_clear_model_dirs keeps_unload_listed)
  next
    case (MLServer S)
    then have "client_readonly (ma_Client S)" using ms by simp
    then show ?thesis using MLServer ms d
      by (auto simp: mlserver_RuntimeStatus_def client_readonly_def Let_def split: res.split intro!: keeps_intro sweep_clear_model_dirs keeps_unload_listed)
  next
    case (TorchServe S)
    then have "torchserve_readonly (sa_Client S)" using ms by simp
    then show ?thesis using TorchServe ms d
      by (auto simp: torchserve_RuntimeStatus_def torchserve_status_connected_def torchserve_connect_def unregisterAllModels_def torchserve_readonly_def
          AdapterConfiguration.defs Let_def split: res.split intro!: keeps_intro sweep_clear_model_dirs keeps_unregister_models keeps_list_models)
  qed
  moreover have "?I s" using assms(2) by (auto simp: sweep_inv_def volume_ok_def list_all_iff entry_names_set)
  ultimately have "?I (snd (adapter_status (standalone A) s))" by (rule keepsD)
  then show ?thesis by (simp add: sweep_inv_def)
qed

lemma volume_swept:
  assumes "volume_ok A root t" "swept (root @ [adapter_subdir A]) t t'"
  shows "volume_ok A root t'"
proof -
  have "\<not> is_link (get t q) \<Longrightarrow> \<not> is_link (get t' q)" for q using swept_get [OF assms(2), of q] by (auto simp: is_link_def)
  moreover have "get t' q \<noteq> None \<Longrightarrow> get t q \<noteq> None" for q using swept_get [OF assms(2), of q] by auto
  ultimately show ?thesis using assms swept_real_dirs unfolding volume_ok_def by metis
qed

section \<open>Properties\<close>

text \<open>
  C11: Models do not disturb each other: whatever is asked of a model server for one model, a load or an unload, and whether or not it
  succeeds, no path of another model changes, neither the files that were pulled for it nor the form that the adapter made of them.
  (Model ids are plain names other than that of the adapter's directory; the load is not one of a Keras model in Triton.)
\<close>

theorem models_isolated:
  assumes "model_server S A root" "volume_ok A root (files s)" "model_id A (ModelId req)" "model_id A m'" "m' \<noteq> ModelId req"
    and "\<not> needs_converter A req" "type_spelled_exactly (adapter_ext A) (ModelKey req)" "type_written_back (adapter_ext A) (ModelKey req)"
    and "own_path A root m' p"
  shows "get (files (snd (ps_loadModel S req s))) p = get (files s) p \<and>
    get (files (snd (ps_unloadModel S (ModelId req) s))) p = get (files s) p"
proof -
  have "\<not> own_path A root (ModelId req) p" using own_path_disjoint assms(3-5,9) by blast
  moreover have "touches_only (own_path A root (ModelId req)) (files s) (files (snd (ps_loadModel S req s)))"
    using load_isolated [OF assms(1-3,6-8)] by blast
  moreover have "touches_only (own_path A root (ModelId req)) (files s) (files (snd (ps_unloadModel S (ModelId req) s)))"
    using unload_isolated [OF assms(1-3)] by blast
  ultimately show ?thesis unfolding touches_only_def by blast
qed

section \<open>The theorem at work\<close>

text \<open>The Triton adapter behind the puller, with two models on the volume.\<close>

definition demo_served :: TritonAdapterServer where
  "demo_served = demo_triton\<lparr>ta_ext := demo_type_ext, ta_puller := (ta_puller demo_triton)\<lparr>ep_pull := azure_Pull demo_sdk demo_type_ext (AzNoCredential ''u'')\<rparr>\<rparr>"

definition demo_pod :: PullerServer where
  "demo_pod = \<lparr>ps_ext = demo_type_ext, ps_config = demo_puller_config, ps_pull = azure_Pull demo_sdk demo_type_ext (AzNoCredential ''u''), ps_stack = 9,
     ps_runtime = demo_runtime\<lparr>rt_LoadModel := adapter_load (standalone (Triton demo_served)),
       rt_UnloadModel := adapter_unload (standalone (Triton demo_served)), rt_RuntimeStatus := adapter_status (standalone (Triton demo_served))\<rparr>\<rparr>"

definition demo_two_models :: fs where
  "demo_two_models = (demo_triton_fs @ [([''models'', ''n''], Dir), ([''models'', ''n'', ''f''], File 420 ''x'')])"

lemma demo_pod_serves: "model_server demo_pod (Triton demo_served) [''models'']"
  using demo_type_ext_laws demo_client_laws confined_pull_bounded [OF azure_pull.scoped_pull_axioms, of demo_sdk "AzNoCredential ''u''"]
  by (auto simp: model_server_def in_front_of_def demo_pod_def demo_served_def demo_triton_def demo_config_def demo_puller_config_def
    plain_name_def path_str_def tritonModelSubdir_def)

lemma demo_two_models_ok: "volume_ok (Triton demo_served) [''models''] demo_two_models"
  by (auto simp: volume_ok_def real_dirs_def le_Suc_eq demo_two_models_def demo_triton_fs_def tritonModelSubdir_def get_def is_link_def plain_name_def
    split: if_splits)

theorem models_isolated_witness:
  "get (files (snd (ps_loadModel demo_pod demo_load_req (demo_os demo_two_models)))) [''models'', ''n'', ''f''] = Some (File 420 ''x'') \<and>
   get (files (snd (ps_unloadModel demo_pod ''m'' (demo_os demo_two_models)))) [''models'', ''n'', ''f''] = Some (File 420 ''x'')"
proof -
  have "\<not> needs_converter (Triton demo_served) demo_load_req" by code_simp
  moreover have "get demo_two_models [''models'', ''n'', ''f''] = Some (File 420 ''x'')" by code_simp
  moreover have "own_path (Triton demo_served) [''models''] ''n'' [''models'', ''n'', ''f'']" by (simp add: own_path_def)
  ultimately show ?thesis
    using models_isolated [OF demo_pod_serves, of "demo_os demo_two_models" demo_load_req "''n''" "[''models'', ''n'', ''f'']"] demo_two_models_ok demo_type_ext_laws
    by (simp add: model_id_def plain_name_def tritonModelSubdir_def demo_load_req_def demo_os_def demo_served_def)
qed

end
