(* ===== verification/StatusRequests.thy ===== *)
theory StatusRequests
  imports ModelIsolation
begin

text \<open>
  A status request to the puller, step by step: \<open>RuntimeStatus\<close> of \<open>server.go\<close> and the loop of \<open>unloadAll\<close> in \<open>modelstate.go\<close> between their calls of the
  runtime and of the puller. They do not go through the queues of the state manager, so other requests may be handled between any two of these steps.
\<close>

section \<open>The steps\<close>

text \<open>
  A status request that is being handled: before the runtime was asked; before the models are listed; in the loop, with the models that are left; between
  the unload of a model and the clean-up of its files; answered, with the response and the error.
\<close>

datatype status_call =
    Asked
  | Listing RuntimeStatusResponse
  | Purging RuntimeStatusResponse "string list"
  | Cleaning RuntimeStatusResponse string "string list"
  | Answered "RuntimeStatusResponse option" "goerr option"

fun answered :: "status_call \<Rightarrow> bool" where
  "answered (Answered r e) = True"
| "answered p = False"

text \<open>A call whose error is the end of the purge.\<close>

definition or_failing :: "('s, 'a) step \<Rightarrow> ('a \<Rightarrow> status_call) \<Rightarrow> ('s, status_call) step" where
  "or_failing m f = andThen (attempt m) (\<lambda>r. case r of
     Ok x \<Rightarrow> ret (f x)
   | Err e \<Rightarrow> ret (Answered (Some (status_only FAILING)) (Some e))
   | Panic p \<Rightarrow> lift_res (Panic p))"

fun status_step :: "PullerServer \<Rightarrow> status_call \<Rightarrow> (os, status_call) step" where
  "status_step S Asked = andThen (attempt (rt_RuntimeStatus (ps_runtime S))) (\<lambda>r. case r of
     Ok rsr \<Rightarrow> ret (if rs_Status rsr \<noteq> READY then Answered (Some rsr) None else Listing rsr)
   | Err e \<Rightarrow> ret (Answered None (Some e))
   | Panic p \<Rightarrow> lift_res (Panic p))"
| "status_step S (Listing rsr) = or_failing (ListModels (ps_config S)) (Purging rsr)"
| "status_step S (Purging rsr []) = ret (Answered (Some rsr) None)"
| "status_step S (Purging rsr (m # ms)) =
     (if purge_excluded m then ret (Purging rsr ms)
      else or_failing (unload_tolerant (is_NotFound (ps_ext S)) (\<lambda>e. e) (rt_UnloadModel (ps_runtime S) m)) (\<lambda>_. Cleaning rsr m ms))"
| "status_step S (Cleaning rsr m ms) = or_failing (CleanupModel (ps_ext S) (ps_config S) m) (\<lambda>_. Purging rsr ms)"
| "status_step S (Answered r e) = ret (Answered r e)"

section \<open>Alone, the steps are the handler\<close>

definition status_next :: "PullerServer \<Rightarrow> status_call \<times> os \<Rightarrow> status_call \<times> os \<Rightarrow> bool" where
  "status_next S c d \<longleftrightarrow> \<not> answered (fst c) \<and> status_step S (fst c) (snd c) = (Ok (fst d), snd d)"

abbreviation status_run :: "PullerServer \<Rightarrow> status_call \<times> os \<Rightarrow> status_call \<times> os \<Rightarrow> bool" where
  "status_run S \<equiv> (status_next S)\<^sup>*\<^sup>*"

lemma status_run_step: "status_step S p s = (Ok q, u) \<Longrightarrow> \<not> answered p \<Longrightarrow> status_run S (q, u) d \<Longrightarrow> status_run S (p, s) d"
  by (rule converse_rtranclp_into_rtranclp [of _ _ "(q, u)"]) (simp_all add: status_next_def)

lemma or_failing_simps:
  "m s = (Ok x, u) \<Longrightarrow> or_failing m f s = (Ok (f x), u)"
  "m s = (Err e, u) \<Longrightarrow> or_failing m f s = (Ok (Answered (Some (status_only FAILING)) (Some e)), u)"
  "m s = (Panic p, u) \<Longrightarrow> or_failing m f s = (Panic p, u)"
  by (simp_all add: or_failing_def andThen_def attempt_def)

lemma or_failing_Ok_iff:
  "or_failing m f s = (Ok q, u) \<longleftrightarrow> (\<exists>x. m s = (Ok x, u) \<and> q = f x) \<or> (\<exists>e. m s = (Err e, u) \<and> q = Answered (Some (status_only FAILING)) (Some e))"
  by (cases "m s"; cases "fst (m s)") (auto simp: or_failing_simps)

definition purge_answer :: "RuntimeStatusResponse \<Rightarrow> unit res \<Rightarrow> status_call" where
  "purge_answer rsr r = (case r of Err e \<Rightarrow> Answered (Some (status_only FAILING)) (Some e) | _ \<Rightarrow> Answered (Some rsr) None)"

lemma unload_models_steps:
  "unload_models S ms s = (r, u) \<Longrightarrow> (\<And>p. r \<noteq> Panic p) \<Longrightarrow> status_run S (Purging rsr ms, s) (purge_answer rsr r, u)"
proof (induction ms arbitrary: s)
  case Nil
  then show ?case by (auto simp: purge_answer_def intro!: status_run_step [of S "Purging rsr []"])
next
  case (Cons m ms)
  show ?case
  proof (cases "purge_excluded m")
    case True
    with Cons show ?thesis by (intro status_run_step [of S "Purging rsr (m # ms)"]) simp_all
  next
    case False
    let ?un = "unload_tolerant (is_NotFound (ps_ext S)) (\<lambda>e. e) (rt_UnloadModel (ps_runtime S) m)" and ?cl = "CleanupModel (ps_ext S) (ps_config S) m"
    obtain q v where un: "?un s = (q, v)" by fastforce
    show ?thesis
    proof (cases q)
      case (Ok x)
      obtain q' w where cl: "?cl v = (q', w)" by fastforce
      have 1: "status_run S (Cleaning rsr m ms, v) d \<Longrightarrow> status_run S (Purging rsr (m # ms), s) d" for d
        by (rule status_run_step) (use False un Ok in \<open>simp_all add: or_failing_simps\<close>)
      have rest: "andThen ?cl (\<lambda>_. unload_models S ms) v = (r, u)" using Cons.prems(1) False un Ok by (simp add: andThen_def)
      show ?thesis
      proof (cases q')
        case (Ok y)
        then have "unload_models S ms w = (r, u)" using rest cl by (simp add: andThen_def)
        from Cons.IH [OF this Cons.prems(2)] show ?thesis
          by (intro 1 status_run_step [of S "Cleaning rsr m ms"]) (use cl Ok in \<open>simp_all add: or_failing_simps\<close>)
      next
        case (Err e)
        then have "r = Err e" "u = w" using rest cl by (simp_all add: andThen_def)
        then show ?thesis
          by (intro 1 status_run_step [of S "Cleaning rsr m ms"]) (use cl Err in \<open>auto simp: or_failing_simps purge_answer_def\<close>)
      qed (use rest cl Cons.prems(2) in \<open>auto simp: andThen_def\<close>)
    next
      case (Err e)
      then have "r = Err e" "u = v" using Cons.prems(1) False un by (simp_all add: andThen_def)
      then show ?thesis
        by (intro status_run_step [of S "Purging rsr (m # ms)"]) (use un Err False in \<open>auto simp: or_failing_simps purge_answer_def\<close>)
    qed (use Cons.prems False un in \<open>auto simp: andThen_def\<close>)
  qed
qed

text \<open>When nothing comes between its steps, a status request does what the handler \<open>ps_RuntimeStatus\<close> does.\<close>

lemma status_alone:
  assumes "ps_RuntimeStatus S s = (Ok (r, e), u)"
  shows "status_run S (Asked, s) (Answered r e, u)"
proof -
  obtain q v where q: "rt_RuntimeStatus (ps_runtime S) s = (q, v)" by fastforce
  show ?thesis
  proof (cases q)
    case (Ok rsr)
    show ?thesis
    proof (cases "rs_Status rsr = READY")
      case True
      obtain l w where l: "ListModels (ps_config S) v = (l, w)" by fastforce
      have 1: "status_run S (Listing rsr, v) d \<Longrightarrow> status_run S (Asked, s) d" for d
        by (rule status_run_step) (use q Ok True in \<open>simp_all add: andThen_def attempt_def\<close>)
      show ?thesis
      proof (cases l)
        case (Ok ms)
        obtain x u' where x: "unload_models S ms w = (x, u')" by fastforce
        have "x \<noteq> Panic p" "purge_answer rsr x = Answered r e \<and> u' = u" for p
          using assms q \<open>q = Ok rsr\<close> True l Ok x by (cases x; simp add: ps_RuntimeStatus_def unloadAll_def andThen_def attempt_def purge_answer_def)+
        with unload_models_steps [OF x, of rsr] have "status_run S (Purging rsr ms, w) (Answered r e, u)" by metis
        then show ?thesis by (intro 1 status_run_step [of S "Listing rsr"]) (use l Ok in \<open>simp_all add: or_failing_simps\<close>)
      next
        case (Err e')
        then show ?thesis using assms q \<open>q = Ok rsr\<close> True l
          by (intro 1 status_run_step [of S "Listing rsr"]) (auto simp: or_failing_simps ps_RuntimeStatus_def unloadAll_def andThen_def attempt_def)
      qed (use assms q \<open>q = Ok rsr\<close> True l in \<open>simp add: ps_RuntimeStatus_def unloadAll_def andThen_def attempt_def\<close>)
    next
      case False
      then show ?thesis using assms q Ok
        by (intro status_run_step [of S Asked]) (auto simp: ps_RuntimeStatus_def andThen_def attempt_def)
    qed
  next
    case (Err e')
    then show ?thesis using assms q
      by (intro status_run_step [of S Asked]) (auto simp: ps_RuntimeStatus_def andThen_def attempt_def)
  qed (use assms q in \<open>simp add: ps_RuntimeStatus_def andThen_def attempt_def\<close>)
qed

section \<open>A status request ends\<close>

text \<open>
  The steps that a request has before it, by its stage and then by the models that are left: each step makes them fewer, whatever runs in between.
\<close>

fun status_rank :: "status_call \<Rightarrow> nat \<times> nat" where
  "status_rank Asked = (2, 0)"
| "status_rank (Listing rsr) = (1, 0)"
| "status_rank (Purging rsr ms) = (0, 2 * length ms + 1)"
| "status_rank (Cleaning rsr m ms) = (0, 2 * length ms + 2)"
| "status_rank (Answered r e) = (0, 0)"

abbreviation fewer_steps :: "(status_call \<times> status_call) set" where
  "fewer_steps \<equiv> inv_image (less_than <*lex*> less_than) status_rank"

lemma wf_fewer_steps: "wf fewer_steps"
  by (simp add: wf_lex_prod)

lemma status_step_decreases: "status_step S p s = (Ok q, u) \<Longrightarrow> \<not> answered p \<Longrightarrow> (q, p) \<in> fewer_steps"
  by (cases "(S, p)" rule: status_step.cases)
    (auto simp: or_failing_Ok_iff andThen_Ok_iff attempt_def split: prod.splits res.splits if_splits)

lemma or_failing_no_error: "fst (or_failing m f s) \<noteq> Err e"
  by (cases "m s"; cases "fst (m s)") (simp_all add: or_failing_simps)

lemma status_step_no_error: "fst (status_step S p s) \<noteq> Err e"
proof (cases "(S, p)" rule: status_step.cases)
  case 1
  then show ?thesis
    by (cases "rt_RuntimeStatus (ps_runtime S) s"; cases "fst (rt_RuntimeStatus (ps_runtime S) s)") (simp_all add: andThen_def attempt_def)
qed (simp_all add: or_failing_no_error)

text \<open>Left to itself a request comes to its answer, or to a panic, which ends the puller.\<close>

lemma status_request_ends: "\<exists>q u. status_run S (p, s) (q, u) \<and> (answered q \<or> (\<exists>m. fst (status_step S q u) = Panic m))"
proof (induction p arbitrary: s rule: wf_induct_rule [OF wf_fewer_steps])
  case (1 p)
  show ?case
  proof (cases "answered p \<or> (\<exists>m. fst (status_step S p s) = Panic m)")
    case False
    then obtain q u where q: "status_step S p s = (Ok q, u)"
      using status_step_no_error [of S p s] by (cases "status_step S p s"; cases "fst (status_step S p s)") auto
    then have "(q, p) \<in> fewer_steps" using False by (intro status_step_decreases [OF q]) simp
    from 1 [OF this, of u] show ?thesis using status_run_step [OF q] False by blast
  qed blast
qed

section \<open>What a step touches\<close>

text \<open>The model whose files a step may remove; the models that are still to be purged have names of directory entries.\<close>

fun status_model :: "status_call \<Rightarrow> string option" where
  "status_model (Purging rsr (m # ms)) = (if purge_excluded m then None else Some m)"
| "status_model (Cleaning rsr m ms) = Some m"
| "status_model p = None"

fun status_ok :: "status_call \<Rightarrow> bool" where
  "status_ok (Purging rsr ms) = list_all plain_name ms"
| "status_ok (Cleaning rsr m ms) = (list_all plain_name (m # ms) \<and> \<not> purge_excluded m)"
| "status_ok p = True"

lemma adapter_subdir_excluded: "purge_excluded (adapter_subdir A)"
  by (cases A) (simp_all add: purge_excluded_def PurgeExcludePrefixes_def has_prefix_def ovmsModelSubdir_def tritonModelSubdir_def mlserverModelSubdir_def
    torchServeModelStoreDirName_def)

lemma not_excluded_model_id: "plain_name m \<Longrightarrow> \<not> purge_excluded m \<Longrightarrow> model_id A m"
  using adapter_subdir_excluded [of A] by (auto simp: model_id_def)

lemma status_model_id: "status_ok p \<Longrightarrow> status_model p = Some m \<Longrightarrow> model_id A m"
  by (cases p rule: status_model.cases) (auto split: if_splits intro: not_excluded_model_id)

text \<open>Nothing appears and nothing changes but that it goes.\<close>

definition only_removed :: "fs \<Rightarrow> fs \<Rightarrow> bool" where
  "only_removed t t' \<longleftrightarrow> (\<forall>q. get t' q = None \<or> get t' q = get t q)"

lemma only_removed_refl [simp]: "only_removed t t"
  by (simp add: only_removed_def)

lemma only_removed_below: "removed_below d t t' \<Longrightarrow> only_removed t t'"
  unfolding only_removed_def using removed_below_get by blast

definition status_touched :: "adapter \<Rightarrow> fpath \<Rightarrow> status_call \<Rightarrow> fpath \<Rightarrow> bool" where
  "status_touched A root p q \<longleftrightarrow> p = Asked \<or> (\<exists>m. status_model p = Some m \<and> own_path A root m q)"

lemma removed_status:
  assumes "volume_ok A root t" "removed_below d t t'" "model_id A m" "d = root @ [m] \<or> d = adapted_path A root m"
  shows "volume_ok A root t' \<and> only_removed t t' \<and> touches_only (own_path A root m) t t'"
  using removed_isolated [OF assms] only_removed_below [OF assms(2)] by blast

lemma status_step_isolated:
  assumes "model_server S A root" "volume_ok A root (files s)" "status_ok p" "status_step S p s = (Ok p', u)"
  shows "volume_ok A root (files u) \<and> status_ok p' \<and> only_removed (files s) (files u) \<and> touches_only (status_touched A root p) (files s) (files u)"
proof -
  note ms = model_server_facts [OF assms(1)]
  have same: ?thesis if "files u = files s" "status_ok p'" using that assms(2) by simp
  show ?thesis
  proof (cases p)
    case purging: (Purging rsr names)
    show ?thesis
    proof (cases "names = [] \<or> purge_excluded (hd names)")
      case True
      then show ?thesis using purging assms(2-4) by (cases names) auto
    next
      case False
      then obtain m ms' where 1: "p = Purging rsr (m # ms')" "\<not> purge_excluded m" using purging by (cases names) auto
      note False = 1(2)
      let ?un = "rt_UnloadModel (ps_runtime S) m"
      have m: "plain_name m" using 1(1) assms(3) by simp
      have ok: "status_ok p'" using assms(3,4) 1 False by (auto simp: or_failing_Ok_iff)
      have u: "u = snd (?un s)"
        using assms(4) 1 False unload_tolerant_snd [of "is_NotFound (ps_ext S)" "\<lambda>e. e" ?un s] by (auto simp: or_failing_Ok_iff)
      have "removed_below (adapted_path A root m) (files s) (files u)" using adapter_unload_removes [OF assms(1,2) m] ms(8) u by simp
      from removed_status [OF assms(2) this not_excluded_model_id [OF m False]] ok show ?thesis
        using 1 False by (auto simp: touches_only_def status_touched_def)
    qed
  next
    case 2: (Cleaning rsr m ms')
    then have m: "plain_name m" "\<not> purge_excluded m" using assms(3) by simp_all
    have ok: "status_ok p'" using assms(3,4) 2 by (auto simp: or_failing_Ok_iff)
    have "u = snd (CleanupModel (ps_ext S) (ps_config S) m s)" using assms(4) 2 by (auto simp: or_failing_Ok_iff)
    then have "removed_below (root @ [m]) (files s) (files u)" using puller_cleanup_removes [OF assms(1,2) m(1)] by simp
    from removed_status [OF assms(2) this not_excluded_model_id [OF m]] ok show ?thesis
      using 2 by (auto simp: touches_only_def status_touched_def)
  next
    case 3: Asked
    have "u = snd (adapter_status (standalone A) s)" "status_ok p'"
      using assms(4) 3 by (auto simp: ms(10) andThen_Ok_iff attempt_def split: prod.splits res.splits)
    then have sw: "swept (root @ [adapter_subdir A]) (files s) (files u)" using adapter_status_sweeps [OF assms(1,2)] by simp
    then have "only_removed (files s) (files u)" unfolding only_removed_def using swept_get by blast
    then show ?thesis using volume_swept [OF assms(2) sw] \<open>status_ok p'\<close> 3 by (simp add: status_touched_def touches_only_def)
  next
    case 4: (Listing rsr)
    obtain r where r: "ListModels (ps_config S) s = (r, u)" using assms(4) 4 by (auto simp: or_failing_Ok_iff)
    then have "u = snd (os_ReadDir (RootModelDir (ps_config S)) s)"
      by (auto simp: ListModels_def andThen_def split: prod.splits res.splits)
    then have f: "files u = files s" by (simp add: os_ReadDir_files)
    have "list_all plain_name ms'" if Ok: "r = Ok ms'" for ms'
    proof -
      obtain es v where es: "os_ReadDir (path_str root) s = (Ok es, v)" "ms' = map fi_name es"
        using r Ok ms(2) by (auto simp: ListModels_def andThen_Ok_iff)
      have "es = dir_entries (files s) root"
        using es(1) resolve_real_dirs [OF volume_root [OF assms(2)] ms(5)]
        by (auto simp: os_ReadDir_def lookup_def syscall_Ok_iff split: option.splits if_splits)
      then show ?thesis using assms(2) es(2) by (auto simp: dir_entries_names list_all_iff entry_names_set volume_ok_def)
    qed
    then have "status_ok p'" using assms(4) 4 r by (auto simp: or_failing_Ok_iff)
    with same f show ?thesis by simp
  qed (use assms(3,4) same in auto)
qed

end
