(* ===== verification/ModelState.thy ===== *)
theory ModelState
  imports Prelude
begin

text \<open>
  The model state manager of the puller server
  (\<open>model-serving-puller/server/modelstate.go\<close>).

  Callers of \<open>loadModel\<close> and \<open>unloadModel\<close> put a request on the buffered channel \<open>m.requests\<close> and wait for
  its result. One goroutine (\<open>modelStateManager.execute\<close>) moves requests to a queue per model,
  starting one worker goroutine (\<open>modelData.execute\<close>) per model with outstanding requests,
  and hands results back. The goroutines interleave, so the component is a step relation:
  one rule per channel operation of each goroutine, with the statements between two channel operations
  done in the same step. A channel is a list with its capacity; a rule that sends on a full channel is not enabled.
\<close>

section \<open>State\<close>

definition StateManagerChannelLength :: nat where
  "StateManagerChannelLength = 25"

datatype grpc_kind = KLoad | KUnload | KOther

text \<open>
  A \<open>request\<close>. Its identity \<open>rid\<close> stands for the channel \<open>c\<close> that \<open>submitRequest\<close> makes for it, so that it
  also names the waiting caller.
\<close>

record request =
  rid :: nat
  modelId :: string
  grpcRequest :: grpc_kind

text \<open>The dynamic type of \<open>grpcResponse\<close> with its pointer (\<open>None\<close> is a nil pointer), or the nil interface.\<close>

datatype 'v gresp = RespLoad "'v option" | RespUnload "'v option" | RespNone

record 'v rslt =
  res_rid :: nat
  res_model :: string
  res_resp :: "'v gresp"
  res_err :: "goerr option"

text \<open>Where a worker goroutine is: at its \<open>range\<close> statement, in a call, at the send on \<open>d.results\<close>, or returned.\<close>

datatype 'v wpc = WRecv | WExec request | WSend "'v rslt" | WDone

text \<open>A worker with the channel \<open>d.requests\<close> it ranges over.\<close>

record 'v worker =
  w_model :: string
  w_queue :: "request list"
  w_closed :: bool
  w_pc :: "'v wpc"

text \<open>
  Where the manager goroutine is: at its \<open>select\<close>, at \<open>data.requests <- req\<close>, at \<open>result.c <- result\<close>, or returned.
\<close>

datatype 'v mpc = MSelect | MSend nat request | MReply "'v rslt" | MExit

text \<open>A caller of \<open>submitRequest\<close>: not started, waiting in the inner \<open>select\<close>, or returned.\<close>

datatype 'v caller = NotCalled | Waiting | Refused | Cancelled | Got "'v rslt"

text \<open>An entry of \<open>m.data\<close>: the worker started for it and the reference count.\<close>

record mdata =
  md_worker :: nat
  refCount :: int

text \<open>
  The whole state. \<open>accepted\<close> and \<open>started\<close> are history: the requests in the order in which they were put
  on \<open>m.requests\<close>, and in the order in which their execution began.
\<close>

record 'v mstate =
  m_requests :: "request list"
  m_closed :: bool
  m_results :: "'v rslt list"
  m_data :: "string \<Rightarrow> mdata option"
  m_pc :: "'v mpc"
  m_nilchan :: bool
  workers :: "nat \<Rightarrow> 'v worker option"
  next_worker :: nat
  callers :: "nat \<Rightarrow> 'v caller"
  accepted :: "request list"
  started :: "request list"

text \<open>\<open>newModelStateManager\<close>: empty channels and map, and the manager goroutine at its \<open>select\<close>.\<close>

definition newModelStateManager :: "'v mstate" where
  "newModelStateManager = \<lparr>m_requests = [], m_closed = False, m_results = [], m_data = Map.empty,
     m_pc = MSelect, m_nilchan = False, workers = Map.empty, next_worker = 0,
     callers = (\<lambda>_. NotCalled), accepted = [], started = []\<rparr>"

section \<open>Operations\<close>

text \<open>The outer \<open>select\<close> of \<open>submitRequest\<close>: the request is put on the channel if it has room and refused otherwise.\<close>

definition submitRequest :: "request \<Rightarrow> 'v mstate \<Rightarrow> 'v mstate" where
  "submitRequest r s =
     (if length (m_requests s) < StateManagerChannelLength
      then s\<lparr>m_requests := m_requests s @ [r], callers := (callers s)(rid r := Waiting),
             accepted := accepted s @ [r]\<rparr>
      else s\<lparr>callers := (callers s)(rid r := Refused)\<rparr>)"

text \<open>What the caller of \<open>submitRequest\<close> gets: response and error, once it has returned.\<close>

fun submit_result :: "'v caller \<Rightarrow> ('v gresp \<times> goerr option) option" where
  "submit_result (Got x) = Some (res_resp x, res_err x)"
| "submit_result Cancelled = Some (RespNone, Some (ErrMsg ''Context cancelled while waiting for response'' []))"
| "submit_result Refused = Some (RespNone, Some (ErrMsg ''Unable to send load/unload model request'' []))"
| "submit_result Waiting = None"
| "submit_result NotCalled = None"

text \<open>The type assertions of \<open>modelStateManager.loadModel\<close> and \<open>unloadModel\<close> on the result.\<close>

fun sm_loadModel :: "'v gresp \<times> goerr option \<Rightarrow> 'v option \<times> goerr option" where
  "sm_loadModel (RespLoad v, e) = (v, e)"
| "sm_loadModel (_, e) = (None, e)"

fun sm_unloadModel :: "'v gresp \<times> goerr option \<Rightarrow> 'v option \<times> goerr option" where
  "sm_unloadModel (RespUnload v, e) = (v, e)"
| "sm_unloadModel (_, e) = (None, e)"

text \<open>
  The manager's \<open>case req, ok := <-reqChan\<close> with \<open>ok\<close>: look the model up, making its entry and its worker if
  there is none, and count the request. The send on \<open>data.requests\<close> is the next step.
\<close>

definition mgr_receive :: "request \<Rightarrow> request list \<Rightarrow> 'v mstate \<Rightarrow> 'v mstate" where
  "mgr_receive r rest s =
     (case m_data s (modelId r) of
        Some d \<Rightarrow>
          s\<lparr>m_requests := rest,
            m_data := (m_data s)(modelId r \<mapsto> d\<lparr>refCount := refCount d + 1\<rparr>),
            m_pc := MSend (md_worker d) r\<rparr>
      | None \<Rightarrow>
          s\<lparr>m_requests := rest,
            m_data := (m_data s)(modelId r \<mapsto> \<lparr>md_worker = next_worker s, refCount = 1\<rparr>),
            workers := (workers s)(next_worker s \<mapsto>
              \<lparr>w_model = modelId r, w_queue = [], w_closed = False, w_pc = WRecv\<rparr>),
            next_worker := Suc (next_worker s),
            m_pc := MSend (next_worker s) r\<rparr>)"

text \<open>After the \<open>select\<close>: the loop ends when the request channel is nil and no model has an entry.\<close>

definition mgr_loop_end :: "'v mstate \<Rightarrow> 'v mstate" where
  "mgr_loop_end s = (if m_nilchan s \<and> dom (m_data s) = {} then s\<lparr>m_pc := MExit\<rparr> else s\<lparr>m_pc := MSelect\<rparr>)"

text \<open>
  The statements after \<open>result.c <- result\<close>: uncount the request, and close the model's queue and
  delete its entry when the count is not positive.
\<close>

definition close_queue :: "nat \<Rightarrow> 'v mstate \<Rightarrow> 'v mstate" where
  "close_queue g s = (case workers s g of
      Some w \<Rightarrow> s\<lparr>workers := (workers s)(g \<mapsto> w\<lparr>w_closed := True\<rparr>)\<rparr>
    | None \<Rightarrow> s)"

definition mgr_replied :: "'v rslt \<Rightarrow> 'v mstate \<Rightarrow> 'v mstate" where
  "mgr_replied x s =
     (case m_data s (res_model x) of
        None \<Rightarrow> s
      | Some d \<Rightarrow>
          (if refCount d - 1 \<le> 0
           then close_queue (md_worker d) (s\<lparr>m_data := (m_data s)(res_model x := None)\<rparr>)
           else s\<lparr>m_data := (m_data s)(res_model x \<mapsto> d\<lparr>refCount := refCount d - 1\<rparr>)\<rparr>))"

text \<open>
  The result that \<open>modelData.execute\<close> builds for a request. \<open>serve\<close> says what \<open>d.m.loadModel\<close> and
  \<open>d.m.unloadModel\<close> can return for it.
\<close>

inductive worker_result ::
  "(request \<Rightarrow> 'v option \<Rightarrow> goerr option \<Rightarrow> bool) \<Rightarrow> request \<Rightarrow> 'v rslt \<Rightarrow> bool"
  for serve where
  wr_load: "grpcRequest r = KLoad \<Longrightarrow> serve r v e \<Longrightarrow>
    worker_result serve r \<lparr>res_rid = rid r, res_model = modelId r, res_resp = RespLoad v, res_err = e\<rparr>"
| wr_unload: "grpcRequest r = KUnload \<Longrightarrow> serve r v e \<Longrightarrow>
    worker_result serve r \<lparr>res_rid = rid r, res_model = modelId r, res_resp = RespUnload v, res_err = e\<rparr>"
| wr_other: "grpcRequest r = KOther \<Longrightarrow>
    worker_result serve r \<lparr>res_rid = rid r, res_model = modelId r, res_resp = RespNone,
      res_err = Some (ErrMsg ''unrecognized request type: %T'' [])\<rparr>"

section \<open>Steps\<close>

inductive sm_step ::
  "(request \<Rightarrow> 'v option \<Rightarrow> goerr option \<Rightarrow> bool) \<Rightarrow> 'v mstate \<Rightarrow> 'v mstate \<Rightarrow> bool"
  for serve where
  submit: "callers s (rid r) = NotCalled \<Longrightarrow> \<not> m_closed s \<Longrightarrow> sm_step serve s (submitRequest r s)"
| cancel: "callers s i = Waiting \<Longrightarrow> sm_step serve s (s\<lparr>callers := (callers s)(i := Cancelled)\<rparr>)"
| close: "sm_step serve s (s\<lparr>m_closed := True\<rparr>)"
| receive: "m_pc s = MSelect \<Longrightarrow> \<not> m_nilchan s \<Longrightarrow> m_requests s = r # rest \<Longrightarrow>
    sm_step serve s (mgr_receive r rest s)"
| receive_closed: "m_pc s = MSelect \<Longrightarrow> \<not> m_nilchan s \<Longrightarrow> m_closed s \<Longrightarrow> m_requests s = [] \<Longrightarrow>
    sm_step serve s (mgr_loop_end (s\<lparr>m_nilchan := True\<rparr>))"
| push: "m_pc s = MSend g r \<Longrightarrow> workers s g = Some w \<Longrightarrow>
    length (w_queue w) < StateManagerChannelLength \<Longrightarrow>
    sm_step serve s (mgr_loop_end (s\<lparr>workers := (workers s)(g \<mapsto> w\<lparr>w_queue := w_queue w @ [r]\<rparr>)\<rparr>))"
| result: "m_pc s = MSelect \<Longrightarrow> m_results s = x # rest \<Longrightarrow>
    sm_step serve s (s\<lparr>m_results := rest, m_pc := MReply x\<rparr>)"
| reply: "m_pc s = MReply x \<Longrightarrow> callers s (res_rid x) = Waiting \<Longrightarrow>
    sm_step serve s (mgr_loop_end (mgr_replied x (s\<lparr>callers := (callers s)(res_rid x := Got x)\<rparr>)))"
| take: "workers s g = Some w \<Longrightarrow> w_pc w = WRecv \<Longrightarrow> w_queue w = r # rest \<Longrightarrow>
    sm_step serve s (s\<lparr>workers := (workers s)(g \<mapsto> w\<lparr>w_queue := rest, w_pc := WExec r\<rparr>),
      started := started s @ [r]\<rparr>)"
| execute: "workers s g = Some w \<Longrightarrow> w_pc w = WExec r \<Longrightarrow> worker_result serve r x \<Longrightarrow>
    sm_step serve s (s\<lparr>workers := (workers s)(g \<mapsto> w\<lparr>w_pc := WSend x\<rparr>)\<rparr>)"
| report: "workers s g = Some w \<Longrightarrow> w_pc w = WSend x \<Longrightarrow>
    length (m_results s) < StateManagerChannelLength \<Longrightarrow>
    sm_step serve s (s\<lparr>workers := (workers s)(g \<mapsto> w\<lparr>w_pc := WRecv\<rparr>), m_results := m_results s @ [x]\<rparr>)"
| finish: "workers s g = Some w \<Longrightarrow> w_pc w = WRecv \<Longrightarrow> w_queue w = [] \<Longrightarrow> w_closed w \<Longrightarrow>
    sm_step serve s (s\<lparr>workers := (workers s)(g \<mapsto> w\<lparr>w_pc := WDone\<rparr>)\<rparr>)"

inductive sm_reach ::
  "(request \<Rightarrow> 'v option \<Rightarrow> goerr option \<Rightarrow> bool) \<Rightarrow> 'v mstate \<Rightarrow> bool" for serve where
  init: "sm_reach serve newModelStateManager"
| step: "sm_reach serve s \<Longrightarrow> sm_step serve s t \<Longrightarrow> sm_reach serve t"


inductive_cases sm_stepE: "sm_step serve s t"

section \<open>Reference counts and queues\<close>

text \<open>The live worker of a model: the one its entry of \<open>m.data\<close> points to.\<close>

definition live :: "'v mstate \<Rightarrow> string \<Rightarrow> 'v worker option" where
  "live s m = (case m_data s m of None \<Rightarrow> None | Some d \<Rightarrow> workers s (md_worker d))"

fun busy :: "'v wpc \<Rightarrow> nat" where
  "busy WRecv = 0"
| "busy WDone = 0"
| "busy (WExec r) = 1"
| "busy (WSend x) = 1"

definition worker_load :: "'v mstate \<Rightarrow> string \<Rightarrow> nat" where
  "worker_load s m = (case live s m of None \<Rightarrow> 0 | Some w \<Rightarrow> length (w_queue w) + busy (w_pc w))"

fun mgr_load :: "'v mpc \<Rightarrow> string \<Rightarrow> nat" where
  "mgr_load (MSend g r) m = (if modelId r = m then 1 else 0)"
| "mgr_load (MReply x) m = (if res_model x = m then 1 else 0)"
| "mgr_load MSelect m = 0"
| "mgr_load MExit m = 0"

definition result_load :: "'v mstate \<Rightarrow> string \<Rightarrow> nat" where
  "result_load s m = length (filter (\<lambda>x. res_model x = m) (m_results s))"

text \<open>The requests of a model that the manager has taken from its channel and not yet answered.\<close>

definition outstanding :: "'v mstate \<Rightarrow> string \<Rightarrow> nat" where
  "outstanding s m = worker_load s m + mgr_load (m_pc s) m + result_load s m"

definition refs :: "'v mstate \<Rightarrow> string \<Rightarrow> int" where
  "refs s m = (case m_data s m of None \<Rightarrow> 0 | Some d \<Rightarrow> refCount d)"

definition worker_ok :: "'v worker \<Rightarrow> bool" where
  "worker_ok w \<longleftrightarrow> (\<forall>r \<in> set (w_queue w). modelId r = w_model w) \<and>
     (\<forall>r. w_pc w = WExec r \<longrightarrow> modelId r = w_model w) \<and>
     (\<forall>x. w_pc w = WSend x \<longrightarrow> res_model x = w_model w)"

definition retired :: "'v worker \<Rightarrow> bool" where
  "retired w \<longleftrightarrow> w_queue w = [] \<and> w_closed w \<and> (w_pc w = WRecv \<or> w_pc w = WDone)"

definition workers_inv :: "'v mstate \<Rightarrow> bool" where
  "workers_inv s \<longleftrightarrow>
     (\<forall>m d. m_data s m = Some d \<longrightarrow>
        (\<exists>w. workers s (md_worker d) = Some w \<and> w_model w = m \<and> \<not> w_closed w \<and> w_pc w \<noteq> WDone)) \<and>
     (\<forall>g w. workers s g = Some w \<longrightarrow> worker_ok w \<and>
        (retired w \<or> (\<exists>d. m_data s (w_model w) = Some d \<and> md_worker d = g))) \<and>
     (\<forall>g. next_worker s \<le> g \<longrightarrow> workers s g = None) \<and>
     (\<forall>g r. m_pc s = MSend g r \<longrightarrow> (\<exists>d. m_data s (modelId r) = Some d \<and> md_worker d = g))"

definition count_inv :: "'v mstate \<Rightarrow> bool" where
  "count_inv s \<longleftrightarrow> (\<forall>m. refs s m = int (outstanding s m)) \<and>
     (\<forall>m d. m_data s m = Some d \<longrightarrow> 1 \<le> refCount d)"

lemmas inv_defs = workers_inv_def worker_ok_def retired_def
lemmas count_defs = count_inv_def refs_def outstanding_def worker_load_def result_load_def live_def

lemma workers_inv_init: "workers_inv newModelStateManager"
  by (simp add: inv_defs newModelStateManager_def)

lemma count_inv_init: "count_inv newModelStateManager"
  by (simp add: count_defs newModelStateManager_def)

lemma workers_inv_worker:
  "workers_inv s \<Longrightarrow> workers s g = Some w \<Longrightarrow> worker_ok w"
  by (auto simp: workers_inv_def)

lemma workers_inv_live:
  "workers_inv s \<Longrightarrow> workers s g = Some w \<Longrightarrow> \<not> retired w \<Longrightarrow>
     \<exists>d. m_data s (w_model w) = Some d \<and> md_worker d = g"
  by (auto simp: workers_inv_def)

lemma workers_inv_entry:
  "workers_inv s \<Longrightarrow> m_data s m = Some d \<Longrightarrow>
     \<exists>w. workers s (md_worker d) = Some w \<and> w_model w = m \<and> \<not> w_closed w \<and> w_pc w \<noteq> WDone"
  by (auto simp: workers_inv_def)

text \<open>Two models never share a worker.\<close>

lemma workers_inv_inj:
  "workers_inv s \<Longrightarrow> m_data s m = Some d \<Longrightarrow> m_data s m' = Some d' \<Longrightarrow>
     md_worker d = md_worker d' \<Longrightarrow> m = m'"
  by (metis option.inject workers_inv_entry)

lemma workers_inv_executing:
  assumes inv: "workers_inv s"
    and "workers s g = Some w" "w_pc w = WExec r" "workers s g' = Some w'" "w_pc w' = WExec r'" "modelId r = modelId r'"
  shows "g = g'"
proof -
  have "\<not> retired w" "\<not> retired w'" using assms(3,5) by (simp_all add: retired_def)
  then obtain d d' where "m_data s (w_model w) = Some d" "md_worker d = g"
    "m_data s (w_model w') = Some d'" "md_worker d' = g'"
    using workers_inv_live [OF inv assms(2)] workers_inv_live [OF inv assms(4)] by blast
  moreover have "w_model w = w_model w'"
    using workers_inv_worker [OF inv assms(2)] workers_inv_worker [OF inv assms(4)] assms(3,5,6)
    by (simp add: worker_ok_def)
  ultimately show ?thesis by simp
qed

lemma mgr_loop_end_sel [simp]:
  "m_requests (mgr_loop_end s) = m_requests s"
  "m_results (mgr_loop_end s) = m_results s"
  "m_data (mgr_loop_end s) = m_data s"
  "workers (mgr_loop_end s) = workers s"
  "next_worker (mgr_loop_end s) = next_worker s"
  "callers (mgr_loop_end s) = callers s"
  "accepted (mgr_loop_end s) = accepted s"
  "started (mgr_loop_end s) = started s"
  "m_closed (mgr_loop_end s) = m_closed s"
  "m_nilchan (mgr_loop_end s) = m_nilchan s"
  by (simp_all add: mgr_loop_end_def)

lemma mgr_loop_end_pc: "m_pc (mgr_loop_end s) = MSelect \<or> m_pc (mgr_loop_end s) = MExit"
  by (simp add: mgr_loop_end_def)

lemma mgr_loop_end_load [simp]: "mgr_load (m_pc (mgr_loop_end s)) m = 0"
  by (simp add: mgr_loop_end_def)

lemma mgr_loop_end_not_send [simp]:
  "m_pc (mgr_loop_end s) \<noteq> MSend g r" "m_pc (mgr_loop_end s) \<noteq> MReply x"
  by (simp_all add: mgr_loop_end_def)

text \<open>The entries of \<open>m.data\<close> after a result has been handed to its caller.\<close>

lemma mgr_replied_sel [simp]:
  "m_requests (mgr_replied x s) = m_requests s"
  "m_results (mgr_replied x s) = m_results s"
  "callers (mgr_replied x s) = callers s"
  "accepted (mgr_replied x s) = accepted s"
  "started (mgr_replied x s) = started s"
  "next_worker (mgr_replied x s) = next_worker s"
  "m_pc (mgr_replied x s) = m_pc s"
  "m_closed (mgr_replied x s) = m_closed s"
  "m_nilchan (mgr_replied x s) = m_nilchan s"
  by (auto simp: mgr_replied_def close_queue_def split: option.splits)

lemma workers_invI:
  assumes "\<And>m d. m_data s m = Some d \<Longrightarrow>
      \<exists>w. workers s (md_worker d) = Some w \<and> w_model w = m \<and> \<not> w_closed w \<and> w_pc w \<noteq> WDone"
    and "\<And>g w. workers s g = Some w \<Longrightarrow> worker_ok w"
    and "\<And>g w. workers s g = Some w \<Longrightarrow> \<not> retired w \<Longrightarrow>
      \<exists>d. m_data s (w_model w) = Some d \<and> md_worker d = g"
    and "\<And>g. next_worker s \<le> g \<Longrightarrow> workers s g = None"
    and "\<And>g r. m_pc s = MSend g r \<Longrightarrow> \<exists>d. m_data s (modelId r) = Some d \<and> md_worker d = g"
  shows "workers_inv s"
  unfolding workers_inv_def using assms by blast

lemma workers_inv_fresh: "workers_inv s \<Longrightarrow> next_worker s \<le> g \<Longrightarrow> workers s g = None"
  by (simp add: workers_inv_def)

lemma workers_inv_send:
  "workers_inv s \<Longrightarrow> m_pc s = MSend g r \<Longrightarrow> \<exists>d. m_data s (modelId r) = Some d \<and> md_worker d = g"
  by (simp add: workers_inv_def)

lemma workers_inv_frame:
  assumes "workers_inv s" "m_data t = m_data s" "workers t = workers s"
    "next_worker t = next_worker s" "\<And>g r. m_pc t = MSend g r \<Longrightarrow> m_pc s = MSend g r"
  shows "workers_inv t"
proof (rule workers_invI)
  fix m d assume "m_data t m = Some d"
  with assms show "\<exists>w. workers t (md_worker d) = Some w \<and> w_model w = m \<and> \<not> w_closed w \<and> w_pc w \<noteq> WDone"
    by (metis workers_inv_entry)
next
  fix g w assume "workers t g = Some w"
  with assms show "worker_ok w" by (metis workers_inv_worker)
next
  fix g w assume "workers t g = Some w" "\<not> retired w"
  with assms show "\<exists>d. m_data t (w_model w) = Some d \<and> md_worker d = g" by (metis workers_inv_live)
next
  fix g assume "next_worker t \<le> g"
  with assms show "workers t g = None" by (metis workers_inv_fresh)
next
  fix g r assume "m_pc t = MSend g r"
  with assms show "\<exists>d. m_data t (modelId r) = Some d \<and> md_worker d = g" by (metis workers_inv_send)
qed

text \<open>A step of one worker that keeps its model and its channel.\<close>

lemma workers_inv_upd:
  assumes inv: "workers_inv s" and w: "workers s g = Some w"
    and w': "worker_ok w'" "w_model w' = w_model w" "w_closed w' = w_closed w"
      "w_pc w' = WDone \<Longrightarrow> w_closed w"
      "retired w \<Longrightarrow> \<not> retired w' \<Longrightarrow> \<exists>d. m_data s (w_model w) = Some d \<and> md_worker d = g"
    and t: "m_data t = m_data s" "workers t = (workers s)(g \<mapsto> w')"
      "next_worker t = next_worker s" "\<And>g r. m_pc t = MSend g r \<Longrightarrow> m_pc s = MSend g r"
  shows "workers_inv t"
proof (rule workers_invI)
  fix m d assume d: "m_data t m = Some d"
  with inv t obtain v where v: "workers s (md_worker d) = Some v" "w_model v = m" "\<not> w_closed v" "w_pc v \<noteq> WDone"
    by (metis workers_inv_entry)
  show "\<exists>w. workers t (md_worker d) = Some w \<and> w_model w = m \<and> \<not> w_closed w \<and> w_pc w \<noteq> WDone"
  proof (cases "md_worker d = g")
    case True
    with v w have "v = w" by simp
    with True v w' t show ?thesis by auto
  next
    case False
    with v t show ?thesis by simp
  qed
next
  fix k v assume "workers t k = Some v"
  with inv t w' show "worker_ok v" by (metis fun_upd_apply option.inject workers_inv_worker)
next
  fix k v assume k: "workers t k = Some v" "\<not> retired v"
  show "\<exists>d. m_data t (w_model v) = Some d \<and> md_worker d = k"
  proof (cases "k = g")
    case True
    with k t have v: "v = w'" by simp
    show ?thesis
    proof (cases "retired w")
      case True
      with v k w'(5) t \<open>k = g\<close> w'(2) show ?thesis by simp
    next
      case False
      with workers_inv_live [OF inv w] v t \<open>k = g\<close> w'(2) show ?thesis by simp
    qed
  next
    case False
    with k t inv show ?thesis by (simp add: workers_inv_live)
  qed
next
  fix k assume k: "next_worker t \<le> k"
  with workers_inv_fresh [OF inv] w t have "k \<noteq> g" by auto
  with k workers_inv_fresh [OF inv] t show "workers t k = None" by simp
next
  fix k r assume "m_pc t = MSend k r"
  with inv t show "\<exists>d. m_data t (modelId r) = Some d \<and> md_worker d = k" by (metis workers_inv_send)
qed

lemma workers_inv_receive:
  assumes inv: "workers_inv s"
  shows "workers_inv (mgr_receive r rest s)"
proof (cases "m_data s (modelId r)")
  case None
  let ?g = "next_worker s"
  let ?t = "mgr_receive r rest s"
  let ?w = "\<lparr>w_model = modelId r, w_queue = [], w_closed = False, w_pc = WRecv\<rparr>"
  have t: "m_data ?t = (m_data s)(modelId r \<mapsto> \<lparr>md_worker = ?g, refCount = 1\<rparr>)"
    "workers ?t = (workers s)(?g \<mapsto> ?w)" "next_worker ?t = Suc ?g" "m_pc ?t = MSend ?g r"
    using None by (simp_all add: mgr_receive_def)
  have fresh: "workers s ?g = None" using workers_inv_fresh [OF inv] by simp
  show ?thesis
  proof (rule workers_invI)
    fix m d assume d: "m_data ?t m = Some d"
    show "\<exists>w. workers ?t (md_worker d) = Some w \<and> w_model w = m \<and> \<not> w_closed w \<and> w_pc w \<noteq> WDone"
    proof (cases "m = modelId r")
      case True
      with d t show ?thesis by auto
    next
      case False
      with d t have "m_data s m = Some d" by simp
      from workers_inv_entry [OF inv this] fresh t show ?thesis by auto
    qed
  next
    fix g w assume "workers ?t g = Some w"
    with t(2) have "workers s g = Some w \<or> w = ?w" by (auto split: if_splits)
    with workers_inv_worker [OF inv, of g w] show "worker_ok w" by (auto simp: worker_ok_def)
  next
    fix g w assume w: "workers ?t g = Some w" "\<not> retired w"
    show "\<exists>d. m_data ?t (w_model w) = Some d \<and> md_worker d = g"
    proof (cases "g = ?g")
      case True
      with w(1) t(2) have "w_model w = modelId r" by auto
      with True t(1) show ?thesis by simp
    next
      case False
      with w t(2) have "workers s g = Some w" by simp
      with workers_inv_live [OF inv this w(2)] obtain d
        where d: "m_data s (w_model w) = Some d" "md_worker d = g" by blast
      with None have "w_model w \<noteq> modelId r" by auto
      with d t(1) show ?thesis by simp
    qed
  next
    fix g assume "next_worker ?t \<le> g"
    with t(2,3) workers_inv_fresh [OF inv, of g] show "workers ?t g = None" by simp
  next
    fix g q assume "m_pc ?t = MSend g q"
    with t show "\<exists>d. m_data ?t (modelId q) = Some d \<and> md_worker d = g" by simp
  qed
next
  case (Some d)
  let ?t = "mgr_receive r rest s"
  have t: "m_data ?t = (m_data s)(modelId r \<mapsto> d\<lparr>refCount := refCount d + 1\<rparr>)"
    "workers ?t = workers s" "next_worker ?t = next_worker s" "m_pc ?t = MSend (md_worker d) r"
    using Some by (simp_all add: mgr_receive_def)
  show ?thesis
  proof (rule workers_invI)
    fix m d' assume "m_data ?t m = Some d'"
    with t Some workers_inv_entry [OF inv, of m d'] workers_inv_entry [OF inv Some]
    show "\<exists>w. workers ?t (md_worker d') = Some w \<and> w_model w = m \<and> \<not> w_closed w \<and> w_pc w \<noteq> WDone"
      by (auto split: if_splits)
  next
    fix g w assume "workers ?t g = Some w"
    with t workers_inv_worker [OF inv, of g w] show "worker_ok w" by simp
  next
    fix g w assume "workers ?t g = Some w" "\<not> retired w"
    with t Some workers_inv_live [OF inv, of g w] show "\<exists>d. m_data ?t (w_model w) = Some d \<and> md_worker d = g"
      by auto
  next
    fix g assume "next_worker ?t \<le> g"
    with t workers_inv_fresh [OF inv, of g] show "workers ?t g = None" by simp
  next
    fix g q assume "m_pc ?t = MSend g q"
    with t show "\<exists>d. m_data ?t (modelId q) = Some d \<and> md_worker d = g" by auto
  qed
qed

lemma worker_load_upd:
  assumes inv: "workers_inv s" and w: "workers s g = Some w"
    and t: "m_data t = m_data s" "workers t = (workers s)(g \<mapsto> w')"
  shows "worker_load t m =
    (if m = w_model w \<and> (\<exists>d. m_data s m = Some d \<and> md_worker d = g)
     then length (w_queue w') + busy (w_pc w') else worker_load s m)"
proof (cases "\<exists>d. m_data s m = Some d \<and> md_worker d = g")
  case True
  then obtain d where d: "m_data s m = Some d" "md_worker d = g" by blast
  with workers_inv_entry [OF inv d(1)] w have "m = w_model w" by auto
  with d t show ?thesis by (simp add: worker_load_def live_def)
next
  case False
  then show ?thesis using t by (auto simp: worker_load_def live_def split: option.splits)
qed

lemma worker_load_frame:
  "m_data t = m_data s \<Longrightarrow> workers t = workers s \<Longrightarrow> worker_load t m = worker_load s m"
  by (cases "m_data s m") (simp_all add: worker_load_def live_def)

lemma worker_load_live:
  assumes "workers_inv s" "workers s g = Some w" "\<not> retired w"
  shows "worker_load s (w_model w) = length (w_queue w) + busy (w_pc w)"
    and "\<exists>d. m_data s (w_model w) = Some d \<and> md_worker d = g"
  using workers_inv_live [OF assms] assms(2) by (auto simp: worker_load_def live_def)

text \<open>A step that leaves \<open>m.data\<close> alone and moves requests between channels keeps the count of each model.\<close>

lemma count_inv_move:
  assumes "count_inv s" "m_data t = m_data s" "\<And>m. outstanding t m = outstanding s m"
  shows "count_inv t"
  using assms by (simp add: count_inv_def refs_def)

lemma count_inv_worker_step:
  assumes c: "count_inv s" and inv: "workers_inv s" and w: "workers s g = Some w"
    and live: "\<not> retired w"
    and t: "m_data t = m_data s" "workers t = (workers s)(g \<mapsto> w')"
    and moved: "\<And>m. (if m = w_model w then length (w_queue w') + busy (w_pc w') else 0)
        + mgr_load (m_pc t) m + result_load t m
      = (if m = w_model w then length (w_queue w) + busy (w_pc w) else 0)
        + mgr_load (m_pc s) m + result_load s m"
  shows "count_inv t"
proof (rule count_inv_move [OF c t(1)])
  fix m
  show "outstanding t m = outstanding s m"
  proof (cases "m = w_model w")
    case True
    with worker_load_live [OF inv w live] worker_load_upd [OF inv w t, of m] moved [of m]
    show ?thesis by (simp add: outstanding_def)
  next
    case False
    with worker_load_upd [OF inv w t, of m] moved [of m] show ?thesis
      by (simp add: outstanding_def)
  qed
qed

lemma count_inv_receive:
  assumes c: "count_inv s" and inv: "workers_inv s" and pc: "m_pc s = MSelect"
  shows "count_inv (mgr_receive r rest s)"
proof -
  let ?t = "mgr_receive r rest s"
  have res: "result_load ?t m = result_load s m" for m
    by (simp add: mgr_receive_def result_load_def split: option.split)
  have load: "worker_load ?t m = worker_load s m" for m
  proof (cases "m_data s (modelId r)")
    case None
    have other: "md_worker d \<noteq> next_worker s" if "m_data s m = Some d" for d
      using workers_inv_entry [OF inv that] workers_inv_fresh [OF inv, of "next_worker s"] by auto
    show ?thesis
    proof (cases "m_data s m")
      case n: None
      with None show ?thesis by (simp add: mgr_receive_def worker_load_def live_def)
    next
      case (Some d)
      with None other [OF Some] show ?thesis
        by (auto simp: mgr_receive_def worker_load_def live_def)
    qed
  next
    case (Some d)
    then show ?thesis
      by (cases "m_data s m"; cases "m = modelId r") (simp_all add: mgr_receive_def worker_load_def live_def)
  qed
  have mgr: "mgr_load (m_pc ?t) m = (if m = modelId r then 1 else 0)" for m
    by (simp add: mgr_receive_def split: option.split)
  have refs: "refs ?t m = refs s m + (if m = modelId r then 1 else 0)" for m
    by (simp add: mgr_receive_def refs_def split: option.split)
  have "refs ?t m = int (outstanding ?t m)" for m
    using c pc by (simp add: refs mgr load res outstanding_def count_inv_def)
  moreover have "1 \<le> refCount d" if "m_data ?t m = Some d" for m d
    using c that by (fastforce simp: mgr_receive_def count_inv_def split: option.splits if_splits)
  ultimately show ?thesis by (simp add: count_inv_def)
qed

text \<open>
  Handing a result over lowers the count by one. The last one finds nothing left with the worker, so closing its
  queue and forgetting it loses no request.
\<close>

lemma reply_facts:
  assumes c: "count_inv s" and inv: "workers_inv s" and pc: "m_pc s = MReply x"
  obtains d w where "m_data s (res_model x) = Some d" "workers s (md_worker d) = Some w"
    "w_model w = res_model x" "\<not> w_closed w"
    "refCount d - 1 = int (length (w_queue w) + busy (w_pc w) + result_load s (res_model x))"
    "refCount d \<le> 1 \<Longrightarrow> w_queue w = [] \<and> w_pc w = WRecv \<and> result_load s (res_model x) = 0"
proof -
  let ?m = "res_model x"
  have cnt: "refs s ?m = int (outstanding s ?m)" using c by (simp add: count_inv_def)
  have "1 \<le> outstanding s ?m" using pc by (simp add: outstanding_def)
  with cnt obtain d where d: "m_data s ?m = Some d"
    by (auto simp: refs_def split: option.splits)
  obtain w where w: "workers s (md_worker d) = Some w" "w_model w = ?m" "\<not> w_closed w" "w_pc w \<noteq> WDone"
    using workers_inv_entry [OF inv d] by blast
  have rd: "refCount d - 1 = int (length (w_queue w) + busy (w_pc w) + result_load s ?m)"
    using cnt d w pc by (simp add: refs_def outstanding_def worker_load_def live_def)
  have "w_queue w = [] \<and> w_pc w = WRecv \<and> result_load s ?m = 0" if "refCount d \<le> 1"
  proof -
    from that rd have "length (w_queue w) + busy (w_pc w) + result_load s ?m = 0" by linarith
    with w(4) show ?thesis by (cases "w_pc w") auto
  qed
  with d w rd that show ?thesis by blast
qed

lemma reply_close:
  assumes c: "count_inv s" and inv: "workers_inv s" and pc: "m_pc s = MReply x"
    and t: "t = mgr_loop_end (mgr_replied x s)"
    and d: "m_data s (res_model x) = Some d" and last: "refCount d - 1 \<le> 0"
    and w: "workers s (md_worker d) = Some w"
    and zero: "w_queue w = []" "w_pc w = WRecv" "result_load s (res_model x) = 0"
  shows "count_inv t \<and> workers_inv t"
proof -
  let ?m = "res_model x"
  have cnt: "refs s m = int (outstanding s m)" for m using c by (simp add: count_inv_def)
  have rt: "result_load t m = result_load s m" for m
    by (simp add: t result_load_def)
  have mt: "mgr_load (m_pc t) m = 0" for m by (simp add: t)
  have td: "m_data t = (m_data s)(?m := None)"
    and tw: "workers t = (workers s)(md_worker d \<mapsto> w\<lparr>w_closed := True\<rparr>)"
    and tn: "next_worker t = next_worker s"
    using last d w by (simp_all add: t mgr_replied_def close_queue_def)
  have wi: "workers_inv t"
  proof (rule workers_invI)
    fix m e assume e: "m_data t m = Some e"
    with td have ne: "m \<noteq> ?m" and se: "m_data s m = Some e" by (auto split: if_splits)
    with workers_inv_inj [OF inv se d] have "md_worker e \<noteq> md_worker d" by blast
    with workers_inv_entry [OF inv se] tw
    show "\<exists>w. workers t (md_worker e) = Some w \<and> w_model w = m \<and> \<not> w_closed w \<and> w_pc w \<noteq> WDone"
      by simp
  next
    fix g v assume "workers t g = Some v"
    with tw workers_inv_worker [OF inv, of g v] workers_inv_worker [OF inv w(1)]
    show "worker_ok v" by (auto simp: worker_ok_def split: if_splits)
  next
    fix g v assume v: "workers t g = Some v" "\<not> retired v"
    have ne: "g \<noteq> md_worker d" using v tw zero by (auto simp: retired_def)
    with v tw have sv: "workers s g = Some v" by simp
    from workers_inv_live [OF inv sv v(2)] obtain e
      where e: "m_data s (w_model v) = Some e" "md_worker e = g" by blast
    with ne d have "w_model v \<noteq> ?m" by auto
    with e td show "\<exists>d. m_data t (w_model v) = Some d \<and> md_worker d = g" by simp
  next
    fix g assume "next_worker t \<le> g"
    with tn have n: "next_worker s \<le> g" by simp
    with workers_inv_fresh [OF inv] w have "g \<noteq> md_worker d" by auto
    with workers_inv_fresh [OF inv n] tw show "workers t g = None" by simp
  next
    fix g r assume "m_pc t = MSend g r"
    then show "\<exists>d. m_data t (modelId r) = Some d \<and> md_worker d = g" by (simp add: t)
  qed
  have lt: "worker_load t m = (if m = ?m then 0 else worker_load s m)" for m
  proof (cases "m = ?m")
    case True
    then show ?thesis using td by (simp add: worker_load_def live_def)
  next
    case False
    show ?thesis
    proof (cases "m_data s m")
      case None
      with False td show ?thesis by (simp add: worker_load_def live_def)
    next
      case (Some e)
      with workers_inv_inj [OF inv Some d] False have "md_worker e \<noteq> md_worker d" by blast
      with Some False td tw show ?thesis by (simp add: worker_load_def live_def)
    qed
  qed
  have "refs t m = int (outstanding t m)" for m
    using cnt [of m] pc zero td by (auto simp: outstanding_def lt rt mt refs_def)
  moreover have "1 \<le> refCount e" if "m_data t m = Some e" for m e
    using c that td by (auto simp: count_inv_def split: if_splits)
  ultimately have "count_inv t" by (simp add: count_inv_def)
  with wi show "count_inv t \<and> workers_inv t" by simp
qed

lemma reply_keep:
  assumes c: "count_inv s" and inv: "workers_inv s" and pc: "m_pc s = MReply x"
    and t: "t = mgr_loop_end (mgr_replied x s)"
    and d: "m_data s (res_model x) = Some d" and more: "\<not> refCount d - 1 \<le> 0"
  shows "count_inv t \<and> workers_inv t"
proof -
  let ?m = "res_model x"
  have cnt: "refs s m = int (outstanding s m)" for m using c by (simp add: count_inv_def)
  have rt: "result_load t m = result_load s m" for m
    by (simp add: t result_load_def)
  have mt: "mgr_load (m_pc t) m = 0" for m by (simp add: t)
  have td: "m_data t = (m_data s)(?m \<mapsto> d\<lparr>refCount := refCount d - 1\<rparr>)"
    and tw: "workers t = workers s" and tn: "next_worker t = next_worker s"
    using more d by (simp_all add: t mgr_replied_def)
  have wi: "workers_inv t"
  proof (rule workers_invI)
    fix m e assume "m_data t m = Some e"
    with td d workers_inv_entry [OF inv, of m] tw
    show "\<exists>w. workers t (md_worker e) = Some w \<and> w_model w = m \<and> \<not> w_closed w \<and> w_pc w \<noteq> WDone"
      by (cases "m = ?m") auto
  next
    fix g v assume "workers t g = Some v"
    with tw workers_inv_worker [OF inv, of g v] show "worker_ok v" by simp
  next
    fix g v assume "workers t g = Some v" "\<not> retired v"
    with tw workers_inv_live [OF inv, of g v] obtain e
      where e: "m_data s (w_model v) = Some e" "md_worker e = g" by auto
    with td d show "\<exists>d. m_data t (w_model v) = Some d \<and> md_worker d = g"
      by (cases "w_model v = ?m") auto
  next
    fix g assume "next_worker t \<le> g"
    with tn tw workers_inv_fresh [OF inv, of g] show "workers t g = None" by simp
  next
    fix g r assume "m_pc t = MSend g r"
    then show "\<exists>d. m_data t (modelId r) = Some d \<and> md_worker d = g" by (simp add: t)
  qed
  have lt: "worker_load t m = worker_load s m" for m
    using td tw d by (cases "m = ?m"; cases "m_data s m") (simp_all add: worker_load_def live_def)
  have "refs t m = int (outstanding t m)" for m
    using cnt [of m] pc td d by (auto simp: outstanding_def lt rt mt refs_def)
  moreover have "1 \<le> refCount e" if "m_data t m = Some e" for m e
    using c that td more by (auto simp: count_inv_def split: if_splits)
  ultimately have "count_inv t" by (simp add: count_inv_def)
  with wi show "count_inv t \<and> workers_inv t" by simp
qed

lemma reply_invs:
  assumes "count_inv s" "workers_inv s" "m_pc s = MReply x" "t = mgr_loop_end (mgr_replied x s)"
  shows "count_inv t \<and> workers_inv t"
proof -
  obtain d w where d: "m_data s (res_model x) = Some d" "workers s (md_worker d) = Some w"
    "refCount d \<le> 1 \<Longrightarrow> w_queue w = [] \<and> w_pc w = WRecv \<and> result_load s (res_model x) = 0"
    using reply_facts [OF assms(1-3)] by metis
  show ?thesis
  proof (cases "refCount d - 1 \<le> 0")
    case True
    with d have "w_queue w = []" "w_pc w = WRecv" "result_load s (res_model x) = 0" by auto
    with reply_close [OF assms d(1) True d(2)] show ?thesis by blast
  next
    case False
    with reply_keep [OF assms d(1)] show ?thesis by blast
  qed
qed


text \<open>Every step keeps both invariants.\<close>

lemma sm_step_invs:
  assumes "sm_step serve s t" "workers_inv s" "count_inv s"
  shows "workers_inv t \<and> count_inv t"
  using assms
proof (induction rule: sm_step.induct)
  case (submit s r)
  have "workers_inv (submitRequest r s)"
    by (rule workers_inv_frame [OF submit(3)]) (auto simp: submitRequest_def split: if_splits)
  moreover have "count_inv (submitRequest r s)"
    by (rule count_inv_move [OF submit(4)])
      (auto simp: submitRequest_def outstanding_def result_load_def intro!: worker_load_frame)
  ultimately show ?case by simp
next
  case (cancel s i)
  have "workers_inv (s\<lparr>callers := (callers s)(i := Cancelled)\<rparr>)"
    by (rule workers_inv_frame [OF cancel(2)]) auto
  moreover have "count_inv (s\<lparr>callers := (callers s)(i := Cancelled)\<rparr>)"
    by (rule count_inv_move [OF cancel(3)])
      (auto simp: outstanding_def result_load_def intro!: worker_load_frame)
  ultimately show ?case by simp
next
  case (close s)
  have "workers_inv (s\<lparr>m_closed := True\<rparr>)"
    by (rule workers_inv_frame [OF close(1)]) auto
  moreover have "count_inv (s\<lparr>m_closed := True\<rparr>)"
    by (rule count_inv_move [OF close(2)])
      (auto simp: outstanding_def result_load_def intro!: worker_load_frame)
  ultimately show ?case by simp
next
  case (receive s r rest)
  with workers_inv_receive count_inv_receive show ?case by blast
next
  case (receive_closed s)
  have "workers_inv (mgr_loop_end (s\<lparr>m_nilchan := True\<rparr>))"
    by (rule workers_inv_frame [OF receive_closed(5)]) auto
  moreover have "count_inv (mgr_loop_end (s\<lparr>m_nilchan := True\<rparr>))"
    by (rule count_inv_move [OF receive_closed(6)])
      (auto simp: outstanding_def result_load_def receive_closed(1) intro!: worker_load_frame)
  ultimately show ?case by simp
next
  case (push s g r w)
  let ?w = "w\<lparr>w_queue := w_queue w @ [r]\<rparr>"
  let ?t = "mgr_loop_end (s\<lparr>workers := (workers s)(g \<mapsto> ?w)\<rparr>)"
  obtain d where d: "m_data s (modelId r) = Some d" "md_worker d = g"
    using workers_inv_send [OF push(4,1)] by blast
  with workers_inv_entry [OF push(4) d(1)] push(2)
  have w: "w_model w = modelId r" "\<not> w_closed w" by auto
  have ok: "worker_ok ?w" using workers_inv_worker [OF push(4,2)] w by (auto simp: worker_ok_def)
  have "workers_inv ?t"
    by (rule workers_inv_upd [OF push(4,2) ok]) (use w d workers_inv_entry [OF push(4) d(1)] push(2) in auto)
  moreover have "count_inv ?t"
    by (rule count_inv_worker_step [OF push(5,4,2), of ?t ?w])
      (use w push(1) in \<open>auto simp: retired_def result_load_def\<close>)
  ultimately show ?case by simp
next
  case (result s x rest)
  let ?t = "s\<lparr>m_results := rest, m_pc := MReply x\<rparr>"
  have "workers_inv ?t" by (rule workers_inv_frame [OF result(3)]) auto
  moreover have "outstanding ?t m = outstanding s m" for m
    using result(1,2) worker_load_frame [of ?t s m] by (simp add: outstanding_def result_load_def)
  then have "count_inv ?t" by (intro count_inv_move [OF result(4)]) auto
  ultimately show ?case by simp
next
  case (reply s x)
  let ?s = "s\<lparr>callers := (callers s)(res_rid x := Got x)\<rparr>"
  have "workers_inv ?s" by (rule workers_inv_frame [OF reply(3)]) auto
  moreover have "count_inv ?s"
    by (rule count_inv_move [OF reply(4)])
      (auto simp: outstanding_def result_load_def intro!: worker_load_frame)
  ultimately show ?case using reply_invs [of ?s x] reply(1) by simp
next
  case (take s g w r rest)
  let ?w = "w\<lparr>w_queue := rest, w_pc := WExec r\<rparr>"
  let ?t = "s\<lparr>workers := (workers s)(g \<mapsto> ?w), started := started s @ [r]\<rparr>"
  have live: "\<not> retired w" using take(3) by (simp add: retired_def)
  have ok: "worker_ok ?w" using workers_inv_worker [OF take(4,1)] take(3) by (auto simp: worker_ok_def)
  have "workers_inv ?t" by (rule workers_inv_upd [OF take(4,1) ok]) (use live in auto)
  moreover have "count_inv ?t"
    by (rule count_inv_worker_step [OF take(5,4,1) live, of ?t ?w])
      (use take(2,3) in \<open>auto simp: result_load_def\<close>)
  ultimately show ?case by simp
next
  case (execute s g w r x)
  let ?w = "w\<lparr>w_pc := WSend x\<rparr>"
  let ?t = "s\<lparr>workers := (workers s)(g \<mapsto> ?w)\<rparr>"
  have live: "\<not> retired w" using execute(2) by (simp add: retired_def)
  have "res_model x = modelId r" using execute(3) by (cases rule: worker_result.cases) auto
  then have ok: "worker_ok ?w"
    using workers_inv_worker [OF execute(4,1)] execute(2) by (auto simp: worker_ok_def)
  have "workers_inv ?t" by (rule workers_inv_upd [OF execute(4,1) ok]) (use live in auto)
  moreover have "count_inv ?t"
    by (rule count_inv_worker_step [OF execute(5,4,1) live, of ?t ?w])
      (use execute(2) in \<open>auto simp: result_load_def\<close>)
  ultimately show ?case by simp
next
  case (report s g w x)
  let ?w = "w\<lparr>w_pc := WRecv\<rparr>"
  let ?t = "s\<lparr>workers := (workers s)(g \<mapsto> ?w), m_results := m_results s @ [x]\<rparr>"
  have live: "\<not> retired w" using report(2) by (simp add: retired_def)
  have ok: "worker_ok ?w" and m: "res_model x = w_model w"
    using workers_inv_worker [OF report(4,1)] report(2) by (auto simp: worker_ok_def)
  have "workers_inv ?t" by (rule workers_inv_upd [OF report(4,1) ok]) (use live in auto)
  moreover have "count_inv ?t"
    by (rule count_inv_worker_step [OF report(5,4,1) live, of ?t ?w])
      (use report(2) m in \<open>auto simp: result_load_def\<close>)
  ultimately show ?case by simp
next
  case (finish s g w)
  let ?w = "w\<lparr>w_pc := WDone\<rparr>"
  let ?t = "s\<lparr>workers := (workers s)(g \<mapsto> ?w)\<rparr>"
  have ok: "worker_ok ?w" using workers_inv_worker [OF finish(5,1)] finish(2) by (auto simp: worker_ok_def)
  have no: "\<not> (\<exists>d. m_data s m = Some d \<and> md_worker d = g)" for m
    using workers_inv_entry [OF finish(5)] finish(1,4) by force
  have "workers_inv ?t"
    by (rule workers_inv_upd [OF finish(5,1) ok]) (use finish in \<open>auto simp: retired_def\<close>)
  moreover have "outstanding ?t m = outstanding s m" for m
    using worker_load_upd [OF finish(5,1), of ?t ?w m] no [of m] by (simp add: outstanding_def result_load_def)
  then have "count_inv ?t" by (intro count_inv_move [OF finish(6)]) auto
  ultimately show ?case by simp
qed

lemma sm_reach_invs: "sm_reach serve s \<Longrightarrow> workers_inv s \<and> count_inv s"
  by (induction rule: sm_reach.induct) (auto simp: workers_inv_init count_inv_init dest: sm_step_invs)

lemmas sm_reach_workers = sm_reach_invs [THEN conjunct1]
lemmas sm_reach_count = sm_reach_invs [THEN conjunct2]

section \<open>Order of execution\<close>

definition of_model :: "string \<Rightarrow> request list \<Rightarrow> request list" where
  "of_model m rs = filter (\<lambda>r. modelId r = m) rs"

definition live_queue :: "'v mstate \<Rightarrow> string \<Rightarrow> request list" where
  "live_queue s m = (case live s m of None \<Rightarrow> [] | Some w \<Rightarrow> w_queue w)"

fun sending :: "'v mpc \<Rightarrow> request list" where
  "sending (MSend g r) = [r]"
| "sending (MReply x) = []"
| "sending MSelect = []"
| "sending MExit = []"

text \<open>The requests of a model that have not begun, oldest first.\<close>

definition waiting :: "'v mstate \<Rightarrow> string \<Rightarrow> request list" where
  "waiting s m = live_queue s m @ of_model m (sending (m_pc s)) @ of_model m (m_requests s)"

definition fifo_inv :: "'v mstate \<Rightarrow> bool" where
  "fifo_inv s \<longleftrightarrow> (\<forall>m. of_model m (accepted s) = of_model m (started s) @ waiting s m)"

lemma of_model_simps [simp]:
  "of_model m [] = []"
  "of_model m (xs @ ys) = of_model m xs @ of_model m ys"
  "of_model m (r # xs) = (if modelId r = m then r # of_model m xs else of_model m xs)"
  by (simp_all add: of_model_def)

lemma live_queue_upd:
  assumes inv: "workers_inv s" and w: "workers s g = Some w"
    and t: "m_data t = m_data s" "workers t = (workers s)(g \<mapsto> w')"
  shows "live_queue t m =
    (if m = w_model w \<and> (\<exists>d. m_data s m = Some d \<and> md_worker d = g) then w_queue w' else live_queue s m)"
proof (cases "\<exists>d. m_data s m = Some d \<and> md_worker d = g")
  case True
  then obtain d where d: "m_data s m = Some d" "md_worker d = g" by blast
  with workers_inv_entry [OF inv d(1)] w have "m = w_model w" by auto
  with d t show ?thesis by (simp add: live_queue_def live_def)
next
  case False
  then show ?thesis using t by (auto simp: live_queue_def live_def split: option.splits)
qed

lemma live_queue_frame:
  "m_data t = m_data s \<Longrightarrow> workers t = workers s \<Longrightarrow> live_queue t m = live_queue s m"
  by (cases "m_data s m") (simp_all add: live_queue_def live_def)

lemma live_queue_live:
  assumes "workers_inv s" "workers s g = Some w" "\<not> retired w"
  shows "live_queue s (w_model w) = w_queue w"
  using workers_inv_live [OF assms] assms(2) by (auto simp: live_queue_def live_def)

lemma sending_loop_end [simp]: "sending (m_pc (mgr_loop_end s)) = []"
  by (simp add: mgr_loop_end_def)

lemma fifo_keep:
  assumes "fifo_inv s" "accepted t = accepted s" "started t = started s"
    "\<And>m. waiting t m = waiting s m"
  shows "fifo_inv t"
  using assms by (simp add: fifo_inv_def)

lemma fifo_worker_keep:
  assumes "fifo_inv s" "workers_inv s" "workers s g = Some w"
    and "m_data t = m_data s" "workers t = (workers s)(g \<mapsto> w')" "w_queue w' = w_queue w"
    and "m_pc t = m_pc s" "m_requests t = m_requests s" "accepted t = accepted s" "started t = started s"
  shows "fifo_inv t"
proof (rule fifo_keep [OF assms(1,9,10)])
  fix m
  have "live_queue t m = live_queue s m"
    using live_queue_upd [OF assms(2-5), of m] assms(3,6) by (auto simp: live_queue_def live_def)
  with assms(7,8) show "waiting t m = waiting s m" by (simp add: waiting_def)
qed

lemma live_queue_receive:
  assumes inv: "workers_inv s"
  shows "live_queue (mgr_receive r rest s) m = live_queue s m"
proof (cases "m_data s (modelId r)")
  case None
  have "md_worker d \<noteq> next_worker s" if "m_data s m = Some d" for d
    using workers_inv_entry [OF inv that] workers_inv_fresh [OF inv, of "next_worker s"] by auto
  with None show ?thesis
    by (cases "m_data s m") (auto simp: mgr_receive_def live_queue_def live_def)
next
  case (Some d)
  then show ?thesis
    by (cases "m_data s m"; cases "m = modelId r") (simp_all add: mgr_receive_def live_queue_def live_def)
qed

lemma live_queue_reply:
  assumes "count_inv s" and inv: "workers_inv s" and "m_pc s = MReply x"
  shows "live_queue (mgr_loop_end (mgr_replied x s)) m = live_queue s m"
proof -
  obtain d w where d: "m_data s (res_model x) = Some d" "workers s (md_worker d) = Some w"
    and z: "refCount d \<le> 1 \<Longrightarrow> w_queue w = [] \<and> w_pc w = WRecv \<and> result_load s (res_model x) = 0"
    using reply_facts [OF assms] by metis
  have ne: "md_worker e \<noteq> md_worker d" if "m_data s m = Some e" "m \<noteq> res_model x" for e
    using workers_inv_inj [OF inv that(1) d(1)] that(2) by blast
  show ?thesis
    using d z ne
    by (cases "m = res_model x"; cases "m_data s m")
      (auto simp: live_queue_def live_def mgr_replied_def close_queue_def)
qed

lemma sm_step_fifo:
  assumes "sm_step serve s t" "workers_inv s" "count_inv s" "fifo_inv s"
  shows "fifo_inv t"
  using assms
proof (induction rule: sm_step.induct)
  case (submit s r)
  have "live_queue (submitRequest r s) m = live_queue s m" for m
    by (rule live_queue_frame) (simp_all add: submitRequest_def)
  with submit(5) show ?case
    by (auto simp: submitRequest_def fifo_inv_def waiting_def)
next
  case (cancel s i)
  show ?case by (rule fifo_keep [OF cancel(4)]) (auto simp: waiting_def intro!: live_queue_frame)
next
  case (close s)
  show ?case by (rule fifo_keep [OF close(3)]) (auto simp: waiting_def intro!: live_queue_frame)
next
  case (receive s r rest)
  have [simp]: "accepted (mgr_receive r rest s) = accepted s" "started (mgr_receive r rest s) = started s"
    "m_requests (mgr_receive r rest s) = rest" "sending (m_pc (mgr_receive r rest s)) = [r]"
    by (simp_all add: mgr_receive_def split: option.split)
  show ?case
    by (rule fifo_keep [OF receive(6)])
      (simp_all add: waiting_def live_queue_receive [OF receive(4)] receive(1,3))
next
  case (receive_closed s)
  show ?case
    by (rule fifo_keep [OF receive_closed(7)])
      (auto simp: waiting_def receive_closed(1) intro!: live_queue_frame)
next
  case (push s g r w)
  let ?w = "w\<lparr>w_queue := w_queue w @ [r]\<rparr>"
  let ?t = "mgr_loop_end (s\<lparr>workers := (workers s)(g \<mapsto> ?w)\<rparr>)"
  obtain d where d: "m_data s (modelId r) = Some d" "md_worker d = g"
    using workers_inv_send [OF push(4,1)] by blast
  with workers_inv_entry [OF push(4) d(1)] push(2) have w: "w_model w = modelId r" by auto
  have q: "live_queue ?t m = (if m = modelId r then live_queue s m @ [r] else live_queue s m)" for m
    using live_queue_upd [OF push(4,2), of ?t ?w m] w d push(2) by (auto simp: live_queue_def live_def)
  show ?case
    by (rule fifo_keep [OF push(6)]) (simp_all add: waiting_def q push(1))
next
  case (result s x rest)
  show ?case
    by (rule fifo_keep [OF result(5)]) (auto simp: waiting_def result(1) intro!: live_queue_frame)
next
  case (reply s x)
  let ?s = "s\<lparr>callers := (callers s)(res_rid x := Got x)\<rparr>"
  have w: "workers_inv ?s" by (rule workers_inv_frame [OF reply(3)]) auto
  have c: "count_inv ?s"
    by (rule count_inv_move [OF reply(4)])
      (auto simp: outstanding_def result_load_def intro!: worker_load_frame)
  have q: "live_queue (mgr_loop_end (mgr_replied x ?s)) m = live_queue s m" for m
    using live_queue_reply [OF c w, of x m] reply(1) live_queue_frame [of ?s s m] by simp
  show ?case
    by (rule fifo_keep [OF reply(5)]) (simp_all add: waiting_def q reply(1))
next
  case (take s g w r rest)
  let ?w = "w\<lparr>w_queue := rest, w_pc := WExec r\<rparr>"
  let ?t = "s\<lparr>workers := (workers s)(g \<mapsto> ?w), started := started s @ [r]\<rparr>"
  have live: "\<not> retired w" using take(3) by (simp add: retired_def)
  have m: "modelId r = w_model w"
    using workers_inv_worker [OF take(4,1)] take(3) by (auto simp: worker_ok_def)
  have q: "live_queue s m = (if m = modelId r then r # live_queue ?t m else live_queue ?t m)" for m
    using live_queue_upd [OF take(4,1), of ?t ?w m] live_queue_live [OF take(4,1) live]
      workers_inv_live [OF take(4,1) live] m take(3) by auto
  show ?case
    unfolding fifo_inv_def
  proof
    fix m
    have "of_model m (accepted s) = of_model m (started s) @ waiting s m"
      using take(6) by (simp add: fifo_inv_def)
    then show "of_model m (accepted ?t) = of_model m (started ?t) @ waiting ?t m"
      using q [of m] by (simp add: waiting_def)
  qed
next
  case (execute s g w r x)
  show ?case by (rule fifo_worker_keep [OF execute(6,4,1), of _ "w\<lparr>w_pc := WSend x\<rparr>"]) simp_all
next
  case (report s g w x)
  show ?case by (rule fifo_worker_keep [OF report(6,4,1), of _ "w\<lparr>w_pc := WRecv\<rparr>"]) simp_all
next
  case (finish s g w)
  show ?case by (rule fifo_worker_keep [OF finish(7,5,1), of _ "w\<lparr>w_pc := WDone\<rparr>"]) simp_all
qed

lemma sm_reach_fifo: "sm_reach serve s \<Longrightarrow> fifo_inv s"
proof (induction rule: sm_reach.induct)
  case init
  show ?case
    by (simp add: fifo_inv_def newModelStateManager_def waiting_def live_queue_def live_def)
next
  case (step s t)
  with sm_reach_invs [OF step(1)] show ?case by (blast intro: sm_step_fifo)
qed


section \<open>Each caller and its result\<close>

definition result_of :: "(request \<Rightarrow> 'v option \<Rightarrow> goerr option \<Rightarrow> bool) \<Rightarrow> 'v mstate \<Rightarrow> 'v rslt \<Rightarrow> bool" where
  "result_of serve s x \<longleftrightarrow> (\<exists>r \<in> set (started s). worker_result serve r x)"

definition result_inv :: "(request \<Rightarrow> 'v option \<Rightarrow> goerr option \<Rightarrow> bool) \<Rightarrow> 'v mstate \<Rightarrow> bool" where
  "result_inv serve s \<longleftrightarrow>
     (\<forall>x \<in> set (m_results s). result_of serve s x) \<and>
     (\<forall>x. m_pc s = MReply x \<longrightarrow> result_of serve s x) \<and>
     (\<forall>g w x. workers s g = Some w \<longrightarrow> w_pc w = WSend x \<longrightarrow> result_of serve s x) \<and>
     (\<forall>g w r. workers s g = Some w \<longrightarrow> w_pc w = WExec r \<longrightarrow> r \<in> set (started s)) \<and>
     (\<forall>i x. callers s i = Got x \<longrightarrow> res_rid x = i \<and> result_of serve s x)"

definition caller_inv :: "'v mstate \<Rightarrow> bool" where
  "caller_inv s \<longleftrightarrow> distinct (map rid (accepted s)) \<and> (\<forall>r \<in> set (accepted s). callers s (rid r) \<noteq> NotCalled)"

lemma result_inv_mono:
  assumes "result_inv serve s" "started t = started s @ rs"
    "set (m_results t) \<subseteq> set (m_results s)"
    "\<And>x. m_pc t = MReply x \<Longrightarrow> m_pc s = MReply x \<or> x \<in> set (m_results s)"
    "\<And>g w. workers t g = Some w \<Longrightarrow> workers s g = Some w \<or> w_pc w = WRecv \<or> w_pc w = WDone
       \<or> (\<exists>w'. workers s g = Some w' \<and> w_pc w' = w_pc w) \<or> (\<exists>r \<in> set rs. w_pc w = WExec r)"
    "\<And>i x. callers t i = Got x \<Longrightarrow> callers s i = Got x \<or> (i = res_rid x \<and> m_pc s = MReply x)"
  shows "result_inv serve t"
proof -
  have up: "result_of serve s x \<Longrightarrow> result_of serve t x" for x
    using assms(2) by (auto simp: result_of_def)
  have "\<forall>x \<in> set (m_results t). result_of serve t x"
    using assms(1,3) up by (auto simp: result_inv_def)
  moreover have "\<forall>x. m_pc t = MReply x \<longrightarrow> result_of serve t x"
    using assms(1,4) up by (auto simp: result_inv_def)
  moreover have "\<forall>g w x. workers t g = Some w \<longrightarrow> w_pc w = WSend x \<longrightarrow> result_of serve t x"
    using assms(1,5) up by (fastforce simp: result_inv_def)
  moreover have "\<forall>g w r. workers t g = Some w \<longrightarrow> w_pc w = WExec r \<longrightarrow> r \<in> set (started t)"
    using assms(1,2,5) by (fastforce simp: result_inv_def)
  moreover have "\<forall>i x. callers t i = Got x \<longrightarrow> res_rid x = i \<and> result_of serve t x"
    using assms(1,6) up unfolding result_inv_def by blast
  ultimately show ?thesis by (simp add: result_inv_def)
qed

lemma close_queue_worker:
  "workers (close_queue g s) k = Some w \<Longrightarrow> \<exists>w'. workers s k = Some w' \<and> w_pc w' = w_pc w"
  by (auto simp: close_queue_def split: option.splits if_splits)

lemma mgr_replied_worker:
  "workers (mgr_replied x s) k = Some w \<Longrightarrow> \<exists>w'. workers s k = Some w' \<and> w_pc w' = w_pc w"
  by (auto simp: mgr_replied_def dest: close_queue_worker split: option.splits if_splits)

lemma sm_step_result:
  assumes "sm_step serve s t" "result_inv serve s"
  shows "result_inv serve t"
  using assms
proof (induction rule: sm_step.induct)
  case (submit s r)
  show ?case
    by (rule result_inv_mono [OF submit(3), of _ "[]"]) (auto simp: submitRequest_def split: if_splits)
next
  case (cancel s i)
  show ?case by (rule result_inv_mono [OF cancel(2), of _ "[]"]) (auto split: if_splits)
next
  case (close s)
  show ?case by (rule result_inv_mono [OF close(1), of _ "[]"]) auto
next
  case (receive s r rest)
  show ?case
    by (rule result_inv_mono [OF receive(4), of _ "[]"])
      (auto simp: mgr_receive_def split: option.splits if_splits)
next
  case (receive_closed s)
  show ?case by (rule result_inv_mono [OF receive_closed(5), of _ "[]"]) auto
next
  case (push s g r w)
  show ?case by (rule result_inv_mono [OF push(4), of _ "[]"]) (use push(2) in \<open>auto split: if_splits\<close>)
next
  case (result s x rest)
  show ?case by (rule result_inv_mono [OF result(3), of _ "[]"]) (use result(2) in auto)
next
  case (reply s x)
  show ?case
    by (rule result_inv_mono [OF reply(3), of _ "[]"])
      (use reply(1) in \<open>auto dest: mgr_replied_worker split: if_splits\<close>)
next
  case (take s g w r rest)
  show ?case by (rule result_inv_mono [OF take(4), of _ "[r]"]) (auto split: if_splits)
next
  case (execute s g w r x)
  have "r \<in> set (started s)" using execute(1,2,4) by (auto simp: result_inv_def)
  with execute(3) have "result_of serve s x" by (auto simp: result_of_def)
  with execute(4) show ?case by (auto simp: result_inv_def result_of_def split: if_splits)
next
  case (report s g w x)
  have "result_of serve s x" using report(1,2,4) by (auto simp: result_inv_def)
  with report(4) show ?case by (auto simp: result_inv_def result_of_def split: if_splits)
next
  case (finish s g w)
  show ?case by (rule result_inv_mono [OF finish(5), of _ "[]"]) (auto split: if_splits)
qed

lemma sm_step_caller:
  assumes "sm_step serve s t" "caller_inv s"
  shows "caller_inv t"
  using assms
proof (induction rule: sm_step.induct)
  case (submit s r)
  then show ?case by (auto simp: submitRequest_def caller_inv_def)
next
  case (receive s r rest)
  then show ?case by (simp add: mgr_receive_def caller_inv_def split: option.split)
qed (auto simp: caller_inv_def)

lemma sm_reach_result: "sm_reach serve s \<Longrightarrow> result_inv serve s"
  by (induction rule: sm_reach.induct)
    (auto simp: result_inv_def newModelStateManager_def dest: sm_step_result)

lemma sm_reach_caller: "sm_reach serve s \<Longrightarrow> caller_inv s"
  by (induction rule: sm_reach.induct)
    (auto simp: caller_inv_def newModelStateManager_def dest: sm_step_caller)

section \<open>A caller that has gone\<close>

inductive sm_steps ::
  "(request \<Rightarrow> 'v option \<Rightarrow> goerr option \<Rightarrow> bool) \<Rightarrow> 'v mstate \<Rightarrow> 'v mstate \<Rightarrow> bool" for serve where
  refl: "sm_steps serve s s"
| trans: "sm_steps serve s t \<Longrightarrow> sm_step serve t u \<Longrightarrow> sm_steps serve s u"

lemma sm_steps_reach: "sm_steps serve s t \<Longrightarrow> sm_reach serve s \<Longrightarrow> sm_reach serve t"
  by (induction rule: sm_steps.induct) (auto intro: sm_reach.step)

lemma blocked_step:
  assumes "sm_step serve s t" "m_pc s = MReply x" "callers s (res_rid x) = Cancelled"
  shows "m_pc t = MReply x \<and> callers t (res_rid x) = Cancelled \<and> m_data t = m_data s"
  using assms by (cases rule: sm_step.cases) (auto simp: submitRequest_def)

lemma blocked_steps:
  assumes "sm_steps serve s t" "m_pc s = MReply x" "callers s (res_rid x) = Cancelled"
  shows "m_pc t = MReply x \<and> callers t (res_rid x) = Cancelled \<and> m_data t = m_data s"
  using assms by (induction rule: sm_steps.induct) (auto dest: blocked_step)

section \<open>A run with one request\<close>

definition demo_req :: "nat \<Rightarrow> request" where
  "demo_req i = \<lparr>rid = i, modelId = ''m'', grpcRequest = KLoad\<rparr>"

definition demo_serve :: "request \<Rightarrow> nat option \<Rightarrow> goerr option \<Rightarrow> bool" where
  "demo_serve r v e \<longleftrightarrow> v = Some 7 \<and> e = None"

definition demo_worker :: "request list \<Rightarrow> nat wpc \<Rightarrow> nat worker" where
  "demo_worker q pc = \<lparr>w_model = ''m'', w_queue = q, w_closed = False, w_pc = pc\<rparr>"

definition demo_result :: "nat rslt" where
  "demo_result = \<lparr>res_rid = 0, res_model = ''m'', res_resp = RespLoad (Some 7), res_err = None\<rparr>"

text \<open>Two requests for one model: the first is with its worker, the second still on the manager's channel.\<close>

definition demo_state :: "nat wpc \<Rightarrow> nat rslt list \<Rightarrow> nat mpc \<Rightarrow> nat caller \<Rightarrow> nat mstate" where
  "demo_state pc results mpc c = \<lparr>m_requests = [demo_req 1], m_closed = False, m_results = results,
     m_data = [''m'' \<mapsto> \<lparr>md_worker = 0, refCount = 1\<rparr>], m_pc = mpc, m_nilchan = False,
     workers = [0 \<mapsto> demo_worker [] pc], next_worker = 1,
     callers = (\<lambda>_. NotCalled)(0 := c, 1 := Waiting),
     accepted = [demo_req 0, demo_req 1], started = [demo_req 0]\<rparr>"

lemmas demo_defs = demo_state_def demo_worker_def demo_req_def demo_result_def

lemma demo_exec_reach: "sm_reach demo_serve (demo_state (WExec (demo_req 0)) [] MSelect Waiting)"
proof -
  let ?s1 = "submitRequest (demo_req 0) newModelStateManager :: nat mstate"
  let ?s2 = "submitRequest (demo_req 1) ?s1"
  let ?s3 = "mgr_receive (demo_req 0) [demo_req 1] ?s2"
  let ?s4 = "mgr_loop_end (?s3\<lparr>workers := (workers ?s3)(0 \<mapsto> demo_worker [demo_req 0] WRecv)\<rparr>)"
  let ?s5 = "?s4\<lparr>workers := (workers ?s4)(0 \<mapsto> demo_worker [] (WExec (demo_req 0))),
    started := started ?s4 @ [demo_req 0]\<rparr>"
  note defs = submitRequest_def newModelStateManager_def mgr_receive_def StateManagerChannelLength_def
    demo_defs
  have "sm_reach demo_serve ?s1"
    by (rule sm_reach.step [OF sm_reach.init sm_step.submit]) (simp_all add: defs)
  then have "sm_reach demo_serve ?s2"
    by (rule sm_reach.step [OF _ sm_step.submit]) (simp_all add: defs)
  then have "sm_reach demo_serve ?s3"
    by (rule sm_reach.step [OF _ sm_step.receive]) (simp_all add: defs)
  moreover have "sm_step demo_serve ?s3 ?s4"
    using sm_step.push [of ?s3 0 "demo_req 0" "demo_worker [] WRecv" demo_serve]
    by (simp add: defs)
  ultimately have "sm_reach demo_serve ?s4" by (rule sm_reach.step)
  moreover have "sm_step demo_serve ?s4 ?s5"
    using sm_step.take [of ?s4 0 "demo_worker [demo_req 0] WRecv" "demo_req 0" "[]" demo_serve]
    by (simp add: defs)
  ultimately have "sm_reach demo_serve ?s5" by (rule sm_reach.step)
  moreover have "?s5 = demo_state (WExec (demo_req 0)) [] MSelect Waiting"
    by (simp add: defs mgr_loop_end_def fun_eq_iff)
  ultimately show ?thesis by simp
qed

text \<open>The first request executes and its result reaches the manager.\<close>

lemma demo_replying_reach:
  assumes "sm_reach demo_serve (demo_state (WExec (demo_req 0)) [] MSelect c)"
  shows "sm_reach demo_serve (demo_state WRecv [] (MReply demo_result) c)"
proof -
  let ?s1 = "demo_state (WExec (demo_req 0)) [] MSelect c"
  let ?s2 = "demo_state (WSend demo_result) [] MSelect c"
  let ?s3 = "demo_state WRecv [demo_result] MSelect c"
  have "worker_result demo_serve (demo_req 0) demo_result"
    using worker_result.wr_load [of "demo_req 0" demo_serve "Some 7" None]
    by (simp add: demo_defs demo_serve_def)
  then have "sm_step demo_serve ?s1 ?s2"
    using sm_step.execute [of ?s1 0 "demo_worker [] (WExec (demo_req 0))" "demo_req 0" demo_serve demo_result]
    by (simp add: demo_state_def demo_worker_def)
  with assms have "sm_reach demo_serve ?s2" by (rule sm_reach.step)
  moreover have "sm_step demo_serve ?s2 ?s3"
    using sm_step.report [of ?s2 0 "demo_worker [] (WSend demo_result)" demo_result demo_serve]
    by (simp add: demo_state_def demo_worker_def StateManagerChannelLength_def)
  ultimately have "sm_reach demo_serve ?s3" by (rule sm_reach.step)
  moreover have "sm_step demo_serve ?s3 (demo_state WRecv [] (MReply demo_result) c)"
    using sm_step.result [of ?s3 demo_result "[]" demo_serve] by (simp add: demo_state_def)
  ultimately show ?thesis by (rule sm_reach.step)
qed

text \<open>The same with the caller giving up while its request executes, and with the caller still there.\<close>

lemma demo_blocked_reach:
  "sm_reach demo_serve (demo_state WRecv [] (MReply demo_result) Cancelled)"
proof (rule demo_replying_reach)
  have "sm_step demo_serve (demo_state (WExec (demo_req 0)) [] MSelect Waiting)
      (demo_state (WExec (demo_req 0)) [] MSelect Cancelled)"
    using sm_step.cancel [of "demo_state (WExec (demo_req 0)) [] MSelect Waiting" 0 demo_serve]
    by (simp add: demo_state_def fun_upd_twist)
  with demo_exec_reach show "sm_reach demo_serve (demo_state (WExec (demo_req 0)) [] MSelect Cancelled)"
    by (rule sm_reach.step)
qed

lemma demo_got_reach:
  "\<exists>s. sm_reach demo_serve s \<and> callers s 0 = Got demo_result"
proof -
  let ?s = "demo_state WRecv [] (MReply demo_result) Waiting"
  let ?t = "mgr_loop_end (mgr_replied demo_result (?s\<lparr>callers := (callers ?s)(0 := Got demo_result)\<rparr>))"
  have "sm_step demo_serve ?s ?t"
    using sm_step.reply [of ?s demo_result demo_serve] by (simp add: demo_state_def demo_result_def)
  with demo_replying_reach [OF demo_exec_reach] have "sm_reach demo_serve ?t" by (rule sm_reach.step)
  then show ?thesis by (intro exI [of _ ?t]) simp
qed

section \<open>Properties\<close>

text \<open>
  C1: The state manager runs the requests of one model one at a time: in every reachable state, for
  every interleaving of callers, manager and workers, two workers that are executing
  requests for the same model are the same worker.
\<close>

theorem sm_one_request_per_model:
  assumes "sm_reach serve s"
    and "workers s g = Some w" "w_pc w = WExec r"
    and "workers s g' = Some w'" "w_pc w' = WExec r'"
    and "modelId r = modelId r'"
  shows "g = g'"
  by (rule workers_inv_executing [OF sm_reach_workers [OF assms(1)] assms(2-6)])

theorem sm_one_request_per_model_witness:
  "\<exists>s w. sm_reach demo_serve s \<and> workers s 0 = Some w \<and> w_pc w = WExec (demo_req 0) \<and>
     (\<forall>g w' r. workers s g = Some w' \<and> w_pc w' = WExec r \<and> modelId r = ''m'' \<longrightarrow> g = 0)"
proof -
  let ?s = "demo_state (WExec (demo_req 0)) [] MSelect Waiting"
  let ?w = "demo_worker [] (WExec (demo_req 0))"
  have w: "workers ?s 0 = Some ?w" "w_pc ?w = WExec (demo_req 0)"
    by (simp_all add: demo_state_def demo_worker_def)
  have "g = 0" if "workers ?s g = Some w'" "w_pc w' = WExec r" "modelId r = ''m''" for g w' r
    by (rule sm_one_request_per_model [OF demo_exec_reach that(1,2) w])
      (simp add: that(3) demo_req_def)
  with demo_exec_reach w show ?thesis by blast
qed

text \<open>
  C7: Requests for one model are executed in the order in which they were accepted: the requests of a model that
  have begun, followed by those in its worker's queue, the one the manager is moving and
  those on the manager's channel, are the accepted requests of that model in order; none is lost
  or duplicated.
\<close>

theorem sm_fifo_per_model:
  assumes "sm_reach serve s"
  shows "of_model m (accepted s) = of_model m (started s) @ waiting s m \<and> distinct (map rid (accepted s))"
  using sm_reach_fifo [OF assms] sm_reach_caller [OF assms] by (simp_all add: fifo_inv_def caller_inv_def)

theorem sm_fifo_per_model_witness:
  "of_model ''m'' [demo_req 0, demo_req 1] =
     of_model ''m'' [demo_req 0] @ waiting (demo_state (WExec (demo_req 0)) [] MSelect Waiting) ''m''"
  using sm_fifo_per_model [OF demo_exec_reach, of "''m''"] by (simp add: demo_state_def)



text \<open>
  C8: A caller only ever gets the result of its own request, and that result was made by executing the request: the
  response and error are ones that the server's load or unload function returned for it.
\<close>

theorem sm_own_result:
  assumes "sm_reach serve s" and "callers s i = Got x"
  shows "\<exists>r \<in> set (started s). rid r = i \<and> worker_result serve r x"
proof -
  from sm_reach_result [OF assms(1)] assms(2) have i: "res_rid x = i" and "result_of serve s x"
    unfolding result_inv_def by blast+
  then obtain r where r: "r \<in> set (started s)" "worker_result serve r x"
    by (auto simp: result_of_def)
  from r(2) have "rid r = res_rid x" by (cases rule: worker_result.cases) auto
  with r i show ?thesis by auto
qed

theorem sm_own_result_witness:
  "\<exists>s r. sm_reach demo_serve s \<and> callers s 0 = Got demo_result \<and> r \<in> set (started s) \<and> rid r = 0 \<and>
     worker_result demo_serve r demo_result"
proof -
  obtain s where s: "sm_reach demo_serve s" "callers s 0 = Got demo_result"
    using demo_got_reach by blast
  from sm_own_result [OF s] s show ?thesis by blast
qed

text \<open>
  C34: A caller whose context ends while its request is in progress stops the manager for good. The manager
  sends the result on the caller's unbuffered channel, which nobody receives from any more: from
  then on it stays at that send in every continuation, so no result is delivered
  and no request leaves the request channel.
\<close>

theorem sm_cancelled_caller_blocks:
  assumes "m_pc s = MReply x" and "callers s (res_rid x) = Cancelled" and "sm_steps serve s t"
  shows "m_pc t = MReply x \<and> m_data t = m_data s"
  using blocked_steps [OF assms(3,1,2)] by simp

theorem sm_cancelled_caller_blocks_witness:
  "\<exists>s. sm_reach demo_serve s \<and> m_requests s = [demo_req 1] \<and> callers s 1 = Waiting \<and>
     (\<forall>t. sm_steps demo_serve s t \<longrightarrow> m_pc t = MReply demo_result)"
proof -
  let ?s = "demo_state WRecv [] (MReply demo_result) Cancelled"
  have s: "m_pc ?s = MReply demo_result" "callers ?s (res_rid demo_result) = Cancelled"
    "m_requests ?s = [demo_req 1]" "callers ?s 1 = Waiting"
    by (simp_all add: demo_state_def demo_result_def)
  with sm_cancelled_caller_blocks [OF s(1,2)] demo_blocked_reach show ?thesis by blast
qed

end
