(* ===== verification/PullerSystem.thy ===== *)
theory PullerSystem
  imports StatusRequests ModelState
begin

text \<open>
  The whole model server: the model state manager of \<open>ModelState\<close>, whose workers call the handlers of \<open>PullerServer\<close>, which call the adapter, on
  one volume; and beside them status requests, which work on the same volume without going through the manager. A handler runs as one step: while
  it runs for one model, those of other models do not touch the paths that it works on (\<open>models_isolated\<close>), and there is only one handler at a
  time for each model (\<open>sm_one_request_per_model\<close>). A status request runs in the steps of \<open>StatusRequests\<close>, with any others between them;
  nothing in the code keeps such a step from running while a handler for the same model does, and that overlap is not modelled.
\<close>

section \<open>The system\<close>

text \<open>
  What a handler returns, and the history: the requests in the order in which their handlers ended, with the answers and the volumes they
  left, and between them the steps of status requests that may remove files.
\<close>

datatype reply = Loaded LoadModelResponse | Unloaded

record served =
  sv_req :: request
  sv_resp :: "reply option"
  sv_err :: "goerr option"
  sv_files :: fs

datatype event =
    Handled served
  | Emptied fs
  | Purged string fs

record system =
  sy_manager :: "reply mstate"
  sy_os :: os
  sy_status :: "status_call list"
  sy_log :: "event list"

text \<open>The handled requests among the events; the events that concern a model; and the volume that an event left.\<close>

fun handled :: "event list \<Rightarrow> served list" where
  "handled [] = []"
| "handled (Handled sv # es) = sv # handled es"
| "handled (e # es) = handled es"

definition sy_served :: "system \<Rightarrow> served list" where
  "sy_served s = handled (sy_log s)"

fun concerns :: "string \<Rightarrow> event \<Rightarrow> bool" where
  "concerns m (Handled sv) = (modelId (sv_req sv) = m)"
| "concerns m (Emptied t) = True"
| "concerns m (Purged m' t) = (m' = m)"

fun left_by :: "event \<Rightarrow> fs" where
  "left_by (Handled sv) = sv_files sv"
| "left_by (Emptied t) = t"
| "left_by (Purged m t) = t"

lemma handled_append [simp]: "handled (es @ es') = handled es @ handled es'"
  by (induction es rule: handled.induct) simp_all

text \<open>The events of a step of a status request, whose first step concerns all models: the adapter empties its directory.\<close>

definition status_events :: "status_call \<Rightarrow> fs \<Rightarrow> event list" where
  "status_events p t = (if p = Asked then [Emptied t] else case status_model p of Some m \<Rightarrow> [Purged m t] | None \<Rightarrow> [])"

lemma handled_status_events [simp]: "handled (status_events p t) = []"
  by (simp add: status_events_def split: option.split)

text \<open>
  A request of the manager has a model id and a kind; \<open>body\<close> gives the rest of a load request. The gRPC request that the worker passes on has
  the same model id.
\<close>

definition handle :: "PullerServer \<Rightarrow> (nat \<Rightarrow> LoadModelRequest) \<Rightarrow> request \<Rightarrow> (os, reply) step" where
  "handle S body r =
     (if grpcRequest r = KLoad then andThen (ps_loadModel S ((body (rid r))\<lparr>ModelId := modelId r\<rparr>)) (\<lambda>x. ret (Loaded x))
      else andThen (ps_unloadModel S (modelId r)) (\<lambda>_. ret Unloaded))"

text \<open>The calls of the server, by what has become of their caller: nothing yet, or the response and the error.\<close>

definition ps_LoadModel :: "'v caller \<Rightarrow> ('v option \<times> goerr option) option" where
  "ps_LoadModel c = map_option sm_loadModel (submit_result c)"

definition ps_UnloadModel :: "'v caller \<Rightarrow> ('v option \<times> goerr option) option" where
  "ps_UnloadModel c = map_option sm_unloadModel (submit_result c)"

text \<open>Response and error as the worker gets them; a panic ends the process.\<close>

fun handler_result :: "'a res \<Rightarrow> ('a option \<times> goerr option) option" where
  "handler_result (Ok x) = Some (Some x, None)"
| "handler_result (Err e) = Some (None, Some e)"
| "handler_result (Panic m) = None"

inductive sys_step :: "PullerServer \<Rightarrow> (nat \<Rightarrow> LoadModelRequest) \<Rightarrow> system \<Rightarrow> system \<Rightarrow> bool" for S body where
  manage: "sm_step (\<lambda>_ _ _. False) (sy_manager s) m \<Longrightarrow> sys_step S body s (s\<lparr>sy_manager := m\<rparr>)"
| serve: "workers (sy_manager s) g = Some w \<Longrightarrow> w_pc w = WExec r \<Longrightarrow> handle S body r (sy_os s) = (res, u) \<Longrightarrow>
    handler_result res = Some (v, e) \<Longrightarrow> worker_result (\<lambda>r' v' e'. r' = r \<and> v' = v \<and> e' = e) r x \<Longrightarrow>
    sys_step S body s (s\<lparr>sy_manager := (sy_manager s)\<lparr>workers := (workers (sy_manager s))(g \<mapsto> w\<lparr>w_pc := WSend x\<rparr>)\<rparr>,
      sy_os := u, sy_log := sy_log s @ [Handled \<lparr>sv_req = r, sv_resp = v, sv_err = e, sv_files = files u\<rparr>]\<rparr>)"
| ask: "sys_step S body s (s\<lparr>sy_status := sy_status s @ [Asked]\<rparr>)"
| status: "i < length (sy_status s) \<Longrightarrow> sy_status s ! i = p \<Longrightarrow> \<not> answered p \<Longrightarrow> status_step S p (sy_os s) = (Ok p', u) \<Longrightarrow>
    sys_step S body s (s\<lparr>sy_os := u, sy_status := (sy_status s)[i := p'], sy_log := sy_log s @ status_events p (files u)\<rparr>)"

inductive sys_reach :: "PullerServer \<Rightarrow> (nat \<Rightarrow> LoadModelRequest) \<Rightarrow> os \<Rightarrow> system \<Rightarrow> bool" for S body u where
  init: "sys_reach S body u \<lparr>sy_manager = newModelStateManager, sy_os = u, sy_status = [], sy_log = []\<rparr>"
| step: "sys_reach S body u s \<Longrightarrow> sys_step S body s t \<Longrightarrow> sys_reach S body u t"

section \<open>The manager in the system\<close>

text \<open>What the handlers have returned so far, as the argument of the manager's own step relation.\<close>

definition served_by :: "system \<Rightarrow> request \<Rightarrow> reply option \<Rightarrow> goerr option \<Rightarrow> bool" where
  "served_by s r v e \<longleftrightarrow> (\<exists>sv \<in> set (sy_served s). sv_req sv = r \<and> sv_resp sv = v \<and> sv_err sv = e)"

lemma worker_result_mono: "worker_result P r x \<Longrightarrow> (\<And>r v e. P r v e \<Longrightarrow> Q r v e) \<Longrightarrow> worker_result Q r x"
  by (auto elim!: worker_result.cases intro: worker_result.intros)

lemma sm_step_mono:
  assumes "sm_step P s t" "\<And>r v e. P r v e \<Longrightarrow> Q r v e"
  shows "sm_step Q s t"
  using assms(1)
proof cases
  case (execute g w r x)
  then show ?thesis using sm_step.execute [OF execute(2,3) worker_result_mono [OF execute(4) assms(2)]] by simp
qed (auto intro: sm_step.intros)

lemma sm_reach_mono: "sm_reach P s \<Longrightarrow> (\<And>r v e. P r v e \<Longrightarrow> Q r v e) \<Longrightarrow> sm_reach Q s"
proof (induction rule: sm_reach.induct)
  case (step s t)
  from sm_step_mono [OF step.hyps(2), of Q] step show ?case by (blast intro: sm_reach.step)
qed (rule sm_reach.init)

text \<open>The system refines the manager: its manager makes only steps that the manager makes alone, with handlers that answer as these do.\<close>

lemma sys_reach_manager: "sys_reach S body u s \<Longrightarrow> sm_reach (served_by s) (sy_manager s)"
proof (induction rule: sys_reach.induct)
  case init
  show ?case by (simp add: sm_reach.init)
next
  case (step s t)
  from step.hyps(2) show ?case
  proof cases
    case (manage m)
    have "sm_reach (served_by t) (sy_manager s)" using sm_reach_mono [OF step.IH, of "served_by t"] manage by (simp add: served_by_def sy_served_def)
    moreover have "sm_step (served_by t) (sy_manager s) (sy_manager t)" using sm_step_mono [OF manage(2), of "served_by t"] manage(1) by simp
    ultimately show ?thesis by (rule sm_reach.step)
  next
    case (serve g w r res u' v e x)
    have "sm_reach (served_by t) (sy_manager s)" using sm_reach_mono [OF step.IH, of "served_by t"] serve(1) by (auto simp: served_by_def sy_served_def)
    moreover have "worker_result (served_by t) r x" by (rule worker_result_mono [OF serve(6)]) (simp add: serve(1) served_by_def sy_served_def)
    then have "sm_step (served_by t) (sy_manager s) (sy_manager t)" using sm_step.execute [OF serve(2,3)] serve(1) by simp
    ultimately show ?thesis by (rule sm_reach.step)
  next
    case ask
    then have "served_by t = served_by s" by (simp add: served_by_def sy_served_def fun_eq_iff)
    with step.IH show ?thesis by (simp add: ask)
  next
    case (status i p p' u')
    then have "served_by t = served_by s" by (simp add: served_by_def sy_served_def fun_eq_iff)
    with step.IH show ?thesis by (simp add: status(1))
  qed
qed

lemma sm_step_accepted: "sm_step serve s t \<Longrightarrow> set (accepted s) \<subseteq> set (accepted t)"
  by (erule sm_step.cases) (auto simp: submitRequest_def mgr_receive_def split: option.splits)

section \<open>Which requests run\<close>

definition running :: "'v mstate \<Rightarrow> request \<Rightarrow> bool" where
  "running s r \<longleftrightarrow> (\<exists>g w. workers s g = Some w \<and> w_pc w = WExec r)"

lemma mgr_replied_keeps_worker: "workers s k = Some w \<Longrightarrow> \<exists>w'. workers (mgr_replied x s) k = Some w' \<and> w_pc w' = w_pc w"
  by (auto simp: mgr_replied_def close_queue_def split: option.splits)

lemma running_replied: "running (mgr_loop_end (mgr_replied x s)) r \<longleftrightarrow> running s r"
  unfolding running_def mgr_loop_end_sel by (metis mgr_replied_worker mgr_replied_keeps_worker)

lemma running_same_pc: "workers s g = Some w \<Longrightarrow> w_pc w' = w_pc w \<Longrightarrow> workers t = (workers s)(g \<mapsto> w') \<Longrightarrow> running t r \<longleftrightarrow> running s r"
  unfolding running_def by (metis fun_upd_other fun_upd_same option.inject)


lemma running_upd:
  assumes "workers s g = Some w" "workers t = (workers s)(g \<mapsto> w')" "workers_inv s"
  shows "running t r' \<longleftrightarrow> (w_pc w' = WExec r') \<or> (running s r' \<and> (\<forall>r. w_pc w = WExec r \<longrightarrow> modelId r' \<noteq> modelId r))"
proof -
  have uniq: "g' = g" if "workers s g' = Some v" "w_pc v = WExec r'" "w_pc w = WExec r" "modelId r' = modelId r" for g' v r
    using workers_inv_executing [OF assms(3) that(1,2) assms(1) that(3,4)] .
  show ?thesis
  proof
    assume "running t r'"
    then obtain k v where v: "workers t k = Some v" "w_pc v = WExec r'" by (auto simp: running_def)
    show "(w_pc w' = WExec r') \<or> (running s r' \<and> (\<forall>r. w_pc w = WExec r \<longrightarrow> modelId r' \<noteq> modelId r))"
    proof (cases "k = g")
      case False
      with v assms(2) have k: "workers s k = Some v" by simp
      with v(2) uniq [OF k v(2)] False show ?thesis by (auto simp: running_def)
    qed (use v assms(2) in simp)
  next
    assume a: "(w_pc w' = WExec r') \<or> (running s r' \<and> (\<forall>r. w_pc w = WExec r \<longrightarrow> modelId r' \<noteq> modelId r))"
    show "running t r'"
    proof (cases "w_pc w' = WExec r'")
      case False
      with a obtain k v where v: "workers s k = Some v" "w_pc v = WExec r'" "\<forall>r. w_pc w = WExec r \<longrightarrow> modelId r' \<noteq> modelId r"
        by (auto simp: running_def)
      then have "k \<noteq> g" using assms(1) by auto
      then show ?thesis using v assms(2) by (auto simp: running_def)
    qed (use assms(2) in \<open>auto simp: running_def\<close>)
  qed
qed

text \<open>A step of the manager leaves the running requests alone, or starts one of a model that has none running.\<close>

lemma manage_running:
  assumes "sm_step (\<lambda>_ _ _. False) s t" "workers_inv s" "\<And>r. running s r \<Longrightarrow> grpcRequest r \<noteq> KOther"
  shows "(started t = started s \<and> running t = running s) \<or>
    (\<exists>r. started t = started s @ [r] \<and> running t = (\<lambda>q. running s q \<or> q = r) \<and> (\<forall>q. running s q \<longrightarrow> modelId q \<noteq> modelId r))"
  using assms(1)
proof cases
  case (take g w r rest)
  have free: "modelId q \<noteq> modelId r" if "running s q" for q
  proof
    assume m: "modelId q = modelId r"
    from that obtain g' w' where q: "workers s g' = Some w'" "w_pc w' = WExec q" by (auto simp: running_def)
    have "w_model w' = modelId q" "w_model w = modelId r"
      using workers_inv_worker [OF assms(2)] q take(2,4) by (auto simp: worker_ok_def)
    moreover have "\<not> retired w'" "\<not> retired w" using q(2) take(4) by (simp_all add: retired_def)
    ultimately have "g' = g" using workers_inv_live [OF assms(2) q(1)] workers_inv_live [OF assms(2) take(2)] m by auto
    then show False using q take(2,3) by simp
  qed
  have "running t = (\<lambda>q. running s q \<or> q = r)"
    using running_upd [OF take(2) _ assms(2), of t "w\<lparr>w_queue := rest, w_pc := WExec r\<rparr>"] take(1,3) by (auto simp: fun_eq_iff)
  then show ?thesis using free take(1) by (intro disjI2 exI [of _ r]) simp
next
  case (execute g w r x)
  then have "grpcRequest r \<noteq> KOther" using assms(3) by (auto simp: running_def)
  with execute(4) show ?thesis by (auto elim: worker_result.cases)
next
  case (receive r rest)
  have "workers s (next_worker s) = None" using workers_inv_fresh [OF assms(2)] by blast
  then have "workers s g = Some w \<Longrightarrow> g \<noteq> next_worker s" for g w by auto
  then have "running t q \<longleftrightarrow> running s q" for q
    using receive(1) unfolding running_def by (cases "m_data s (modelId r)") (auto simp: mgr_receive_def)
  then show ?thesis using receive(1) by (intro disjI1) (simp add: fun_eq_iff mgr_receive_def split: option.split)
next
  case (push g r w)
  have "running t q \<longleftrightarrow> running s q" for q
    by (rule running_same_pc [OF push(3), of "w\<lparr>w_queue := w_queue w @ [r]\<rparr>"]) (simp_all add: push(1))
  then show ?thesis using push(1) by (simp add: fun_eq_iff)
next
  case (reply x)
  have "running t q \<longleftrightarrow> running s q" for q unfolding reply(1) running_replied by (simp add: running_def)
  then show ?thesis using reply(1) by (intro disjI1) (simp add: fun_eq_iff mgr_replied_def close_queue_def split: option.split)
next
  case (report g w x)
  then show ?thesis using running_upd [OF report(2) _ assms(2), of t] by (auto simp: fun_eq_iff)
next
  case (finish g w)
  then show ?thesis using running_upd [OF finish(2) _ assms(2), of t] by (auto simp: fun_eq_iff)
qed (auto simp: running_def submitRequest_def fun_eq_iff)

section \<open>The history\<close>

definition served_of :: "string \<Rightarrow> system \<Rightarrow> served list" where
  "served_of m s = filter (\<lambda>sv. modelId (sv_req sv) = m) (sy_served s)"

text \<open>The requests of a model that were started are those that were served, and the one that runs.\<close>

definition history_inv :: "system \<Rightarrow> bool" where
  "history_inv s \<longleftrightarrow> (\<forall>m.
     (\<forall>r. running (sy_manager s) r \<longrightarrow> modelId r = m \<longrightarrow> of_model m (started (sy_manager s)) = map sv_req (served_of m s) @ [r]) \<and>
     ((\<forall>r. running (sy_manager s) r \<longrightarrow> modelId r \<noteq> m) \<longrightarrow> of_model m (started (sy_manager s)) = map sv_req (served_of m s)))"


lemma served_of_simps:
  "served_of m (s\<lparr>sy_manager := x\<rparr>) = served_of m s"
  "served_of m (s\<lparr>sy_manager := x, sy_os := u, sy_log := sy_log s @ [Handled sv]\<rparr>) =
     served_of m s @ (if modelId (sv_req sv) = m then [sv] else [])"
  "served_of m (s\<lparr>sy_status := q\<rparr>) = served_of m s"
  "served_of m (s\<lparr>sy_os := u, sy_status := q, sy_log := sy_log s @ status_events p t\<rparr>) = served_of m s"
  by (simp_all add: served_of_def sy_served_def)

lemma sys_step_history:
  assumes "sys_step S body s t" "workers_inv (sy_manager s)" "\<And>r. running (sy_manager s) r \<Longrightarrow> grpcRequest r \<noteq> KOther" "history_inv s"
  shows "history_inv t"
  using assms(1)
proof cases
  case (manage m)
  from manage_running [OF manage(2) assms(2,3)] assms(4) show ?thesis
    unfolding history_inv_def manage(1) served_of_simps(1) by (auto; metis append_Nil2)
next
  case (serve g w r res u v e x)
  let ?t = "sy_manager t"
  have run: "running ?t q \<longleftrightarrow> running (sy_manager s) q \<and> modelId q \<noteq> modelId r" for q
    using running_upd [OF serve(2) _ assms(2), of ?t "w\<lparr>w_pc := WSend x\<rparr>"] serve(1,3) by simp
  have "running (sy_manager s) r" using serve(2,3) by (auto simp: running_def)
  then have "of_model (modelId r) (started (sy_manager s)) = map sv_req (served_of (modelId r) s) @ [r]"
    using assms(4) by (simp add: history_inv_def)
  then have "of_model m (started (sy_manager s)) = map sv_req (served_of m t)" if "m = modelId r" for m
    using that by (simp add: serve(1) served_of_simps)
  moreover have "served_of m t = served_of m s" if "m \<noteq> modelId r" for m
    using that by (simp add: serve(1) served_of_simps)
  moreover have "started ?t = started (sy_manager s)" by (simp add: serve(1))
  ultimately show ?thesis using assms(4) unfolding history_inv_def run by metis
qed (use assms(4) in \<open>simp_all add: history_inv_def served_of_simps\<close>)

section \<open>What an unload that succeeds leaves\<close>

lemma remove_model_dir_plain:
  assumes "securejoin_plain X" "ac_RootModelDir c = path_str root" "list_all plain_name root" "root \<noteq> []"
    and "real_dirs (files s) root" "plain_name m" "\<not> is_link (get (files s) (root @ [m]))" "remove_model_dir X c m s = (Ok (), s')"
  shows "files s' = prune (root @ [m]) (files s)"
proof -
  have "SecureJoin X [path_str root, m] s = (Ok (path_str (root @ [m])), s)"
    using securejoin_plainD [OF assms(1,5,3,4,6,7)] by (simp add: SecureJoin_def SecureJoin_at_def)
  then have "wrapErr (\<lambda>e. status_Errorf (x_code X e) ''Error while deleting the %s dir: %v'' (Some e)) (os_RemoveAll (path_str (root @ [m]))) s = (Ok (), s')"
    using assms(8) by (simp add: remove_model_dir_def assms(2) andThen_def)
  then have "os_RemoveAll (path_str (root @ [m])) s = (Ok (), s')" by (simp add: wrapErr_Ok_iff del: wrapErr_apply)
  from os_RemoveAll_real [OF this assms(5,3,6)] show ?thesis .
qed

lemma tolerant_then:
  assumes "andThen (unload_tolerant F g m) (\<lambda>_. andThen n (\<lambda>_. ret ())) s = (Ok (), u)" "files (snd (m s)) = files s"
  shows "\<exists>v. files v = files s \<and> n v = (Ok (), u)"
  using assms unload_tolerant_snd [of F g m s] by (auto simp: andThen_Ok_iff)

lemma adapter_unload_clears:
  assumes "model_server S A root" "volume_ok A root (files s)" "plain_name m" "adapted_dirs A"
    and "adapter_unload (standalone A) m s = (Ok (), u)"
  shows "files u = prune (adapted_path A root m) (files s)"
proof -
  have "\<exists>v. files v = files s \<and> remove_model_dir (adapter_ext A) (adapter_config A) m v = (Ok (), u)"
  proof (cases A)
    case (OVMS S ans)
    then show ?thesis using assms(5) tolerant_then [of _ _ "lift_res (mm_UnloadModel ans m)" _ s u]
      by (simp add: ovms_UnloadModel_def embedded_cleanup_def remove_model_dir_def Let_def AdapterConfiguration.defs)
  next
    case (Triton S')
    then have "files (snd (rc_ModelUnload (ta_Client S') m s)) = files s" using assms(1) client_readonly_files by (simp add: model_server_def)
    then show ?thesis using assms(5) tolerant_then [of _ _ "rc_ModelUnload (ta_Client S') m" _ s u] Triton
      by (simp add: triton_UnloadModel_def embedded_cleanup_def remove_model_dir_def Let_def)
  next
    case (MLServer S')
    then have "files (snd (rc_ModelUnload (ma_Client S') m s)) = files s" using assms(1) client_readonly_files by (simp add: model_server_def)
    then show ?thesis using assms(5) tolerant_then [of _ _ "rc_ModelUnload (ma_Client S') m" _ s u] MLServer
      by (simp add: mlserver_UnloadModel_def embedded_cleanup_def remove_model_dir_def Let_def)
  qed (use assms(4) in simp)
  then obtain v where v: "files v = files s" "remove_model_dir (adapter_ext A) (adapter_config A) m v = (Ok (), u)" by blast
  have "files u = prune ((root @ [adapter_subdir A]) @ [m]) (files v)"
    by (rule remove_model_dir_plain [OF _ _ _ _ _ assms(3) _ v(2)])
      (use assms model_server_plain [OF assms(1)] v(1) in \<open>simp_all add: model_server_def volume_ok_def\<close>)
  then show ?thesis using assms(4) v(1) by (simp add: adapted_path_def adapter_entry_plain)
qed

lemma unload_clears:
  assumes "model_server S A root" "volume_ok A root (files s)" "model_id A m" "no_local_NotFound (adapter_ext A)"
    and "ps_unloadModel S m s = (Ok (), s')" "prefix (root @ [m]) p \<or> adapted_dirs A \<and> own_path A root m p"
  shows "get (files s') p = None"
proof -
  note ms = model_server_facts [OF assms(1)]
  have m: "plain_name m" using assms(3) by (simp add: model_id_def)
  obtain u where u: "unload_tolerant (is_NotFound (adapter_ext A)) (\<lambda>e. status_Errorf (x_code (adapter_ext A) e) ''Failed to unload model from runtime'' None)
      (adapter_unload (standalone A) m) s = (Ok (), u)" and c: "CleanupModel (adapter_ext A) (ps_config S) m u = (Ok (), s')"
    using assms(5) unfolding ps_unloadModel_def ms(1,8) by (auto simp: andThen_Ok_iff wrapErr_Ok_iff simp del: wrapErr_apply)
  have a: "adapter_unload (standalone A) m s = (Ok (), u)"
    using u standalone_unload_not_NotFound [OF assms(4), of m] by (auto simp: unload_tolerant_Ok_iff fails_with_def is_NotFound_def)
  have ru: "removed_below (adapted_path A root m) (files s) (files u)" using adapter_unload_removes [OF assms(1,2) m] a by simp
  then have v: "volume_ok A root (files u)" using removed_isolated [OF assms(2) ru assms(3)] by blast
  have rs: "removed_below (root @ [m]) (files u) (files s')" using puller_cleanup_removes [OF assms(1) v m] c by (simp add: ms(1))
  show ?thesis
  proof (cases "prefix (root @ [m]) p")
    case True
    have "files s' = prune (root @ [m]) (files u)"
      by (rule CleanupModel_plain [OF ms(4,2,5,6) volume_root [OF v] m _ c]) (use v in \<open>simp add: volume_ok_def\<close>)
    then show ?thesis using True by (simp add: prune_get)
  next
    case False
    then have ad: "adapted_dirs A" "prefix (adapted_path A root m) p" using assms(6) by (auto simp: own_path_iff)
    then have "get (files u) p = None"
      using adapter_unload_clears [OF assms(1,2) m ad(1) a] by (simp add: prune_get adapted_path_def)
    then show ?thesis using removed_below_get [OF rs, of p] by metis
  qed
qed

section \<open>The volume\<close>

text \<open>Requests as the theorems assume them: made by \<open>loadModel\<close> or \<open>unloadModel\<close>, with a plain model id, and no Keras model in Triton.\<close>

definition request_ok :: "adapter \<Rightarrow> (nat \<Rightarrow> LoadModelRequest) \<Rightarrow> request \<Rightarrow> bool" where
  "request_ok A body r \<longleftrightarrow> grpcRequest r \<noteq> KOther \<and> model_id A (modelId r) \<and> (let q = (body (rid r))\<lparr>ModelId := modelId r\<rparr> in
     \<not> needs_converter A q \<and> type_spelled_exactly (adapter_ext A) (ModelKey q) \<and> type_written_back (adapter_ext A) (ModelKey q))"

lemma andThen_ret_snd: "snd (andThen m (\<lambda>x. ret (f x)) s) = snd (m s)"
  by (cases "m s"; cases "fst (m s)") (simp_all add: andThen_def)

lemma handle_isolated:
  assumes "model_server S A root" "request_ok A body r" "volume_ok A root (files o')"
  shows "touches_only (own_path A root (modelId r)) (files o') (files (snd (handle S body r o'))) \<and> volume_ok A root (files (snd (handle S body r o')))"
proof (cases "grpcRequest r = KLoad")
  case True
  let ?q = "(body (rid r))\<lparr>ModelId := modelId r\<rparr>"
  have "model_id A (ModelId ?q)" "\<not> needs_converter A ?q" "type_spelled_exactly (adapter_ext A) (ModelKey ?q)" "type_written_back (adapter_ext A) (ModelKey ?q)"
    using assms(2) by (simp_all add: request_ok_def Let_def)
  from load_isolated [OF assms(1,3) this] True show ?thesis by (simp add: handle_def andThen_ret_snd)
next
  case False
  with unload_isolated [OF assms(1,3), of "modelId r"] assms(2) show ?thesis by (simp add: handle_def andThen_ret_snd request_ok_def)
qed

text \<open>The volume as the last event that concerns a model left it.\<close>

definition last_left :: "os \<Rightarrow> string \<Rightarrow> system \<Rightarrow> fs" where
  "last_left u m s = (let es = filter (concerns m) (sy_log s) in if es = [] then files u else left_by (last es))"

lemma last_left_snoc:
  "sy_log t = sy_log s @ [e] \<Longrightarrow> last_left u m t = (if concerns m e then left_by e else last_left u m s)"
  "sy_log t = sy_log s \<Longrightarrow> last_left u m t = last_left u m s"
  by (simp_all add: last_left_def Let_def)

definition volume_inv :: "adapter \<Rightarrow> fpath \<Rightarrow> os \<Rightarrow> system \<Rightarrow> bool" where
  "volume_inv A root u s \<longleftrightarrow> volume_ok A root (files (sy_os s)) \<and> list_all status_ok (sy_status s) \<and>
     (\<forall>m p. model_id A m \<longrightarrow> own_path A root m p \<longrightarrow> get (files (sy_os s)) p = get (last_left u m s) p)"

text \<open>A step of a status request leaves the paths of a model alone, or it is an event of that model.\<close>

lemma status_events_left:
  assumes "touches_only (status_touched A root p) (files o') t" "status_ok p" "model_id A m" "own_path A root m q"
    and "sy_log s' = sy_log s @ status_events p t" "get (files o') q = get (last_left u m s) q"
  shows "get t q = get (last_left u m s') q"
proof (cases "status_touched A root p q")
  case False
  then have "get t q = get (files o') q" using assms(1) by (auto simp: touches_only_def)
  moreover have "last_left u m s' = last_left u m s \<or> last_left u m s' = t"
    using assms(5) last_left_snoc(1) [of s' s _ u m] last_left_snoc(2) [of s' s u m] by (auto simp: status_events_def split: option.splits if_splits)
  ultimately show ?thesis using assms(6) by auto
next
  case True
  have "p = Asked \<or> status_model p = Some m"
  proof (cases "p = Asked")
    case False
    then obtain m' where m': "status_model p = Some m'" "own_path A root m' q" using True by (auto simp: status_touched_def)
    then have "m' = m" using own_path_disjoint [OF m'(2) assms(4) status_model_id [OF assms(2) m'(1)] assms(3)] by simp
    then show ?thesis using m' by simp
  qed simp
  then have "\<exists>e. status_events p t = [e] \<and> concerns m e \<and> left_by e = t" by (cases "p = Asked") (simp_all add: status_events_def)
  then obtain e where "status_events p t = [e]" "concerns m e" "left_by e = t" by blast
  then have "last_left u m s' = t" using assms(5) last_left_snoc(1) [of s' s e u m] by simp
  then show ?thesis by simp
qed

lemma sys_step_volume:
  assumes "sys_step S body s t" "model_server S A root" "volume_inv A root u s"
    and "\<And>r. running (sy_manager s) r \<Longrightarrow> request_ok A body r"
  shows "volume_inv A root u t"
  using assms(1)
proof cases
  case (manage m)
  with assms(3) show ?thesis by (simp add: volume_inv_def last_left_def)
next
  case (serve g w r res u' v e x)
  have ok: "request_ok A body r" using assms(4) serve(2,3) by (auto simp: running_def)
  have vol: "volume_ok A root (files (sy_os s))" using assms(3) by (simp add: volume_inv_def)
  from handle_isolated [OF assms(2) ok vol] serve(4)
  have t: "touches_only (own_path A root (modelId r)) (files (sy_os s)) (files u')" "volume_ok A root (files u')" by simp_all
  have "get (files u') p = get (last_left u m t) p" if m: "model_id A m" "own_path A root m p" for m p
  proof (cases "m = modelId r")
    case False
    then have "\<not> own_path A root (modelId r) p" using own_path_disjoint m ok by (auto simp: request_ok_def)
    then have "get (files u') p = get (files (sy_os s)) p" using t(1) by (auto simp: touches_only_def)
    then show ?thesis using assms(3) m False last_left_snoc(1) [of t s _ u m] by (simp add: volume_inv_def serve(1))
  qed (use last_left_snoc(1) [of t s _ u m] in \<open>simp add: serve(1)\<close>)
  then show ?thesis using t(2) assms(3) unfolding volume_inv_def serve(1) by simp
next
  case ask
  with assms(3) show ?thesis by (simp add: volume_inv_def last_left_def)
next
  case (status i p p' u')
  have p: "status_ok p" "volume_ok A root (files (sy_os s))" using assms(3) status(2,3) by (auto simp: volume_inv_def list_all_length)
  note st = status_step_isolated [OF assms(2) p(2,1) status(5)]
  then have "get (files u') q = get (last_left u m t) q" if "model_id A m" "own_path A root m q" for m q
    using status_events_left [of A root p "sy_os s" "files u'" m q t s u] p(1) that assms(3) status(1) by (simp add: volume_inv_def)
  moreover have "list_all status_ok ((sy_status s)[i := p'])"
    using st assms(3) by (auto simp: volume_inv_def list_all_iff dest: set_update_subset_insert [THEN subsetD])
  ultimately show ?thesis using st by (simp add: volume_inv_def status(1))
qed

text \<open>After an unload that succeeded, nothing of the model is there until the next of its requests is handled.\<close>

definition cleared_inv :: "adapter \<Rightarrow> fpath \<Rightarrow> system \<Rightarrow> bool" where
  "cleared_inv A root s \<longleftrightarrow> (\<forall>m p. model_id A m \<longrightarrow> served_of m s \<noteq> [] \<longrightarrow> grpcRequest (sv_req (last (served_of m s))) = KUnload \<longrightarrow>
     sv_err (last (served_of m s)) = None \<longrightarrow> prefix (root @ [m]) p \<or> adapted_dirs A \<and> own_path A root m p \<longrightarrow> get (files (sy_os s)) p = None)"

lemma handled_unload:
  "handle S body r o1 = (res, o2) \<Longrightarrow> handler_result res = Some (v, None) \<Longrightarrow> grpcRequest r = KUnload \<Longrightarrow> ps_unloadModel S (modelId r) o1 = (Ok (), o2)"
  by (cases res) (auto simp: handle_def andThen_Ok_iff)

lemma sys_step_cleared:
  assumes "sys_step S body s t" "model_server S A root" "volume_inv A root u s" "cleared_inv A root s" "no_local_NotFound (adapter_ext A)"
    and "\<And>r. running (sy_manager s) r \<Longrightarrow> request_ok A body r"
  shows "cleared_inv A root t"
  using assms(1)
proof cases
  case (serve g w r res u' v e x)
  have ok: "request_ok A body r" using assms(6) serve(2,3) by (auto simp: running_def)
  have vol: "volume_ok A root (files (sy_os s))" using assms(3) by (simp add: volume_inv_def)
  have t: "touches_only (own_path A root (modelId r)) (files (sy_os s)) (files u')" using handle_isolated [OF assms(2) ok vol] serve(4) by simp
  show ?thesis
    unfolding cleared_inv_def
  proof (intro allI impI)
    fix m p
    assume m: "model_id A m" and l: "served_of m t \<noteq> []" "grpcRequest (sv_req (last (served_of m t))) = KUnload" "sv_err (last (served_of m t)) = None"
      and p: "prefix (root @ [m]) p \<or> adapted_dirs A \<and> own_path A root m p"
    show "get (files (sy_os t)) p = None"
    proof (cases "m = modelId r")
      case True
      then have "grpcRequest r = KUnload" "e = None" using l serve(1) by (simp_all add: served_of_simps)
      with handled_unload [OF serve(4)] serve(5) have "ps_unloadModel S m (sy_os s) = (Ok (), u')" by (simp add: True)
      from unload_clears [OF assms(2) vol m assms(5) this p] show ?thesis by (simp add: serve(1))
    next
      case False
      have "own_path A root m p" using p by (auto simp: own_path_def)
      then have "\<not> own_path A root (modelId r) p" using own_path_disjoint m ok False by (auto simp: request_ok_def)
      then have "get (files u') p = get (files (sy_os s)) p" using t by (auto simp: touches_only_def)
      moreover have "served_of m t = served_of m s" using False by (simp add: serve(1) served_of_simps)
      ultimately show ?thesis using assms(4) m l p by (auto simp: cleared_inv_def serve(1))
    qed
  qed
next
  case (status i p p' u')
  have p: "status_ok p" "volume_ok A root (files (sy_os s))" using assms(3) status(2,3) by (auto simp: volume_inv_def list_all_length)
  have gone: "get (files u') q = None" if "get (files (sy_os s)) q = None" for q
    using status_step_isolated [OF assms(2) p(2,1) status(5)] that unfolding only_removed_def by metis
  have "served_of m t = served_of m s" for m by (simp add: status(1) served_of_simps)
  moreover have "sy_os t = u'" by (simp add: status(1))
  ultimately show ?thesis using assms(4) gone by (simp add: cleared_inv_def)
qed (use assms(4) in \<open>simp_all add: cleared_inv_def served_of_simps\<close>)

lemma running_accepted:
  assumes "sm_reach serve s"
  shows "set (started s) \<subseteq> set (accepted s)" "running s r \<Longrightarrow> r \<in> set (started s)"
proof -
  show "set (started s) \<subseteq> set (accepted s)"
  proof
    fix r assume "r \<in> set (started s)"
    then have "r \<in> set (of_model (modelId r) (started s))" by (simp add: of_model_def)
    then have "r \<in> set (of_model (modelId r) (accepted s))" using sm_reach_fifo [OF assms] by (simp add: fifo_inv_def)
    then show "r \<in> set (accepted s)" by (simp add: of_model_def)
  qed
  show "running s r \<Longrightarrow> r \<in> set (started s)"
    using sm_reach_result [OF assms] by (auto simp: running_def result_inv_def)
qed

lemma sys_invariants:
  assumes "sys_reach S body u s" "model_server S A root" "volume_ok A root (files u)" "\<forall>r \<in> set (accepted (sy_manager s)). request_ok A body r"
  shows "history_inv s \<and> volume_inv A root u s \<and> (no_local_NotFound (adapter_ext A) \<longrightarrow> cleared_inv A root s)"
  using assms(1,4)
proof (induction rule: sys_reach.induct)
  case init
  show ?case using assms(3)
    by (simp add: history_inv_def volume_inv_def cleared_inv_def running_def newModelStateManager_def served_of_def sy_served_def last_left_def)
next
  case (step s t)
  have "set (accepted (sy_manager s)) \<subseteq> set (accepted (sy_manager t))"
    using step.hyps(2) by cases (auto dest: sm_step_accepted)
  then have ok: "\<forall>r \<in> set (accepted (sy_manager s)). request_ok A body r" using step.prems by blast
  note reach = sys_reach_manager [OF step.hyps(1)]
  have run: "request_ok A body r" if "running (sy_manager s) r" for r
    using running_accepted(1) [OF reach] running_accepted(2) [OF reach that] ok by blast
  then have kind: "running (sy_manager s) r \<Longrightarrow> grpcRequest r \<noteq> KOther" for r by (auto simp: request_ok_def)
  from step.IH [OF ok] have IH: "history_inv s" "volume_inv A root u s" "no_local_NotFound (adapter_ext A) \<longrightarrow> cleared_inv A root s" by blast+
  have "history_inv t" by (rule sys_step_history [OF step.hyps(2) sm_reach_workers [OF reach] kind IH(1)])
  moreover have "volume_inv A root u t" by (rule sys_step_volume [OF step.hyps(2) assms(2) IH(2) run])
  moreover have "cleared_inv A root t" if "no_local_NotFound (adapter_ext A)"
    using sys_step_cleared [OF step.hyps(2) assms(2) IH(2) _ that run] IH(3) that by blast
  ultimately show ?case by blast
qed

lemma served_prefix:
  assumes "sm_reach serve (sy_manager s)" "history_inv s"
  shows "prefix (map sv_req (served_of m s)) (of_model m (accepted (sy_manager s)))"
proof -
  have "prefix (map sv_req (served_of m s)) (of_model m (started (sy_manager s)))"
    using assms(2) unfolding history_inv_def by (metis prefix_def append_Nil2)
  moreover have "prefix (of_model m (started (sy_manager s))) (of_model m (accepted (sy_manager s)))"
    using sm_reach_fifo [OF assms(1)] by (simp add: fifo_inv_def)
  ultimately show ?thesis by (rule prefix_order.trans)
qed

section \<open>Properties\<close>

text \<open>
  C13: At every moment, however requests for different models and the steps of status requests interleave, the paths of a model are as the last of the
  model's own requests left them, or a later step of a status request that emptied the adapter's directory or purged this very model, or as
  they were at the start; and the requests that were served are, in this order, accepted requests of the model.
\<close>

theorem volume_follows_requests:
  assumes "sys_reach S body u s" "model_server S A root" "volume_ok A root (files u)" "\<forall>r \<in> set (accepted (sy_manager s)). request_ok A body r"
    and "model_id A m" "own_path A root m p"
  shows "get (files (sy_os s)) p = get (last_left u m s) p \<and> prefix (map sv_req (served_of m s)) (of_model m (accepted (sy_manager s)))"
proof -
  note inv = sys_invariants [OF assms(1-4)]
  show ?thesis using inv assms(5,6) served_prefix [OF sys_reach_manager [OF assms(1)] inv [THEN conjunct1]] by (auto simp: volume_inv_def)
qed

lemma prefix_to_last:
  assumes "prefix xs ys" "distinct ys" "ys \<noteq> []" "last ys \<in> set xs"
  shows "xs = ys"
proof -
  obtain zs where zs: "ys = xs @ zs" using assms(1) by (auto simp: prefix_def)
  have "zs = []"
  proof (rule ccontr)
    assume "zs \<noteq> []"
    then have "last ys \<in> set zs" using zs by simp
    then show False using assms(2,4) zs by auto
  qed
  then show ?thesis using zs by simp
qed

lemma answered_served:
  assumes "sys_reach S body u s" "ps_UnloadModel (callers (sy_manager s) (rid r)) = Some (v, None)" "r \<in> set (accepted (sy_manager s))"
    and "grpcRequest r \<noteq> KOther"
  shows "\<exists>sv \<in> set (sy_served s). sv_req sv = r \<and> sv_err sv = None"
proof -
  note reach = sys_reach_manager [OF assms(1)]
  obtain x where x: "callers (sy_manager s) (rid r) = Got x" "res_err x = None"
    using assms(2) by (cases "callers (sy_manager s) (rid r)") (auto simp: ps_UnloadModel_def elim: sm_unloadModel.elims)
  then obtain r' where r': "r' \<in> set (started (sy_manager s))" "worker_result (served_by s) r' x" "res_rid x = rid r"
    using sm_reach_result [OF reach] unfolding result_inv_def result_of_def by blast
  have "rid r' = rid r" using r'(2,3) by (cases rule: worker_result.cases) auto
  moreover have "r' \<in> set (accepted (sy_manager s))" using r'(1) running_accepted(1) [OF reach] by blast
  ultimately have "r' = r" using sm_reach_caller [OF reach] assms(3) by (auto simp: caller_inv_def distinct_map dest: inj_onD)
  with r'(2) assms(4) x(2) show ?thesis by (cases rule: worker_result.cases) (auto simp: served_by_def)
qed

text \<open>
  C10: When a caller's unload is answered without an error and no request for the model was accepted after it, no file, directory or link
  that was pulled for the model is left on the volume, and nothing of its adapted form (whose removal TorchServe's adapter does not check): whatever
  requests for this and for other models ran before or are still running, and whatever status requests came between.
\<close>

theorem confirmed_unload_leaves_nothing:
  assumes "sys_reach S body u s" "model_server S A root" "volume_ok A root (files u)" "\<forall>r \<in> set (accepted (sy_manager s)). request_ok A body r"
    and "no_local_NotFound (adapter_ext A)" "grpcRequest r = KUnload" "of_model (modelId r) (accepted (sy_manager s)) = rs @ [r]"
    and "ps_UnloadModel (callers (sy_manager s) (rid r)) = Some (v, None)"
    and "prefix (root @ [modelId r]) p \<or> adapted_dirs A \<and> own_path A root (modelId r) p"
  shows "get (files (sy_os s)) p = None"
proof -
  let ?m = "modelId r"
  note reach = sys_reach_manager [OF assms(1)] and inv = sys_invariants [OF assms(1-4)]
  have acc: "r \<in> set (of_model ?m (accepted (sy_manager s)))" using assms(7) by simp
  then have r: "r \<in> set (accepted (sy_manager s))" by (simp add: of_model_def)
  then have ok: "model_id A ?m" using assms(4) by (auto simp: request_ok_def)
  obtain sv where sv: "sv \<in> set (sy_served s)" "sv_req sv = r" "sv_err sv = None"
    using answered_served [OF assms(1,8) r] assms(6) by auto
  have "distinct (accepted (sy_manager s))" using sm_reach_caller [OF reach] by (auto simp: caller_inv_def distinct_map)
  then have dist: "distinct (of_model ?m (accepted (sy_manager s)))" by (simp add: of_model_def)
  have "map sv_req (served_of ?m s) = of_model ?m (accepted (sy_manager s))"
  proof (rule prefix_to_last [OF served_prefix [OF reach inv [THEN conjunct1]]])
    show "last (of_model ?m (accepted (sy_manager s))) \<in> set (map sv_req (served_of ?m s))"
      using sv assms(7) by (auto simp: served_of_def)
  qed (use dist assms(7) in simp_all)
  then have ne: "served_of ?m s \<noteq> []" and d: "distinct (map sv_req (served_of ?m s))" and "last (map sv_req (served_of ?m s)) = r"
    using assms(7) dist by auto
  then have last: "served_of ?m s \<noteq> []" "sv_req (last (served_of ?m s)) = r" "distinct (map sv_req (served_of ?m s))"
    by (simp_all add: last_map)
  have "sv \<in> set (served_of ?m s)" using sv by (simp add: served_of_def)
  with last sv(2) have "last (served_of ?m s) = sv" by (metis distinct_map inj_onD last_in_set)
  moreover have "cleared_inv A root s" using inv assms(5) by simp
  ultimately show ?thesis using assms(6,9) ok last(1) sv(2,3) by (auto simp: cleared_inv_def)
qed

section \<open>The theorems at work\<close>

text \<open>A run with one unload: it is accepted, handled and answered.\<close>

definition one_worker :: "request \<Rightarrow> request list \<Rightarrow> reply wpc \<Rightarrow> reply worker" where
  "one_worker r q pc = \<lparr>w_model = modelId r, w_queue = q, w_closed = False, w_pc = pc\<rparr>"

definition one_state :: "request \<Rightarrow> request list \<Rightarrow> reply wpc \<Rightarrow> reply rslt list \<Rightarrow> reply mpc \<Rightarrow> request list \<Rightarrow> reply mstate" where
  "one_state r q pc results mpc st = \<lparr>m_requests = [], m_closed = False, m_results = results,
     m_data = [modelId r \<mapsto> \<lparr>md_worker = 0, refCount = 1\<rparr>], m_pc = mpc, m_nilchan = False,
     workers = [0 \<mapsto> one_worker r q pc], next_worker = 1,
     callers = (\<lambda>_. NotCalled)(rid r := Waiting), accepted = [r], started = st\<rparr>"

definition one_result :: "request \<Rightarrow> reply rslt" where
  "one_result r = \<lparr>res_rid = rid r, res_model = modelId r, res_resp = RespUnload (Some Unloaded), res_err = None\<rparr>"

lemma manage_to:
  "sys_reach S body u \<lparr>sy_manager = m, sy_os = w, sy_status = q, sy_log = l\<rparr> \<Longrightarrow> sm_step (\<lambda>_ _ _. False) m m' \<Longrightarrow>
     sys_reach S body u \<lparr>sy_manager = m', sy_os = w, sy_status = q, sy_log = l\<rparr>"
  using sys_reach.step [OF _ sys_step.manage [of "\<lparr>sy_manager = m, sy_os = w, sy_status = q, sy_log = l\<rparr>" m' S body]] by simp

lemma one_request_started: "sys_reach S body u \<lparr>sy_manager = one_state r [] (WExec r) [] MSelect [r], sy_os = u, sy_status = [], sy_log = []\<rparr>"
proof -
  let ?F = "\<lambda>_ _ _. False"
  let ?m1 = "submitRequest r newModelStateManager :: reply mstate"
  let ?m2 = "one_state r [] WRecv [] (MSend 0 r) []" and ?m3 = "one_state r [r] WRecv [] MSelect []"
  note defs = submitRequest_def newModelStateManager_def StateManagerChannelLength_def one_state_def one_worker_def
  have 0: "sys_reach S body u \<lparr>sy_manager = newModelStateManager, sy_os = u, sy_status = [], sy_log = []\<rparr>" by (rule sys_reach.init)
  have 1: "sm_step ?F newModelStateManager ?m1" by (rule sm_step.submit) (simp_all add: newModelStateManager_def)
  have 2: "sm_step ?F ?m1 ?m2"
    using sm_step.receive [of ?m1 r "[]" ?F] by (simp add: defs mgr_receive_def)
  have 3: "sm_step ?F ?m2 ?m3"
    using sm_step.push [of ?m2 0 r "one_worker r [] WRecv" ?F] by (simp add: defs mgr_loop_end_def)
  have 4: "sm_step ?F ?m3 (one_state r [] (WExec r) [] MSelect [r])"
    using sm_step.take [of ?m3 0 "one_worker r [r] WRecv" r "[]" ?F] by (simp add: defs)
  show ?thesis by (rule manage_to [OF manage_to [OF manage_to [OF manage_to [OF 0 1] 2] 3] 4])
qed

lemma one_unload_answered:
  assumes "handle S body r u = (Ok Unloaded, u')" "grpcRequest r = KUnload"
  shows "\<exists>m. sys_reach S body u \<lparr>sy_manager = m, sy_os = u', sy_status = [], sy_log = [Handled \<lparr>sv_req = r, sv_resp = Some Unloaded, sv_err = None, sv_files = files u'\<rparr>]\<rparr> \<and>
    accepted m = [r] \<and> callers m (rid r) = Got (one_result r)"
proof -
  let ?F = "\<lambda>_ _ _. False"
  let ?l = "[Handled \<lparr>sv_req = r, sv_resp = Some Unloaded, sv_err = None, sv_files = files u'\<rparr>]"
  let ?s = "\<lparr>sy_manager = one_state r [] (WExec r) [] MSelect [r], sy_os = u, sy_status = [], sy_log = []\<rparr>"
  have "worker_result (\<lambda>r' v' e'. r' = r \<and> v' = Some Unloaded \<and> e' = None) r (one_result r)"
    using worker_result.wr_unload [of r "\<lambda>r' v' e'. r' = r \<and> v' = Some Unloaded \<and> e' = None" "Some Unloaded" None] assms(2)
    by (simp add: one_result_def)
  then have "sys_step S body ?s \<lparr>sy_manager = one_state r [] (WSend (one_result r)) [] MSelect [r], sy_os = u', sy_status = [], sy_log = ?l\<rparr>"
    using sys_step.serve [of ?s 0 "one_worker r [] (WExec r)" r S body "Ok Unloaded" u' "Some Unloaded" None "one_result r"] assms(1)
    by (simp add: one_state_def one_worker_def)
  with one_request_started have 5: "sys_reach S body u \<lparr>sy_manager = one_state r [] (WSend (one_result r)) [] MSelect [r], sy_os = u', sy_status = [], sy_log = ?l\<rparr>"
    by (rule sys_reach.step)
  have 6: "sm_step ?F (one_state r [] (WSend (one_result r)) [] MSelect [r]) (one_state r [] WRecv [one_result r] MSelect [r])"
    using sm_step.report [of "one_state r [] (WSend (one_result r)) [] MSelect [r]" 0 "one_worker r [] (WSend (one_result r))" "one_result r" ?F]
    by (simp add: one_state_def one_worker_def StateManagerChannelLength_def)
  have 7: "sm_step ?F (one_state r [] WRecv [one_result r] MSelect [r]) (one_state r [] WRecv [] (MReply (one_result r)) [r])"
    using sm_step.result [of "one_state r [] WRecv [one_result r] MSelect [r]" "one_result r" "[]" ?F] by (simp add: one_state_def)
  let ?m = "one_state r [] WRecv [] (MReply (one_result r)) [r]"
  have 8: "sm_step ?F ?m (mgr_loop_end (mgr_replied (one_result r) (?m\<lparr>callers := (callers ?m)(rid r := Got (one_result r))\<rparr>)))"
    using sm_step.reply [of ?m "one_result r" ?F] by (simp add: one_state_def one_result_def)
  from manage_to [OF manage_to [OF manage_to [OF 5 6] 7] 8]
  show ?thesis by (intro exI conjI) (assumption, simp_all add: one_state_def)
qed

definition demo_unload :: request where
  "demo_unload = \<lparr>rid = 0, modelId = ''m'', grpcRequest = KUnload\<rparr>"

lemma demo_unload_facts:
  "request_ok (Triton demo_served) (\<lambda>_. demo_load_req) demo_unload"
  "\<exists>m u'. sys_reach demo_pod (\<lambda>_. demo_load_req) (demo_os demo_two_models) \<lparr>sy_manager = m, sy_os = u',
      sy_status = [], sy_log = [Handled \<lparr>sv_req = demo_unload, sv_resp = Some Unloaded, sv_err = None, sv_files = files u'\<rparr>]\<rparr> \<and>
    u' = snd (handle demo_pod (\<lambda>_. demo_load_req) demo_unload (demo_os demo_two_models)) \<and>
    accepted m = [demo_unload] \<and> callers m 0 = Got (one_result demo_unload)"
proof -
  have "\<not> needs_converter (Triton demo_served) (demo_load_req\<lparr>ModelId := ''m''\<rparr>)" by code_simp
  then show "request_ok (Triton demo_served) (\<lambda>_. demo_load_req) demo_unload"
    using demo_type_ext_laws by (simp add: request_ok_def demo_unload_def model_id_def plain_name_def tritonModelSubdir_def demo_served_def)
  let ?h = "handle demo_pod (\<lambda>_. demo_load_req) demo_unload (demo_os demo_two_models)"
  have "fst ?h = Ok Unloaded" by code_simp
  then have "?h = (Ok Unloaded, snd ?h)" by (simp add: prod_eq_iff)
  from one_unload_answered [OF this] show "\<exists>m u'. sys_reach demo_pod (\<lambda>_. demo_load_req) (demo_os demo_two_models) \<lparr>sy_manager = m, sy_os = u',
      sy_status = [], sy_log = [Handled \<lparr>sv_req = demo_unload, sv_resp = Some Unloaded, sv_err = None, sv_files = files u'\<rparr>]\<rparr> \<and> u' = snd ?h \<and>
    accepted m = [demo_unload] \<and> callers m 0 = Got (one_result demo_unload)"
    by (simp add: demo_unload_def)
qed

theorem confirmed_unload_leaves_nothing_witness:
  "get (files (snd (handle demo_pod (\<lambda>_. demo_load_req) demo_unload (demo_os demo_two_models)))) [''models'', ''m'', ''2''] = None"
proof -
  obtain m u' where r: "sys_reach demo_pod (\<lambda>_. demo_load_req) (demo_os demo_two_models) \<lparr>sy_manager = m, sy_os = u',
      sy_status = [], sy_log = [Handled \<lparr>sv_req = demo_unload, sv_resp = Some Unloaded, sv_err = None, sv_files = files u'\<rparr>]\<rparr>"
    and u: "u' = snd (handle demo_pod (\<lambda>_. demo_load_req) demo_unload (demo_os demo_two_models))"
    and m: "accepted m = [demo_unload]" "callers m 0 = Got (one_result demo_unload)"
    using demo_unload_facts(2) by blast
  have "volume_ok (Triton demo_served) [''models''] (files (demo_os demo_two_models))" using demo_two_models_ok by (simp add: demo_os_def)
  from confirmed_unload_leaves_nothing [OF r demo_pod_serves this, of demo_unload "[]" "Some Unloaded" "[''models'', ''m'', ''2'']"] m demo_unload_facts(1)
    demo_type_ext_laws(3)
  show ?thesis unfolding u by (simp add: ps_UnloadModel_def demo_unload_def one_result_def demo_served_def)
qed

theorem volume_follows_requests_witness:
  "get (files (snd (handle demo_pod (\<lambda>_. demo_load_req) demo_unload (demo_os demo_two_models)))) [''models'', ''n'', ''f''] = Some (File 420 ''x'')"
proof -
  obtain m u' where r: "sys_reach demo_pod (\<lambda>_. demo_load_req) (demo_os demo_two_models) \<lparr>sy_manager = m, sy_os = u',
      sy_status = [], sy_log = [Handled \<lparr>sv_req = demo_unload, sv_resp = Some Unloaded, sv_err = None, sv_files = files u'\<rparr>]\<rparr>"
    and u: "u' = snd (handle demo_pod (\<lambda>_. demo_load_req) demo_unload (demo_os demo_two_models))"
    and m: "accepted m = [demo_unload]" using demo_unload_facts(2) by blast
  have "volume_ok (Triton demo_served) [''models''] (files (demo_os demo_two_models))" using demo_two_models_ok by (simp add: demo_os_def)
  moreover have "own_path (Triton demo_served) [''models''] ''n'' [''models'', ''n'', ''f'']" by (simp add: own_path_def)
  moreover have "model_id (Triton demo_served) ''n''" by (simp add: model_id_def plain_name_def tritonModelSubdir_def)
  moreover have "get demo_two_models [''models'', ''n'', ''f''] = Some (File 420 ''x'')" by code_simp
  ultimately show ?thesis
    using volume_follows_requests [OF r demo_pod_serves, of "''n''" "[''models'', ''n'', ''f'']"] m demo_unload_facts(1)
    unfolding u by (simp add: last_left_def served_of_def sy_served_def demo_unload_def demo_os_def)
qed

end
