(* ===== verification/GcsBatch.thy ===== *)
theory GcsBatch
  imports ObjectStores "HOL-Library.Multiset"
begin

text \<open>
  \<open>downloadBatch\<close> of \<open>pullman/storageproviders/gcs/downloader.go\<close>: at most four workers take targets from an unbuffered channel
  while the caller sends them, closes the channel and waits for the workers.

  The state has what the caller has still to send, whether the channel is closed, where each worker is, the field
  \<open>err\<close> of the downloader (shared by all batches of one client) and the file system. A step is one action of one
  goroutine; the check of the error, the download and the recording of an error are separate steps.
\<close>

section \<open>Steps\<close>

datatype gworker =
    WRecv
  | WGot Target
  | WFetch Target
  | WErr goerr
  | WGone

record gbatch =
  to_send :: "Target list"
  ch_closed :: bool
  gworkers :: "gworker list"
  d_err :: "goerr option"
  g_os :: os
  fetched :: "Target list"

definition gcs_maxDownloadConcurrency :: nat where
  "gcs_maxDownloadConcurrency = 4"

definition gcs_downloadBatch_start :: "goerr option \<Rightarrow> os \<Rightarrow> Target list \<Rightarrow> gbatch" where
  "gcs_downloadBatch_start err s targets =
     (let workerCount = (if length targets < gcs_maxDownloadConcurrency then length targets else gcs_maxDownloadConcurrency)
      in \<lparr>to_send = targets, ch_closed = False, gworkers = replicate workerCount WRecv, d_err = err, g_os = s, fetched = []\<rparr>)"

text \<open>The body of the worker's loop after the error check, for one target.\<close>

definition gcs_fetch :: "sdk \<Rightarrow> gcs_conn \<Rightarrow> string \<Rightarrow> Target \<Rightarrow> (os, unit) step" where
  "gcs_fetch S d bucket target =
     andThen (wrapErr (ErrWrap ''unable to open local file '%s' for writing: %w'' [LocalPath target]) (OpenFile (LocalPath target)))
       (\<lambda>_.
     andThen (wrapErr (ErrText ''failed to create reader for object(%s) in bucket(%s): %v'' [RemotePath target, bucket])
       (lift_res (sdk_gcs_reader S d bucket (RemotePath target)))) (\<lambda>(content, readErr).
     wrapErr (ErrText ''failed to write data to file(%s): from object(%s) in bucket(%s): %v'' [LocalPath target, RemotePath target, bucket])
       (andThen (fd_write (LocalPath target) content) (\<lambda>_. case readErr of Some e \<Rightarrow> fail_with e | None \<Rightarrow> ret ()))))"

text \<open>
  The actions: the caller hands a target to worker \<open>i\<close>, or closes the channel; worker \<open>i\<close> checks the error (and
  drops its target if there is one), downloads, records its error and ends, or ends at the closed channel.
\<close>

datatype gact = ASend nat | AClose | ACheck nat | AFetch nat | ASetError nat | AEnd nat

definition worker_at :: "gbatch \<Rightarrow> nat \<Rightarrow> gworker" where
  "worker_at b i = (if i < length (gworkers b) then gworkers b ! i else WGone)"

definition set_worker :: "nat \<Rightarrow> gworker \<Rightarrow> gbatch \<Rightarrow> gbatch" where
  "set_worker i w b = b\<lparr>gworkers := (gworkers b)[i := w]\<rparr>"

fun gcs_step :: "sdk \<Rightarrow> gcs_conn \<Rightarrow> string \<Rightarrow> gact \<Rightarrow> gbatch \<Rightarrow> gbatch option" where
  "gcs_step S d bucket (ASend i) b =
     (case (to_send b, worker_at b i) of
        (target # rest, WRecv) \<Rightarrow> if ch_closed b then None else Some (set_worker i (WGot target) (b\<lparr>to_send := rest\<rparr>))
      | _ \<Rightarrow> None)"
| "gcs_step S d bucket AClose b =
     (if to_send b = [] \<and> \<not> ch_closed b then Some (b\<lparr>ch_closed := True\<rparr>) else None)"
| "gcs_step S d bucket (ACheck i) b =
     (case worker_at b i of
        WGot target \<Rightarrow> Some (set_worker i (if d_err b \<noteq> None then WRecv else WFetch target) b)
      | _ \<Rightarrow> None)"
| "gcs_step S d bucket (AFetch i) b =
     (case worker_at b i of
        WFetch target \<Rightarrow>
          (case gcs_fetch S d bucket target (g_os b) of
             (Ok _, s') \<Rightarrow> Some (set_worker i WRecv (b\<lparr>g_os := s', fetched := target # fetched b\<rparr>))
           | (Err e, s') \<Rightarrow> Some (set_worker i (WErr e) (b\<lparr>g_os := s'\<rparr>))
           | (Panic m, s') \<Rightarrow> None)
      | _ \<Rightarrow> None)"
| "gcs_step S d bucket (ASetError i) b =
     (case worker_at b i of
        WErr e \<Rightarrow> Some (set_worker i WGone (b\<lparr>d_err := Some e\<rparr>))
      | _ \<Rightarrow> None)"
| "gcs_step S d bucket (AEnd i) b =
     (if worker_at b i = WRecv \<and> ch_closed b \<and> i < length (gworkers b) then Some (set_worker i WGone b) else None)"

text \<open>A run: the actions and the state after them. The call returns when all workers are gone.\<close>

inductive gcs_run :: "sdk \<Rightarrow> gcs_conn \<Rightarrow> string \<Rightarrow> gbatch \<Rightarrow> nat \<Rightarrow> gbatch \<Rightarrow> bool" for S d bucket b0 where
  run_start: "gcs_run S d bucket b0 0 b0"
| run_step: "gcs_run S d bucket b0 n b \<Longrightarrow> gcs_step S d bucket a b = Some b' \<Longrightarrow> gcs_run S d bucket b0 (Suc n) b'"

definition gcs_returned :: "gbatch \<Rightarrow> bool" where
  "gcs_returned b \<longleftrightarrow> ch_closed b \<and> list_all (\<lambda>w. w = WGone) (gworkers b)"

text \<open>The caller waits for a receiver that will never come.\<close>

definition gcs_stuck :: "gbatch \<Rightarrow> bool" where
  "gcs_stuck b \<longleftrightarrow> to_send b \<noteq> [] \<and> \<not> ch_closed b \<and> list_all (\<lambda>w. w = WGone) (gworkers b)"

section \<open>Progress and termination\<close>

fun gw_measure :: "gworker \<Rightarrow> nat" where
  "gw_measure WRecv = 1"
| "gw_measure (WGot t) = 4"
| "gw_measure (WFetch t) = 3"
| "gw_measure (WErr e) = 2"
| "gw_measure WGone = 0"

definition gb_measure :: "gbatch \<Rightarrow> nat" where
  "gb_measure b = 5 * length (to_send b) + (if ch_closed b then 0 else 1) + sum_list (map gw_measure (gworkers b))"

lemma sum_list_update_nat:
  "i < length ws \<Longrightarrow> sum_list (map f (ws[i := w])) + f (ws ! i) = sum_list (map f ws) + (f w :: nat)"
  by (induction ws arbitrary: i) (auto split: nat.split)

lemma worker_at_cases: "worker_at b i = w \<Longrightarrow> w \<noteq> WGone \<Longrightarrow> i < length (gworkers b) \<and> gworkers b ! i = w"
  by (auto simp: worker_at_def split: if_splits)

lemma gb_measure_set:
  assumes "worker_at b i \<noteq> WGone" "gworkers b' = gworkers b"
    and "5 * length (to_send b') + (if ch_closed b' then 0 else 1) + gw_measure w' <
      5 * length (to_send b) + (if ch_closed b then 0 else 1) + gw_measure (worker_at b i)"
  shows "gb_measure (set_worker i w' b') < gb_measure b"
  using worker_at_cases [OF refl assms(1)] sum_list_update_nat [of i "gworkers b" gw_measure w'] assms(2,3)
  by (simp add: gb_measure_def set_worker_def)

lemma gcs_step_measure: "gcs_step S d bucket a b = Some b' \<Longrightarrow> gb_measure b' < gb_measure b"
  by (cases a)
    (auto split: list.splits gworker.splits if_splits prod.splits res.splits intro!: gb_measure_set, simp_all add: gb_measure_def)

lemma gcs_run_measure: "gcs_run S d bucket b0 n b \<Longrightarrow> gb_measure b + n \<le> gb_measure b0"
  by (induction rule: gcs_run.induct) (auto dest: gcs_step_measure)

text \<open>
  What cannot go wrong before the end: as long as a worker is left, or all targets are sent, somebody can act
  (unless a download would panic).
\<close>

lemma gcs_not_stuck:
  assumes "\<not> gcs_returned b" "\<not> gcs_stuck b" "\<And>t s. gcs_fetch S d bucket t s \<noteq> (Panic m, s')" "gworkers b \<noteq> []"
    and "\<And>t s r s'. gcs_fetch S d bucket t s = (r, s') \<Longrightarrow> \<forall>m. r \<noteq> Panic m"
  shows "\<exists>a b'. gcs_step S d bucket a b = Some b'"
proof (cases "\<exists>i < length (gworkers b). gworkers b ! i \<noteq> WGone")
  case True
  then obtain i where i: "i < length (gworkers b)" "gworkers b ! i \<noteq> WGone" by blast
  then have w: "worker_at b i = gworkers b ! i" by (simp add: worker_at_def)
  show ?thesis
  proof (cases "gworkers b ! i")
    case WRecv
    show ?thesis
    proof (cases "ch_closed b")
      case True
      with w WRecv i show ?thesis by (intro exI [of _ "AEnd i"]) simp
    next
      case False
      then show ?thesis
        by (cases "to_send b") (auto intro: exI [of _ AClose] exI [of _ "ASend i"] simp: w WRecv)
    qed
  next
    case (WGot t)
    then show ?thesis by (intro exI [of _ "ACheck i"]) (simp add: w)
  next
    case (WFetch t)
    then show ?thesis using assms(5) [of t "g_os b"]
      by (intro exI [of _ "AFetch i"]) (auto simp: w split: prod.split res.split)
  next
    case (WErr e)
    then show ?thesis by (intro exI [of _ "ASetError i"]) (simp add: w)
  qed (use i in simp)
next
  case False
  then have "list_all (\<lambda>w. w = WGone) (gworkers b)" by (auto simp: list_all_length)
  with assms(1,2) have "to_send b = []" "\<not> ch_closed b" by (auto simp: gcs_returned_def gcs_stuck_def)
  then show ?thesis by (intro exI [of _ AClose]) simp
qed

section \<open>What a returned batch has done\<close>

text \<open>The targets that workers hold.\<close>

fun gw_holds :: "gworker \<Rightarrow> Target multiset" where
  "gw_holds (WGot t) = {#t#}"
| "gw_holds (WFetch t) = {#t#}"
| "gw_holds w = {#}"

definition holding :: "gbatch \<Rightarrow> Target multiset" where
  "holding b = sum_list (map gw_holds (gworkers b))"

definition no_failure :: "gbatch \<Rightarrow> bool" where
  "no_failure b \<longleftrightarrow> d_err b = None \<and> (\<forall>w \<in> set (gworkers b). \<forall>e. w \<noteq> WErr e)"

definition gcs_inv :: "Target list \<Rightarrow> gbatch \<Rightarrow> bool" where
  "gcs_inv ts b \<longleftrightarrow> (no_failure b \<longrightarrow> mset ts = mset (to_send b) + holding b + mset (fetched b)) \<and> (ch_closed b \<longrightarrow> to_send b = [])"

lemma holding_update:
  "i < length ws \<Longrightarrow> sum_list (map gw_holds (ws[i := w])) + gw_holds (ws ! i) = sum_list (map gw_holds ws) + gw_holds w"
  by (induction ws arbitrary: i) (auto split: nat.split simp: ac_simps)

lemma holding_set:
  assumes "worker_at b i = w" "w \<noteq> WGone" "gworkers b' = gworkers b"
  shows "holding (set_worker i w' b') + gw_holds w = holding b + gw_holds w'"
  using worker_at_cases [OF assms(1,2)] holding_update [of i "gworkers b" w'] assms(3)
  by (auto simp: holding_def set_worker_def)

lemma no_failure_set:
  assumes "worker_at b i = w" "w \<noteq> WGone" "\<And>e. w \<noteq> WErr e" "gworkers b' = gworkers b" "d_err b' = d_err b"
  shows "no_failure (set_worker i w' b') \<longrightarrow> no_failure b \<and> (\<forall>e. w' \<noteq> WErr e)"
proof
  assume n: "no_failure (set_worker i w' b')"
  have i: "i < length (gworkers b)" "gworkers b ! i = w" using worker_at_cases [OF assms(1,2)] by auto
  have "\<forall>e. gworkers b ! j \<noteq> WErr e" if "j < length (gworkers b)" for j
  proof (cases "j = i")
    case True
    with i assms(3) show ?thesis by simp
  next
    case False
    with n that assms(4) show ?thesis
      by (auto simp: no_failure_def set_worker_def) (metis length_list_update nth_list_update_neq nth_mem)
  qed
  then have "\<forall>w \<in> set (gworkers b). \<forall>e. w \<noteq> WErr e" by (auto simp: in_set_conv_nth)
  moreover have "\<forall>e. w' \<noteq> WErr e" "d_err b = None"
    using n i(1) assms(4,5) by (auto simp: no_failure_def set_worker_def set_update_memI)
  ultimately show "no_failure b \<and> (\<forall>e. w' \<noteq> WErr e)" by (simp add: no_failure_def)
qed

lemma set_worker_sel [simp]:
  "to_send (set_worker i w b) = to_send b" "ch_closed (set_worker i w b) = ch_closed b"
  "d_err (set_worker i w b) = d_err b" "g_os (set_worker i w b) = g_os b" "fetched (set_worker i w b) = fetched b"
  by (simp_all add: set_worker_def)

text \<open>One change of a worker, with the bookkeeping that goes with it.\<close>

lemma gcs_inv_set:
  assumes "worker_at b i \<noteq> WGone" "\<And>e. worker_at b i \<noteq> WErr e" "gcs_inv ts b" "gworkers b' = gworkers b" "d_err b' = d_err b"
    and "ch_closed b' \<longrightarrow> to_send b' = []"
    and "(\<forall>e. w' \<noteq> WErr e) \<Longrightarrow> no_failure b \<Longrightarrow>
      mset (to_send b') + gw_holds w' + mset (fetched b') = mset (to_send b) + gw_holds (worker_at b i) + mset (fetched b)"
  shows "gcs_inv ts (set_worker i w' b')"
proof -
  have "mset ts = mset (to_send b') + holding (set_worker i w' b') + mset (fetched b')" if nf: "no_failure (set_worker i w' b')"
  proof -
    have n: "no_failure b" "\<forall>e. w' \<noteq> WErr e" using no_failure_set [OF refl assms(1,2,4,5)] nf by blast+
    have "mset ts + gw_holds w' = (mset (to_send b) + mset (fetched b)) + (holding b + gw_holds w')"
      using assms(3) n(1) by (simp add: gcs_inv_def ac_simps)
    also have "\<dots> = (mset (to_send b) + gw_holds (worker_at b i) + mset (fetched b)) + holding (set_worker i w' b')"
      using holding_set [OF refl assms(1,4), of w'] by (simp add: ac_simps)
    also have "\<dots> = (mset (to_send b') + gw_holds w' + mset (fetched b')) + holding (set_worker i w' b')"
      using assms(7) [OF n(2,1)] by simp
    finally show ?thesis by (simp add: ac_simps)
  qed
  with assms(6) show ?thesis by (simp add: gcs_inv_def)
qed

lemma gcs_inv_closed: "gcs_inv ts b \<Longrightarrow> ch_closed b \<Longrightarrow> to_send b = []"
  by (simp add: gcs_inv_def)

lemma gcs_inv_step: "gcs_inv ts b \<Longrightarrow> gcs_step S d bucket a b = Some b' \<Longrightarrow> gcs_inv ts b'"
proof (cases a)
  case AClose
  assume inv: "gcs_inv ts b" and "gcs_step S d bucket a b = Some b'"
  with AClose have b': "b' = b\<lparr>ch_closed := True\<rparr>" "to_send b = []" by (auto split: if_splits)
  have "no_failure b' = no_failure b" "holding b' = holding b" by (simp_all add: b' no_failure_def holding_def)
  with inv b' show ?thesis by (simp add: gcs_inv_def)
next
  case (ASetError i)
  then show "gcs_inv ts b \<Longrightarrow> gcs_step S d bucket a b = Some b' \<Longrightarrow> ?thesis"
    by (auto simp: gcs_inv_def no_failure_def split: gworker.splits)
next
  case (ACheck i)
  then show "gcs_inv ts b \<Longrightarrow> gcs_step S d bucket a b = Some b' \<Longrightarrow> ?thesis"
    by (auto split: gworker.splits intro!: gcs_inv_set dest: gcs_inv_closed) (auto simp: no_failure_def)
qed (auto split: list.splits gworker.splits if_splits prod.splits res.splits intro!: gcs_inv_set dest: gcs_inv_closed)

lemma gcs_inv_start: "gcs_inv ts (gcs_downloadBatch_start err s ts)"
proof -
  have "sum_list (map gw_holds (replicate n WRecv)) = {#}" for n by (induction n) simp_all
  then show ?thesis by (simp add: gcs_inv_def gcs_downloadBatch_start_def Let_def holding_def)
qed

lemma gcs_inv_run: "gcs_run S d bucket b0 n b \<Longrightarrow> gcs_inv ts b0 \<Longrightarrow> gcs_inv ts b"
  by (induction rule: gcs_run.induct) (auto dest: gcs_inv_step)

lemma gb_measure_start: "gb_measure (gcs_downloadBatch_start err s ts) \<le> 5 * length ts + 5"
  by (simp add: gb_measure_def gcs_downloadBatch_start_def Let_def gcs_maxDownloadConcurrency_def sum_list_replicate)

lemma returned_holding: "list_all (\<lambda>w. w = WGone) ws \<Longrightarrow> sum_list (map gw_holds ws) = {#}"
  by (induction ws) simp_all

text \<open>
  C28: The concurrent download of gcs does all the work when it reports success: every schedule of a batch ends after at most
  \<open>5 n + 5\<close> actions for \<open>n\<close> targets, and if the call returns with no error then each target was downloaded by exactly one
  worker, exactly as often as it was given.
\<close>

theorem gcs_batch_success:
  assumes "gcs_run S d bucket (gcs_downloadBatch_start err s targets) n b"
  shows "n \<le> 5 * length targets + 5 \<and>
    (gcs_returned b \<and> d_err b = None \<longrightarrow> mset (fetched b) = mset targets)"
proof -
  have "n \<le> 5 * length targets + 5"
    using gcs_run_measure [OF assms] gb_measure_start [of err s targets] by linarith
  moreover have "mset (fetched b) = mset targets" if r: "gcs_returned b" "d_err b = None"
  proof -
    have inv: "gcs_inv targets b" by (rule gcs_inv_run [OF assms gcs_inv_start])
    have "no_failure b" using r by (auto simp: gcs_returned_def no_failure_def list_all_iff)
    with inv r returned_holding [of "gworkers b"] show ?thesis
      by (simp add: gcs_inv_def gcs_returned_def holding_def)
  qed
  ultimately show ?thesis by blast
qed

section \<open>Errors\<close>

text \<open>Running a list of actions.\<close>

fun gcs_exec :: "sdk \<Rightarrow> gcs_conn \<Rightarrow> string \<Rightarrow> gact list \<Rightarrow> gbatch \<Rightarrow> gbatch option" where
  "gcs_exec S d bucket [] b = Some b"
| "gcs_exec S d bucket (a # as) b = (case gcs_step S d bucket a b of None \<Rightarrow> None | Some b' \<Rightarrow> gcs_exec S d bucket as b')"

lemma gcs_run_trans: "gcs_run S d bucket b1 m b2 \<Longrightarrow> gcs_run S d bucket b0 n b1 \<Longrightarrow> gcs_run S d bucket b0 (n + m) b2"
  by (induction rule: gcs_run.induct) (auto intro: gcs_run.intros)

lemma gcs_exec_run: "gcs_exec S d bucket as b = Some b' \<Longrightarrow> gcs_run S d bucket b (length as) b'"
proof (induction as arbitrary: b)
  case Nil
  then show ?case by (simp add: run_start)
next
  case (Cons a as)
  then obtain b1 where "gcs_step S d bucket a b = Some b1" "gcs_run S d bucket b1 (length as) b'"
    by (auto split: option.splits)
  with gcs_run_trans [OF this(2) run_step [OF run_start this(1)]] show ?case by simp
qed

text \<open>With an error left from before, workers only drop targets, and none ends before the channel is closed.\<close>

definition drains :: "bool \<Rightarrow> gworker \<Rightarrow> bool" where
  "drains closed w = (case w of WRecv \<Rightarrow> True | WGot t \<Rightarrow> True | WGone \<Rightarrow> closed | _ \<Rightarrow> False)"

definition draining :: "goerr \<Rightarrow> os \<Rightarrow> gbatch \<Rightarrow> bool" where
  "draining e s b \<longleftrightarrow> d_err b = Some e \<and> g_os b = s \<and> fetched b = [] \<and> (ch_closed b \<longrightarrow> to_send b = []) \<and>
     list_all (drains (ch_closed b)) (gworkers b) \<and> (to_send b \<noteq> [] \<longrightarrow> gworkers b \<noteq> [])"

lemma list_all_update: "list_all P xs \<Longrightarrow> P x \<Longrightarrow> list_all P (xs[i := x])"
  using set_update_subset_insert [of xs i x] by (auto simp: list_all_iff)

lemma draining_set:
  "draining e s b \<Longrightarrow> drains (ch_closed b) w \<Longrightarrow> draining e s (set_worker i w b)"
  unfolding draining_def by (simp add: set_worker_def list_all_update)

lemma draining_worker: "draining e s b \<Longrightarrow> worker_at b i \<noteq> WGone \<Longrightarrow> drains (ch_closed b) (worker_at b i)"
  using worker_at_cases [OF refl] by (fastforce simp: draining_def list_all_length)

lemma draining_step:
  assumes dr: "draining e s b" and st: "gcs_step S d bucket a b = Some b'"
  shows "draining e s b'"
proof (cases a)
  case (ASend i)
  with st obtain t rest where b': "to_send b = t # rest" "\<not> ch_closed b" "b' = set_worker i (WGot t) (b\<lparr>to_send := rest\<rparr>)"
    by (auto split: list.splits gworker.splits if_splits)
  from dr b'(1,2) have "draining e s (b\<lparr>to_send := rest\<rparr>)" by (simp add: draining_def)
  then show ?thesis unfolding b'(3) by (rule draining_set) (simp add: drains_def)
next
  case AClose
  with st have b': "b' = b\<lparr>ch_closed := True\<rparr>" "to_send b = []" by (auto split: if_splits)
  have "drains True w" if "drains c w" for c w using that by (auto simp: drains_def split: gworker.splits)
  with dr b' show ?thesis by (auto simp: draining_def list_all_iff)
next
  case (ACheck i)
  with st dr have b': "b' = set_worker i WRecv b" by (auto simp: draining_def split: gworker.splits)
  show ?thesis unfolding b' by (rule draining_set [OF dr]) (simp add: drains_def)
next
  case (AFetch i)
  with st obtain t where "worker_at b i = WFetch t" by (auto split: gworker.splits)
  with draining_worker [OF dr, of i] show ?thesis by (simp add: drains_def)
next
  case (ASetError i)
  with st obtain x where "worker_at b i = WErr x" by (auto split: gworker.splits)
  with draining_worker [OF dr, of i] show ?thesis by (simp add: drains_def)
next
  case (AEnd i)
  with st have b': "b' = set_worker i WGone b" "ch_closed b" by (auto split: if_splits)
  show ?thesis unfolding b' by (rule draining_set [OF dr]) (simp add: drains_def b')
qed

lemma draining_run: "gcs_run S d bucket b0 n b \<Longrightarrow> draining e s b0 \<Longrightarrow> draining e s b"
  by (induction rule: gcs_run.induct) (auto dest: draining_step)

lemma draining_progress:
  assumes dr: "draining e s b" and stop: "\<And>a. gcs_step S d bucket a b = None"
  shows "gcs_returned b"
proof -
  have no_got: "\<forall>t. worker_at b i \<noteq> WGot t" for i using stop [of "ACheck i"] by auto
  have all: "worker_at b i = WRecv \<or> worker_at b i = WGone" if "i < length (gworkers b)" for i
    using draining_worker [OF dr, of i] no_got [of i] by (auto simp: drains_def split: gworker.splits)
  have at: "worker_at b i = gworkers b ! i" if "i < length (gworkers b)" for i using that by (simp add: worker_at_def)
  have closed: "ch_closed b"
  proof (rule ccontr)
    assume nc: "\<not> ch_closed b"
    then have ne: "to_send b \<noteq> []" using stop [of AClose] by auto
    with dr have l: "0 < length (gworkers b)" by (simp add: draining_def)
    with dr nc have "worker_at b 0 \<noteq> WGone" unfolding at [OF l] by (auto simp: draining_def list_all_length drains_def)
    with all [OF l] have "worker_at b 0 = WRecv" by simp
    with stop [of "ASend 0"] ne nc show False by (cases "to_send b") auto
  qed
  have "worker_at b i \<noteq> WRecv" if "i < length (gworkers b)" for i
    using stop [of "AEnd i"] closed that by auto
  with all at closed show ?thesis by (auto simp: gcs_returned_def list_all_length)
qed

text \<open>
  An error sticks to the client. The field \<open>err\<close> of a gcs client is never cleared, and the pull manager keeps the client, so once
  a batch has failed, every later batch of that client, in every schedule, downloads nothing and writes
  nothing, and when it can go no further it has returned the old error.
\<close>

lemma gcs_error_is_sticky:
  assumes "gcs_run S d bucket (gcs_downloadBatch_start (Some e) s targets) n b"
  shows "fetched b = [] \<and> g_os b = s \<and> d_err b = Some e \<and>
    (gcs_returned b \<or> (\<exists>a b'. gcs_step S d bucket a b = Some b'))"
proof -
  have "draining e s (gcs_downloadBatch_start (Some e) s targets)"
    by (auto simp: draining_def gcs_downloadBatch_start_def Let_def gcs_maxDownloadConcurrency_def list_all_iff drains_def)
  then have dr: "draining e s b" by (rule draining_run [OF assms])
  from draining_progress [OF this] have "gcs_returned b \<or> (\<exists>a b'. gcs_step S d bucket a b = Some b')"
    by (metis not_None_eq)
  with dr show ?thesis by (simp add: draining_def)
qed

text \<open>
  C36: A failing batch can block its caller for ever: a worker ends at its first error, so when more targets are given than
  there are workers, and the downloads of the first four fail before any of their errors is recorded, the caller
  waits on the channel with no receiver left, and no goroutine of the batch can act.
\<close>

theorem gcs_batch_deadlock:
  assumes "\<And>t s. \<exists>e s'. gcs_fetch S d bucket t s = (Err e, s')" "length targets > 4"
  shows "\<exists>n b. gcs_run S d bucket (gcs_downloadBatch_start None s targets) n b \<and> gcs_stuck b \<and>
    (\<forall>a. gcs_step S d bucket a b = None)"
proof -
  obtain t0 t1 t2 t3 t4 rest where ts: "targets = t0 # t1 # t2 # t3 # t4 # rest"
    using assms(2) by (auto simp: Suc_le_length_iff eval_nat_numeral dest!: Suc_leI)
  obtain er nx where f: "\<And>t u. gcs_fetch S d bucket t u = (Err (er t u), nx t u)"
    using assms(1) by metis
  let ?acts = "[ASend 0, ASend 1, ASend 2, ASend 3, ACheck 0, ACheck 1, ACheck 2, ACheck 3,
      AFetch 0, AFetch 1, AFetch 2, AFetch 3, ASetError 0, ASetError 1, ASetError 2, ASetError 3]"
  let ?b = "\<lparr>to_send = t4 # rest, ch_closed = False, gworkers = [WGone, WGone, WGone, WGone],
      d_err = Some (er t3 (nx t2 (nx t1 (nx t0 s)))), g_os = nx t3 (nx t2 (nx t1 (nx t0 s))), fetched = []\<rparr>"
  have "gcs_exec S d bucket ?acts (gcs_downloadBatch_start None s targets) = Some ?b"
    by (simp add: ts gcs_downloadBatch_start_def gcs_maxDownloadConcurrency_def f worker_at_def set_worker_def numeral_eq_Suc)
  from gcs_exec_run [OF this] have "gcs_run S d bucket (gcs_downloadBatch_start None s targets) (length ?acts) ?b" .
  moreover have "gcs_step S d bucket a ?b = None" for a
    by (cases a) (auto simp: worker_at_def nth_Cons split: nat.splits)
  ultimately show ?thesis by (intro exI [of _ "length ?acts"] exI [of _ ?b]) (simp add: gcs_stuck_def)
qed

lemma gcs_fetch_no_reader:
  assumes "sdk_gcs_reader S d bucket (RemotePath t) = Err e"
  shows "\<exists>e s'. gcs_fetch S d bucket t s = (Err e, s')"
proof (cases "OpenFile (LocalPath t) s")
  case (Pair r s')
  then show ?thesis using assms OpenFile_not_panic [of "LocalPath t" s] by (cases r) (auto simp: gcs_fetch_def andThen_def)
qed

definition broken_sdk :: sdk where
  "broken_sdk = demo_sdk\<lparr>sdk_gcs_reader := (\<lambda>c b k. Err (ExtErr ''no reader''))\<rparr>"

definition demo_target :: Target where
  "demo_target = \<lparr>RemotePath = ''m/a'', LocalPath = ''/a''\<rparr>"

theorem gcs_batch_deadlock_witness:
  "\<exists>n b. gcs_run broken_sdk None ''b'' (gcs_downloadBatch_start None (demo_os []) (replicate 5 demo_target)) n b \<and> gcs_stuck b"
proof -
  have "\<exists>e s'. gcs_fetch broken_sdk None ''b'' t s = (Err e, s')" for t s
    by (rule gcs_fetch_no_reader) (simp add: broken_sdk_def)
  from gcs_batch_deadlock [OF this, of "replicate 5 demo_target" "demo_os []"] show ?thesis by auto
qed

lemma gcs_error_is_sticky_example:
  "\<exists>b. gcs_exec demo_sdk None ''b'' [ASend 0, ACheck 0, AClose, AEnd 0]
      (gcs_downloadBatch_start (Some (ExtErr ''old'')) (demo_os []) [demo_target]) = Some b \<and>
    gcs_returned b \<and> fetched b = [] \<and> d_err b = Some (ExtErr ''old'')"
proof -
  let ?b0 = "gcs_downloadBatch_start (Some (ExtErr ''old'')) (demo_os []) [demo_target]"
  obtain b where b: "gcs_exec demo_sdk None ''b'' [ASend 0, ACheck 0, AClose, AEnd 0] ?b0 = Some b" "gcs_returned b"
    by (simp add: gcs_downloadBatch_start_def gcs_maxDownloadConcurrency_def worker_at_def set_worker_def gcs_returned_def)
  from gcs_error_is_sticky [OF gcs_exec_run [OF b(1)]] b show ?thesis by auto
qed

theorem gcs_batch_success_witness:
  "\<exists>b. gcs_exec demo_sdk None ''b'' [ASend 0, ACheck 0, AFetch 0, AClose, AEnd 0]
      (gcs_downloadBatch_start None (demo_os []) [demo_target]) = Some b \<and> mset (fetched b) = {#demo_target#}"
proof -
  let ?b0 = "gcs_downloadBatch_start None (demo_os []) [demo_target]"
  have "fst (gcs_fetch demo_sdk None ''b'' demo_target (demo_os [])) = Ok ()" by code_simp
  then obtain s1 where "gcs_fetch demo_sdk None ''b'' demo_target (demo_os []) = (Ok (), s1)" by (metis prod.collapse)
  then obtain b where b: "gcs_exec demo_sdk None ''b'' [ASend 0, ACheck 0, AFetch 0, AClose, AEnd 0] ?b0 = Some b" "gcs_returned b" "d_err b = None"
    by (simp add: gcs_downloadBatch_start_def gcs_maxDownloadConcurrency_def worker_at_def set_worker_def gcs_returned_def)
  from gcs_batch_success [OF gcs_exec_run [OF b(1)]] b show ?thesis by auto
qed

end
