(* ===== verification/Providers.thy ===== *)
theory Providers
  imports GcsBatch HttpStore PvcStore
begin

text \<open>
  The storage providers together: how each registers itself, the pull of gcs around its concurrent batch, and how far the pulls of all
  of them reach.
\<close>

section \<open>The pull of gcs\<close>

text \<open>
  What \<open>Pull\<close> may return, with the files and the error that is left in the client, which starts with \<open>err\<close>. A batch that blocks returns nothing.
\<close>

inductive gcs_Pull :: "sdk \<Rightarrow> ext \<Rightarrow> gcs_conn \<Rightarrow> goerr option \<Rightarrow> PullCommand \<Rightarrow> os \<Rightarrow> unit res \<Rightarrow> os \<Rightarrow> goerr option \<Rightarrow> bool"
  for S X r err pc s where
  no_targets: "gcs_Pull_targets S X r pc s = (Err e, s') \<Longrightarrow> gcs_Pull S X r err pc s (Err e) s' err"
| batch: "gcs_Pull_targets S X r pc s = (Ok (bucket, ts), s') \<Longrightarrow> gcs_run S r bucket (gcs_downloadBatch_start err s' ts) n b \<Longrightarrow>
    gcs_returned b \<Longrightarrow>
    res = (case d_err b of None \<Rightarrow> Ok () | Some e \<Rightarrow> Err (ErrWrap ''unable to download objects in bucket '%s': %w'' [bucket] e)) \<Longrightarrow>
    gcs_Pull S X r err pc s res (g_os b) (d_err b)"

section \<open>How far the pulls reach\<close>

lemma keeps_gcs_fetch:
  "below root t0 t \<Longrightarrow> root \<noteq> [] \<Longrightarrow> keeps (\<lambda>s. confined root t0 (files s)) (gcs_fetch S d b t)"
  unfolding gcs_fetch_def
  by (auto split: option.split intro!: keeps_intro keeps_OpenFile_below keeps_fd_write_below)

text \<open>A batch only works on the targets it was given.\<close>

fun gw_target :: "gworker \<Rightarrow> Target option" where
  "gw_target (WGot t) = Some t"
| "gw_target (WFetch t) = Some t"
| "gw_target _ = None"

definition batch_targets :: "(Target \<Rightarrow> bool) \<Rightarrow> gbatch \<Rightarrow> bool" where
  "batch_targets P b \<longleftrightarrow> list_all P (to_send b) \<and> list_all (\<lambda>w. \<forall>t. gw_target w = Some t \<longrightarrow> P t) (gworkers b)"

lemma batch_targets_at: "batch_targets P b \<Longrightarrow> gw_target (worker_at b i) = Some t \<Longrightarrow> P t"
  by (auto simp: batch_targets_def worker_at_def list_all_length split: if_splits)

lemma batch_targets_set:
  "batch_targets P b \<Longrightarrow> (\<And>t. gw_target w = Some t \<Longrightarrow> P t) \<Longrightarrow> gworkers b' = gworkers b \<Longrightarrow> list_all P (to_send b') \<Longrightarrow>
     batch_targets P (set_worker i w b')"
  by (simp add: batch_targets_def set_worker_def list_all_update)

lemma batch_targets_step:
  assumes "gcs_step S d bucket a b = Some b'" "batch_targets P b"
  shows "batch_targets P b'"
proof -
  have send: "list_all P (to_send b)" using assms(2) by (simp add: batch_targets_def)
  show ?thesis
  proof (cases a)
    case AClose
    then show ?thesis using assms by (auto simp: batch_targets_def split: if_splits)
  next
    case (ACheck i)
    then show ?thesis using assms(1) send batch_targets_at [OF assms(2), of i]
      by (auto split: gworker.splits if_splits intro!: batch_targets_set [OF assms(2)])
  qed (use assms(1) send in \<open>auto split: list.splits gworker.splits if_splits prod.splits res.splits intro!: batch_targets_set [OF assms(2)]\<close>)
qed

lemma gcs_step_confined:
  assumes "gcs_step S d bucket a b = Some b'" "batch_targets (below root t0) b" "root \<noteq> []" "confined root t0 (files (g_os b))"
  shows "confined root t0 (files (g_os b'))"
proof (cases a)
  case (AFetch i)
  have "confined root t0 (files s')" if "worker_at b i = WFetch t" "gcs_fetch S d bucket t (g_os b) = (r, s')" for t r s'
    using keepsD [OF keeps_gcs_fetch [OF batch_targets_at [OF assms(2)] assms(3)] assms(4), of i t] that by (metis gw_target.simps(2) snd_conv)
  with assms(1) AFetch show ?thesis by (auto split: gworker.splits prod.splits res.splits)
qed (use assms(1,4) in \<open>auto split: list.splits gworker.splits if_splits\<close>)

lemma gcs_run_confined:
  assumes "gcs_run S d bucket (gcs_downloadBatch_start err s ts) n b" "list_all (below root t0) ts" "root \<noteq> []" "confined root t0 (files s)"
  shows "batch_targets (below root t0) b \<and> confined root t0 (files (g_os b))"
  using assms(1)
proof induction
  case run_start
  show ?case using assms(2,4) by (simp add: batch_targets_def gcs_downloadBatch_start_def Let_def list_all_iff)
next
  case (run_step n b a b')
  then show ?case using batch_targets_step gcs_step_confined assms(3) by blast
qed

lemma gcs_targets_below:
  assumes "securejoin_scoped X" "Directory pc = path_str root" "list_all plain_name root" "root \<noteq> []" "no_links (files s) root"
    and "gcs_Pull_targets S X r pc s = (Ok (bucket, ts), s')"
  shows "s' = s \<and> list_all (below root (files s)) ts"
  using assms(6) resolve_targets_below [OF assms(1,3,4,5)]
  by (auto simp: gcs_Pull_targets_def Let_def assms(2) andThen_Ok_iff split: option.splits)

lemma gcs_targets_state: "snd (gcs_Pull_targets S X r pc s) = s"
  using resolve_targets_state [of X "Directory pc"]
  by (auto simp: gcs_Pull_targets_def Let_def andThen_def split: option.split prod.split res.split) (metis snd_conv)+

text \<open>A pull of gcs, whatever the schedule.\<close>

lemma gcs_Pull_confined:
  assumes "securejoin_scoped X" "Directory pc = path_str root" "list_all plain_name root" "root \<noteq> []" "no_links (files s) root"
    and "gcs_Pull S X r err pc s res s' err'"
  shows "confined root (files s) (files s')"
  using assms(6)
proof cases
  case (no_targets e)
  then show ?thesis using gcs_targets_state [of S X r pc s] no_targets(3) by simp
next
  case (batch bucket ts u n b)
  then show ?thesis using gcs_targets_below [OF assms(1-5) batch(3)] gcs_run_confined [OF batch(4) _ assms(4)] by auto
qed

text \<open>
  What a pull from gcs may leave: what some schedule of its batch returns with, or the state in which a batch is that never returns, or is cut off.
\<close>

inductive gcs_outcome :: "sdk \<Rightarrow> ext \<Rightarrow> gcs_conn \<Rightarrow> PullCommand \<Rightarrow> os \<Rightarrow> unit res \<Rightarrow> os \<Rightarrow> bool" for K X g pc s where
  returned: "gcs_Pull K X g err pc s r s' err' \<Longrightarrow> gcs_outcome K X g pc s r s'"
| panicked: "gcs_Pull_targets K X g pc s = (Panic m, s') \<Longrightarrow> gcs_outcome K X g pc s (Panic m) s'"
| unfinished: "gcs_Pull_targets K X g pc s = (Ok (bucket, ts), u) \<Longrightarrow> gcs_run K g bucket (gcs_downloadBatch_start err u ts) n b \<Longrightarrow>
    r \<noteq> Ok () \<Longrightarrow> gcs_outcome K X g pc s r (g_os b)"

text \<open>
  What a pull through any of the providers may come to: nothing, when no repository client is found for it; or what the one client that is found for
  it does.
\<close>

inductive provider_outcome :: "ext \<Rightarrow> PullCommand \<Rightarrow> os \<Rightarrow> unit res \<Rightarrow> os \<Rightarrow> bool" for X pc s where
  no_client: "r \<noteq> Ok () \<Longrightarrow> provider_outcome X pc s r s"
| by_s3: "s3_Pull K X c pc s = (r, s') \<Longrightarrow> provider_outcome X pc s r s'"
| by_azure: "azure_Pull K X d pc s = (r, s') \<Longrightarrow> provider_outcome X pc s r s'"
| by_gcs: "gcs_outcome K X g pc s r s' \<Longrightarrow> provider_outcome X pc s r s'"
| by_http: "http_Pull N X c pc s = (r, s') \<Longrightarrow> provider_outcome X pc s r s'"
| by_pvc: "pvc_Pull X base pc s = (r, s') \<Longrightarrow> provider_outcome X pc s r s'"

definition provider_pull :: "(ext \<Rightarrow> PullCommand \<Rightarrow> (os, unit) step) \<Rightarrow> bool" where
  "provider_pull pull \<longleftrightarrow> (\<forall>X pc s. provider_outcome X pc s (fst (pull X pc s)) (snd (pull X pc s)))"

lemma gcs_outcome_exists: "\<exists>r s'. gcs_outcome K X g pc s r s'"
proof (cases "gcs_Pull_targets K X g pc s")
  case (Pair r s')
  then show ?thesis
    by (cases r) (auto intro: returned [OF no_targets] panicked unfinished [OF _ run_start, where r = "Err (ErrMsg [] [])"])
qed

lemma gcs_outcome_confined:
  assumes "securejoin_scoped X" "Directory pc = path_str root" "list_all plain_name root" "root \<noteq> []" "no_links (files s) root"
    and "gcs_outcome K X g pc s r s'"
  shows "confined root (files s) (files s')"
  using assms(6)
proof cases
  case (returned err err')
  then show ?thesis by (rule gcs_Pull_confined [OF assms(1-5)])
next
  case (panicked m)
  then show ?thesis using gcs_targets_state [of K X g pc s] by simp
next
  case (unfinished bucket ts u err n b)
  then show ?thesis using gcs_targets_below [OF assms(1-5) unfinished(2)] gcs_run_confined [OF unfinished(3) _ assms(4)] by auto
qed

lemma provider_outcome_stays:
  assumes "securejoin_scoped X" "Directory pc = path_str root" "list_all plain_name root" "root \<noteq> []" "no_links (files s) root"
    and "provider_outcome X pc s r s'"
  shows "stays_below root (files s) (files s')"
  using assms(6)
proof cases
  case (by_s3 K c)
  then show ?thesis using stays_below_confined [OF s3_pull.pull_in_scope [OF assms(1-5), of K c]] by simp
next
  case (by_azure K d)
  then show ?thesis using stays_below_confined [OF azure_pull.pull_in_scope [OF assms(1-5), of K d]] by simp
next
  case (by_gcs K g)
  then show ?thesis using stays_below_confined [OF gcs_outcome_confined [OF assms(1-5)]] by simp
next
  case (by_http N c)
  then show ?thesis using stays_below_confined [OF http_pull.pull_in_scope [OF assms(1-5), of N c]] by simp
next
  case (by_pvc base)
  then show ?thesis using pvc_pull.pull_in_scope [OF assms(1-5), of base] by simp
qed simp

lemma provider_pull_bounded:
  assumes "provider_pull pull"
  shows "bounded_pull pull"
proof unfold_locales
  fix X root and pc :: PullCommand and s :: os
  assume a: "securejoin_scoped X" "Directory pc = path_str root" "list_all plain_name root" "root \<noteq> []" "no_links (files s) root"
  show "stays_below root (files s) (files (snd (pull X pc s)))"
    using provider_outcome_stays [OF a] assms unfolding provider_pull_def by blast
qed

section \<open>Registration\<close>

text \<open>
  The clients of all providers, and the functions \<open>init\<close> of their packages. What \<open>NewRepository\<close> of the volume provider returns depends on the
  files (\<open>pvc_NewRepository\<close>) and is the argument \<open>vol\<close>.
\<close>

datatype repo_client = S3Repo s3_conn | AzureRepo az_conn | GcsRepo gcs_conn | HttpRepo http_client | PvcRepo string

definition s3_init :: "sdk \<Rightarrow> repo_client registry \<Rightarrow> repo_client registry res" where
  "s3_init K = RegisterProvider ''s3'' \<lparr>p_GetKey = s3_GetKey, p_NewRepository = (\<lambda>c. res_bind (s3_NewRepository K c) (\<lambda>r. Ok (S3Repo r)))\<rparr>"

definition azure_init :: "sdk \<Rightarrow> repo_client registry \<Rightarrow> repo_client registry res" where
  "azure_init K = RegisterProvider ''azure''
     \<lparr>p_GetKey = azure_GetKey, p_NewRepository = (\<lambda>c. res_bind (azure_NewRepository K c) (\<lambda>r. Ok (AzureRepo r)))\<rparr>"

definition gcs_init :: "sdk \<Rightarrow> repo_client registry \<Rightarrow> repo_client registry res" where
  "gcs_init K = RegisterProvider ''gcs'' \<lparr>p_GetKey = gcs_GetKey, p_NewRepository = (\<lambda>c. res_bind (gcs_NewRepository K c) (\<lambda>r. Ok (GcsRepo r)))\<rparr>"

definition http_init :: "net \<Rightarrow> repo_client registry \<Rightarrow> repo_client registry res" where
  "http_init N = RegisterProvider ''http'' \<lparr>p_GetKey = http_GetKey, p_NewRepository = (\<lambda>c. res_bind (http_NewRepository N c) (\<lambda>r. Ok (HttpRepo r)))\<rparr>"

definition pvc_init :: "(RepositoryConfig \<Rightarrow> string res) \<Rightarrow> repo_client registry \<Rightarrow> repo_client registry res" where
  "pvc_init vol = RegisterProvider ''pvc'' \<lparr>p_GetKey = pvc_GetKey, p_NewRepository = (\<lambda>c. res_bind (vol c) (\<lambda>r. Ok (PvcRepo r)))\<rparr>"

text \<open>The packages that the puller imports, in Go's order of initialisation; the program for the command line imports two of them.\<close>

definition puller_providers :: "sdk \<Rightarrow> net \<Rightarrow> (RepositoryConfig \<Rightarrow> string res) \<Rightarrow> repo_client registry res" where
  "puller_providers K N vol =
     res_bind (azure_init K (\<lambda>t. None)) (\<lambda>r1. res_bind (gcs_init K r1) (\<lambda>r2. res_bind (http_init N r2) (\<lambda>r3. res_bind (pvc_init vol r3) (s3_init K))))"

definition cli_providers :: "sdk \<Rightarrow> net \<Rightarrow> repo_client registry res" where
  "cli_providers K N = res_bind (http_init N (\<lambda>t. None)) (s3_init K)"

text \<open>
  The clients that the puller's registry makes, and the pull of each. The argument \<open>run\<close> stands for the runs of gcs: one of its outcomes
  for every command and state.
\<close>

primrec puller_Pull :: "sdk \<Rightarrow> net \<Rightarrow> (gcs_conn \<Rightarrow> ext \<Rightarrow> PullCommand \<Rightarrow> (os, unit) step) \<Rightarrow> ext \<Rightarrow> repo_client \<Rightarrow> PullCommand \<Rightarrow> (os, unit) step" where
  "puller_Pull K N run X (S3Repo c) = s3_Pull K X c"
| "puller_Pull K N run X (AzureRepo d) = azure_Pull K X d"
| "puller_Pull K N run X (GcsRepo g) = run g X"
| "puller_Pull K N run X (HttpRepo c) = http_Pull N X c"
| "puller_Pull K N run X (PvcRepo base) = pvc_Pull X base"

lemma puller_providers_registered: "\<exists>reg. puller_providers K N vol = Ok reg \<and> dom reg = {''azure'', ''gcs'', ''http'', ''pvc'', ''s3''}"
  by (auto simp: puller_providers_def azure_init_def gcs_init_def http_init_def pvc_init_def s3_init_def RegisterProvider_def split: if_splits)

lemma cli_providers_registered: "\<exists>reg. cli_providers K N = Ok reg \<and> dom reg = {''http'', ''s3''}"
  by (auto simp: cli_providers_def http_init_def s3_init_def RegisterProvider_def split: if_splits)

section \<open>The program for the command line\<close>

text \<open>\<open>pullman/cmd/main.go\<close>. The flags as \<open>flag.Parse\<close> leaves them, and their defaults.\<close>

record cli_flags =
  configFilename :: string
  repositoryName :: string
  outputDirectory :: string
  cli_paths :: "string list"

definition cli_defaults :: cli_flags where
  "cli_defaults = \<lparr>configFilename = ''storage-config.json'', repositoryName = [], outputDirectory = ''./puller_output'', cli_paths = []\<rparr>"

text \<open>
  The JSON library decodes the map of repositories entry by entry with \<open>UnmarshalJSON\<close>, on the text of the entry, and ends at the
  first error; of entries with one name the last counts.
\<close>

definition unmarshal_entry :: "ext \<Rightarrow> json \<Rightarrow> RepositoryConfig res" where
  "unmarshal_entry X v = UnmarshalJSON (X\<lparr>x_parse := (\<lambda>text. Some v)\<rparr>) []"

fun unmarshal_entries :: "ext \<Rightarrow> (string \<times> json) list \<Rightarrow> (string \<times> RepositoryConfig) list res" where
  "unmarshal_entries X [] = Ok []"
| "unmarshal_entries X ((k, v) # m) =
     res_bind (unmarshal_entry X v) (\<lambda>rc. res_bind (unmarshal_entries X m) (\<lambda>rest.
       Ok (if k \<in> fst ` set rest then rest else (k, rc) # rest)))"

definition unmarshal_configs :: "ext \<Rightarrow> string \<Rightarrow> (string \<times> RepositoryConfig) list res" where
  "unmarshal_configs X text = (case x_parse X text of
     Some JNull \<Rightarrow> Ok []
   | Some (JObj m) \<Rightarrow> unmarshal_entries X m
   | _ \<Rightarrow> Err (ExtErr ''json''))"

text \<open>What is printed when the program ends; its exit status is always 0.\<close>

datatype cli_outcome = NoConfigFile goerr | BadConfig goerr | NoRepository string | PullFailed goerr | Pulled

text \<open>The clients of the two providers that are registered.\<close>

fun cli_Pull :: "sdk \<Rightarrow> net \<Rightarrow> ext \<Rightarrow> repo_client \<Rightarrow> PullCommand \<Rightarrow> (os, unit) step" where
  "cli_Pull K N X (S3Repo c) pc = s3_Pull K X c pc"
| "cli_Pull K N X (HttpRepo c) pc = http_Pull N X c pc"
| "cli_Pull K N X _ pc = fail_with (ErrMsg ''not registered'' [])"

definition cli_command :: "cli_flags \<Rightarrow> RepositoryConfig \<Rightarrow> PullCommand" where
  "cli_command fl rc = \<lparr>pc_RepositoryConfig = rc, Directory = outputDirectory fl,
     Targets = map (\<lambda>p. \<lparr>RemotePath = p, LocalPath = []\<rparr>) (cli_paths fl)\<rparr>"

definition cli_pull :: "sdk \<Rightarrow> net \<Rightarrow> ext \<Rightarrow> int \<Rightarrow> int \<Rightarrow> PullCommand \<Rightarrow> (os, cli_outcome) step" where
  "cli_pull K N X now now' pc s =
     (case cli_providers K N of
        Ok reg \<Rightarrow>
          (case PullManager_Pull (cli_Pull K N X) now [] now' pc (NewPullManager reg [], s) of
             (Ok _, (_, s')) \<Rightarrow> (Ok Pulled, s')
           | (Err e, (_, s')) \<Rightarrow> (Ok (PullFailed e), s')
           | (Panic m, (_, s')) \<Rightarrow> (Panic m, s'))
      | Err e \<Rightarrow> (Err e, s)
      | Panic m \<Rightarrow> (Panic m, s))"

definition cli_main :: "sdk \<Rightarrow> net \<Rightarrow> ext \<Rightarrow> int \<Rightarrow> int \<Rightarrow> cli_flags \<Rightarrow> (os, cli_outcome) step" where
  "cli_main K N X now now' fl =
     andThen (attempt (os_ReadFile (configFilename fl))) (\<lambda>r. case r of
       Err e \<Rightarrow> ret (NoConfigFile e)
     | Panic m \<Rightarrow> lift_res (Panic m)
     | Ok configMapJSON \<Rightarrow>
         (case unmarshal_configs X configMapJSON of
            Err e \<Rightarrow> ret (BadConfig e)
          | Panic m \<Rightarrow> lift_res (Panic m)
          | Ok configMap \<Rightarrow>
              (case map_of configMap (repositoryName fl) of
                 None \<Rightarrow> ret (NoRepository (repositoryName fl))
               | Some rc \<Rightarrow> cli_pull K N X now now' (cli_command fl rc))))"

lemma cli_Pull_confined:
  assumes "securejoin_scoped X" "Directory pc = path_str root" "list_all plain_name root" "root \<noteq> []" "no_links (files s) root"
  shows "confined root (files s) (files (snd (cli_Pull K N X c pc s)))"
  using s3_pull.pull_in_scope [OF assms] http_pull.pull_in_scope [OF assms] by (cases c) simp_all

text \<open>A pull through the manager touches the files only by the pull of one client.\<close>

lemma PullManager_Pull_files:
  "snd (snd (PullManager_Pull rp now mid now' pc (p, w))) = w \<or> (\<exists>c. snd (snd (PullManager_Pull rp now mid now' pc (p, w))) = snd (rp c pc w))"
  by (auto simp: PullManager_Pull_def split: prod.split res.split) (metis snd_conv)

text \<open>Hence the puller's manager, in whatever state its client cache is, pulls through one of the providers or not at all.\<close>

lemma manager_provider_pull:
  assumes "\<And>g X pc s. gcs_outcome K X g pc s (fst (run g X pc s)) (snd (run g X pc s))"
  shows "provider_pull (\<lambda>X pc s. (let (r, (p', s')) = PullManager_Pull (puller_Pull K N run X) now mid now' pc (p, s) in (r, s')))"
proof -
  have client: "provider_outcome X pc s (fst (puller_Pull K N run X c pc s)) (snd (puller_Pull K N run X c pc s))" for X c pc s
    by (cases c) (auto simp: prod_eq_iff intro: by_s3 by_azure by_http by_pvc by_gcs [OF assms])
  have "provider_outcome X pc s (fst q) (snd (snd q))"
    if "q = PullManager_Pull (puller_Pull K N run X) now mid now' pc (p, s)" for X pc s q
    using that client [of X pc s]
    by (auto simp: PullManager_Pull_def Let_def intro: no_client split: prod.split res.split) (metis prod.sel)
  from this [OF refl] show ?thesis unfolding provider_pull_def by (simp add: split_def Let_def)
qed

lemma cli_pull_confined:
  assumes "securejoin_scoped X" "Directory pc = path_str root" "list_all plain_name root" "root \<noteq> []" "no_links (files s) root"
  shows "confined root (files s) (files (snd (cli_pull K N X now now' pc s)))"
proof (cases "cli_providers K N")
  case (Ok reg)
  let ?r = "PullManager_Pull (cli_Pull K N X) now [] now' pc (NewPullManager reg [], s)"
  have "snd (cli_pull K N X now now' pc s) = snd (snd ?r)"
    by (simp add: cli_pull_def Ok split: prod.split res.split)
  then show ?thesis
    using PullManager_Pull_files [of "cli_Pull K N X" now "[]" now' pc "NewPullManager reg []" s] cli_Pull_confined [OF assms] by auto
qed (simp_all add: cli_pull_def)

lemma cli_main_confined:
  assumes "securejoin_scoped X" "outputDirectory fl = path_str root" "list_all plain_name root" "root \<noteq> []" "no_links (files s) root"
  shows "confined root (files s) (files (snd (cli_main K N X now now' fl s)))"
proof -
  obtain q u where u: "attempt (os_ReadFile (configFilename fl)) s = (q, u)" by fastforce
  have "keeps (\<lambda>u. files u = files s) (os_ReadFile (configFilename fl))" by (simp add: keeps_def)
  from keepsD [OF keeps_attempt [OF this], of s] u have f: "files u = files s" by simp
  have "confined root (files s) (files (snd (cli_pull K N X now now' (cli_command fl rc) u)))" for rc
    using cli_pull_confined [of X "cli_command fl rc" root u] assms by (simp add: cli_command_def f)
  then show ?thesis
    by (cases q) (simp_all add: cli_main_def andThen_def u f split: res.split option.split)
qed

text \<open>
  C30: A pull stays in its directory. Whatever the storage lists or answers, whatever paths the command asks for, and also when it fails
  half way, a pull from s3, azure or http changes no file, directory or link outside the command's directory, except for making that directory and its
  missing parents, and neither does a pull from gcs with its concurrent workers, in any schedule. A pull from a volume, wherever it is mounted
  and whatever it holds, stays there too, and makes no link on the way to the directory. So does a run of the program for the command line stay in its output directory.
\<close>

theorem pull_confined_to_directory:
  assumes "securejoin_scoped X" "Directory pc = path_str root" "list_all plain_name root" "root \<noteq> []" "no_links (files s) root"
  shows "confined root (files s) (files (snd (s3_Pull K X c pc s))) \<and>
    confined root (files s) (files (snd (azure_Pull K X d pc s))) \<and>
    confined root (files s) (files (snd (http_Pull N X h pc s))) \<and>
    (\<forall>err res s' err'. gcs_Pull K X g err pc s res s' err' \<longrightarrow> confined root (files s) (files s')) \<and>
    stays_below root (files s) (files (snd (pvc_Pull X base pc s))) \<and>
    (\<forall>now now' fl. outputDirectory fl = path_str root \<longrightarrow> confined root (files s) (files (snd (cli_main K N X now now' fl s))))"
proof (intro conjI allI impI)
  show "confined root (files s) (files (snd (s3_Pull K X c pc s)))" "confined root (files s) (files (snd (azure_Pull K X d pc s)))"
    "confined root (files s) (files (snd (http_Pull N X h pc s)))"
    using s3_pull.pull_in_scope [OF assms] azure_pull.pull_in_scope [OF assms] http_pull.pull_in_scope [OF assms] by blast+
next
  fix err res s' err' assume "gcs_Pull K X g err pc s res s' err'"
  then show "confined root (files s) (files s')" by (rule gcs_Pull_confined [OF assms])
next
  show "stays_below root (files s) (files (snd (pvc_Pull X base pc s)))" by (rule pvc_pull.pull_in_scope [OF assms])
next
  fix now now' and fl :: cli_flags assume "outputDirectory fl = path_str root"
  then show "confined root (files s) (files (snd (cli_main K N X now now' fl s)))"
    using cli_main_confined [OF assms(1) _ assms(3-5)] by simp
qed

theorem pull_confined_to_directory_witness:
  "confined [''models''] [([''etc''], Dir)] (files (snd (azure_Pull demo_sdk demo_ext (AzNoCredential ''u'') demo_pull (demo_os [([''etc''], Dir)]))))"
proof -
  have "Directory demo_pull = path_str [''models'']" "list_all plain_name [''models'']" "no_links (files (demo_os [([''etc''], Dir)])) [''models'']"
    by (simp_all add: demo_pull_def demo_os_def path_str_def plain_name_def no_links_list get_def is_link_def)
  from pull_confined_to_directory [OF demo_ext_laws(1) this(1,2) _ this(3), THEN conjunct2, THEN conjunct1] show ?thesis by (simp add: demo_os_def)
qed

text \<open>
  The configuration that the program's own documentation gives as an example (\<open>access_key\<close> in place of \<open>access_key_id\<close>) is refused: whatever is
  asked for, nothing is pulled, and the program ends with status 0.
\<close>

lemma cli_needs_access_key_id:
  assumes "GetType rc = ''s3''" "GetString rc ''access_key_id'' = None" "pc_RepositoryConfig pc = rc"
  shows "cli_pull K N X now now' pc s = (Ok (PullFailed (ErrWrap ''could not process pull command: %w'' []
    (ErrWrap ''unable to create repository of type '%s': %w'' [''s3''] (ErrMsg ''missing required string configuration '%s' '' [''access_key_id''])))), s)"
proof -
  obtain reg where reg: "cli_providers K N = Ok reg" "reg ''s3'' = Some \<lparr>p_GetKey = s3_GetKey, p_NewRepository = (\<lambda>c. res_bind (s3_NewRepository K c) (\<lambda>r. Ok (S3Repo r)))\<rparr>"
    by (auto simp: cli_providers_def http_init_def s3_init_def RegisterProvider_def split: if_splits)
  have "s3_NewRepository K rc = Err (ErrMsg ''missing required string configuration '%s' '' [''access_key_id''])"
    using assms(2) by (simp add: s3_NewRepository_def require_string_def)
  then show ?thesis
    by (simp add: cli_pull_def reg PullManager_Pull_def assms(1,3) getRepositoryClient_def NewPullManager_def newClientCache_def getClient_def getEntry_def Let_def)
qed

end
