(* ===== verification/VolumeTyping.thy ===== *)
theory VolumeTyping
  imports PullerSystem Providers
begin

text \<open>
  The volume stays a tree: every entry has a name that a directory entry can have, and lies in a directory. The model of the file system
  keeps paths in an association list, where nothing enforces this; here every call keeps it, hence every pull, every layout and every handler.
\<close>

section \<open>Paths that resolution returns\<close>

definition in_tree :: "fs \<Rightarrow> fpath \<Rightarrow> bool" where
  "in_tree t p \<longleftrightarrow> list_all plain_name p \<and> (p = [] \<or> get t (butlast p) = Some Dir)"

lemma wf_in_tree: "wf_tree t \<Longrightarrow> get t p \<noteq> None \<Longrightarrow> in_tree t p"
  unfolding in_tree_def wf_tree_def by (cases "p = []") (auto simp: tree_keys_get)

lemma comps_names: "list_all (\<lambda>c. c = ''..'' \<or> plain_name c) (comps s)"
proof -
  have "slash \<notin> set e" if "e \<in> set (split_on slash s)" for e
    using that split_on_no_sep by blast
  then show ?thesis by (auto simp: comps_def list_all_iff plain_name_def)
qed

lemma walk_in_tree:
  "wf_tree t \<Longrightarrow> in_tree t cur \<Longrightarrow> list_all (\<lambda>c. c = ''..'' \<or> plain_name c) cs \<Longrightarrow> walk n t f cur cs = Inr r \<Longrightarrow> in_tree t r"
proof (induction n t f cur cs rule: walk.induct)
  case (2 n t follow cur c cs)
  show ?case
  proof (cases "get t cur = Some Dir")
    case dir: True
    show ?thesis
    proof (cases "c = ''..''")
      case True
      have "in_tree t (butlast cur)"
      proof (cases "cur = []")
        case False
        then have "get t (butlast cur) = Some Dir" using 2(6) by (simp add: in_tree_def)
        then show ?thesis using wf_in_tree [OF 2(5)] by simp
      qed (use 2(6) in simp)
      with 2 True dir show ?thesis by simp
    next
      case False
      then have c: "plain_name c" using 2(7) by simp
      then have new: "in_tree t (cur @ [c])" using dir 2(6) by (simp add: in_tree_def)
      have links: "list_all (\<lambda>c. c = ''..'' \<or> plain_name c) (comps l @ cs)" for l using comps_names 2(7) by simp
      have root: "in_tree t []" by (simp add: in_tree_def)
      show ?thesis
      proof (cases "get t (cur @ [c])")
        case None
        with 2(8) dir False new show ?thesis by (auto split: if_splits)
      next
        case (Some d)
        show ?thesis
        proof (cases d)
          case (Link l)
          with 2(8) dir False Some have w: "(cs = [] \<and> \<not> follow \<and> r = cur @ [c]) \<or>
              (\<not> (cs = [] \<and> \<not> follow) \<and> n \<noteq> 0 \<and> walk (n - 1) t follow (if has_prefix l [slash] then [] else cur) (comps l @ cs) = Inr r)"
            by (auto split: if_splits)
          have start: "in_tree t (if has_prefix l [slash] then [] else cur)" using 2(6) root by simp
          from w show ?thesis
          proof
            assume "\<not> (cs = [] \<and> \<not> follow) \<and> n \<noteq> 0 \<and> walk (n - 1) t follow (if has_prefix l [slash] then [] else cur) (comps l @ cs) = Inr r"
            with 2(4) [OF _ False Some Link _ _ 2(5) start links] dir show ?thesis by blast
          qed (use new in simp)
        next
          case Dir
          with 2(8) dir False Some have "walk n t follow (cur @ [c]) cs = Inr r" by simp
          with 2(2) [OF _ False Some Dir 2(5) new] dir 2(7) show ?thesis by simp
        next
          case (File m x)
          with 2(8) dir False Some have "walk n t follow (cur @ [c]) cs = Inr r" by simp
          with 2(3) [OF _ False Some File 2(5) new] dir 2(7) show ?thesis by simp
        qed
      qed
    qed
  qed (use 2(8) in simp)
qed simp

lemma resolve_in_tree: "wf_tree t \<Longrightarrow> resolve t f p = Inr r \<Longrightarrow> in_tree t r"
  unfolding resolve_def by (rule walk_in_tree) (simp_all add: in_tree_def comps_names)

section \<open>Calls\<close>

lemma get_put_other: "q \<noteq> p \<Longrightarrow> get (put p n t) q = get t q"
  by (cases "q = []") (simp_all add: get_put)

lemma wf_put:
  assumes "wf_tree t" "in_tree t p" "p \<noteq> []" "get t p \<noteq> Some Dir"
  shows "wf_tree (put p n t)"
  unfolding wf_tree_def
proof
  fix q assume "q \<in> tree_keys (put p n t)"
  then have q: "q = p \<or> q \<in> tree_keys t" by (auto simp: tree_keys_def put_def dom_update)
  then have w: "q \<noteq> [] \<and> list_all plain_name q \<and> get t (butlast q) = Some Dir"
  proof
    assume "q = p"
    with assms(2,3) show ?thesis by (simp add: in_tree_def)
  next
    assume "q \<in> tree_keys t"
    with assms(1) show ?thesis unfolding wf_tree_def by (rule bspec)
  qed
  then have "butlast q \<noteq> p" using assms(4) by metis
  then have "get (put p n t) (butlast q) = get t (butlast q)" by (rule get_put_other)
  with w show "q \<noteq> [] \<and> list_all plain_name q \<and> get (put p n t) (butlast q) = Some Dir" by simp
qed

lemma wf_prune: "wf_tree t \<Longrightarrow> wf_tree (prune p t)"
  unfolding wf_tree_def
proof
  fix q assume t: "\<forall>q \<in> tree_keys t. q \<noteq> [] \<and> list_all plain_name q \<and> get t (butlast q) = Some Dir" and "q \<in> tree_keys (prune p t)"
  then have q: "q \<in> tree_keys t" "take (length p) q \<noteq> p" by (auto simp: tree_keys_def prune_def)
  then have "get (prune p t) (butlast q) = get t (butlast q)"
  proof (cases "butlast q = []")
    case False
    have "take (length p) (butlast q) \<noteq> p"
    proof
      assume a: "take (length p) (butlast q) = p"
      from arg_cong [OF this, of length] have "length p \<le> length q - 1" by simp
      moreover have "q \<noteq> []" using False by auto
      ultimately have "length p < length q" by (cases q) simp_all
      with a q(2) show False by (simp add: take_butlast)
    qed
    moreover have "p \<noteq> []" using q(2) by auto
    ultimately show ?thesis using False by (simp add: get_prune)
  qed simp
  then show "q \<noteq> [] \<and> list_all plain_name q \<and> get (prune p t) (butlast q) = Some Dir" using t q(1) by simp
qed

text \<open>The steps that keep the volume a tree.\<close>

abbreviation keeps_tree :: "(os, 'a) step \<Rightarrow> bool" where
  "keeps_tree m \<equiv> keeps (\<lambda>s. wf_tree (files s)) m"

named_theorems trees \<open>steps that keep the volume a tree\<close>

lemma tree_call:
  assumes "\<And>t x t'. wf_tree t \<Longrightarrow> f t = Inr (x, t') \<Longrightarrow> wf_tree t'"
  shows "keeps_tree (syscall p f)"
  using assms by (auto simp: keeps_def syscall_def Let_def split: option.splits sum.splits)

lemma mkdir_wf: "wf_tree t \<Longrightarrow> list_all (\<lambda>c. c = ''..'' \<or> plain_name c) (d @ cs) \<Longrightarrow> mkdir_prefixes t d cs = Inr t' \<Longrightarrow> wf_tree t'"
proof (induction cs arbitrary: d t)
  case (Cons c cs)
  have names: "list_all (\<lambda>c. c = ''..'' \<or> plain_name c) (d @ [c])" "list_all (\<lambda>c. c = ''..'' \<or> plain_name c) ((d @ [c]) @ cs)"
    using Cons.prems(2) by simp_all
  have made: "wf_tree (put q Dir t)" if "walk maxlinks t False [] (d @ [c]) = Inr q" "get t q = None" for q
  proof (rule wf_put)
    show "in_tree t q" by (rule walk_in_tree [OF Cons.prems(1) _ names(1) that(1)]) (simp add: in_tree_def)
    show "q \<noteq> []" using that(2) by auto
  qed (use that Cons.prems(1) in simp_all)
  from Cons.prems(3) show ?case
    using Cons.IH [OF Cons.prems(1) names(2)] Cons.IH [OF made names(2)]
    by (auto split: sum.splits option.splits node.splits if_splits)
qed simp

lemma tree_MkdirAll [trees]: "keeps_tree (os_MkdirAll p)"
  unfolding os_MkdirAll_def
  by (rule tree_call) (auto split: sum.splits intro: mkdir_wf [of _ "[]" "comps p"] simp: comps_names)

lemma tree_Symlink [trees]: "keeps_tree (os_Symlink old new)"
  unfolding os_Symlink_def by (rule tree_call) (auto split: sum.splits if_splits intro!: wf_put dest: resolve_in_tree)

lemma tree_WriteFile [trees]: "keeps_tree (os_WriteFile p c m)"
  unfolding os_WriteFile_def
  by (rule tree_call) (auto split: sum.splits option.splits node.splits intro!: wf_put dest: resolve_in_tree)

lemma tree_Create [trees]: "keeps_tree (os_Create p)"
  unfolding os_Create_def by (rule tree_WriteFile)

lemma tree_RemoveAll [trees]: "keeps_tree (os_RemoveAll p)"
proof -
  have "keeps_tree (syscall p (\<lambda>t. case resolve t False p of
          Inl e \<Rightarrow> if e = ENOENT then Inr ((), t) else Inl e
        | Inr q \<Rightarrow> Inr ((), prune q t)))"
    by (rule tree_call) (auto split: sum.splits if_splits intro: wf_prune)
  then show ?thesis by (simp add: os_RemoveAll_def keeps_def fail_with_def)
qed

text \<open>Nothing lies below an entry that is not a directory.\<close>

lemma dir_not_below: "wf_tree t \<Longrightarrow> get t x = Some Dir \<Longrightarrow> get t q \<noteq> Some Dir \<Longrightarrow> take (length q) x \<noteq> q"
proof
  assume a: "wf_tree t" "get t x = Some Dir" "get t q \<noteq> Some Dir" "take (length q) x = q"
  from arg_cong [OF a(4), of length] have "length q \<le> length x" by simp
  with wf_real_dirs [OF a(1,2)] a(3,4) show False by (metis real_dirs_def)
qed

lemma tree_Rename [trees]: "keeps_tree (os_Rename old new)"
  unfolding os_Rename_def
proof (rule tree_call)
  fix t x t'
  assume t: "wf_tree t" and r: "(case lookup t False old of
     Inl e \<Rightarrow> Inl e
   | Inr (q, Dir) \<Rightarrow> Inl (EOTHER 0)
   | Inr (q, n) \<Rightarrow> (case resolve t False new of
         Inl e \<Rightarrow> Inl e
       | Inr q' \<Rightarrow> if get t q' = Some Dir then Inl EEXIST else Inr ((), put q' n (prune q t)))) = Inr (x, t')"
  then obtain q n q' where l: "lookup t False old = Inr (q, n)" "n \<noteq> Dir" "resolve t False new = Inr q'" "get t q' \<noteq> Some Dir"
      "t' = put q' n (prune q t)"
    by (auto split: sum.splits node.splits if_splits)
  have n: "get t q = Some n" using l(1) by (auto simp: lookup_def split: sum.splits option.splits)
  then have q: "q \<noteq> []" "get t q \<noteq> Some Dir" using l(2) by auto
  have q': "in_tree t q'" "q' \<noteq> []" using resolve_in_tree [OF t l(3)] l(4) by auto
  have keep: "get (prune q t) d = Some Dir \<longleftrightarrow> get t d = Some Dir" for d
  proof (cases "d = []")
    case False
    then show ?thesis using dir_not_below [OF t _ q(2), of d] by (auto simp: get_prune)
  qed simp
  have "wf_tree (put q' n (prune q t))"
    by (rule wf_put [OF wf_prune [OF t]]) (use q' l(4) keep in \<open>auto simp: in_tree_def\<close>)
  then show "wf_tree t'" using l(5) by simp
qed

lemma tree_fd_write [trees]: "keeps_tree (fd_write p c)"
  unfolding fd_write_def lookup_def
  by (rule tree_call) (auto split: sum.splits option.splits node.splits intro!: wf_put dest: resolve_in_tree)

section \<open>Pulls\<close>

lemma tree_OpenFile [trees]: "keeps_tree (OpenFile p)"
  unfolding OpenFile_def Let_def
  by (rule keeps_andThen [OF keeps_attempt]) (auto split: res.split intro!: keeps_intro reads trees)

lemma keeps_Pair [trees]: "keeps P (Pair r)"
  by (simp add: keeps_def)

lemma tree_written [trees]: "keeps_tree (case e of Some e \<Rightarrow> fail_with e | None \<Rightarrow> ret ())"
  by (cases e) (simp_all add: keeps_ret keeps_fail)

lemma tree_open_all [trees]: "keeps_tree (open_all ts)"
  by (induction ts) (auto intro!: keeps_intro trees)

lemma tree_DownloadWithIterator [trees]: "keeps_tree (DownloadWithIterator f ok ts)"
  by (induction ts arbitrary: ok) (auto simp: split_def Let_def intro!: keeps_intro trees)

lemma tree_resolve_objects [trees]: "keeps_tree (resolve_objects X d pt objs)"
  by (induction objs) (auto simp: split_def Let_def intro!: keeps_intro reads trees)

lemma tree_resolve_targets [trees]: "keeps_tree (resolve_targets X d f w ts)"
  by (induction ts) (auto intro!: keeps_intro trees)

lemma tree_s3_Pull: "keeps_tree (s3_Pull S X c pc)"
  unfolding s3_Pull_def s3_downloadBatch_def Let_def by (intro keeps_intro keeps_option trees)

lemma tree_azure_downloadBatch [trees]: "keeps_tree (azure_downloadBatch S d ts)"
  by (induction ts) (auto simp: split_def Let_def intro!: keeps_intro trees)

lemma tree_azure_Pull: "keeps_tree (azure_Pull S X d pc)"
  unfolding azure_Pull_def Let_def by (intro keeps_intro keeps_option trees)

lemma tree_http_pull_targets [trees]: "keeps_tree (http_pull_targets N X c base hdr d ts)"
  by (induction ts) (auto simp: http_download_def Let_def intro!: keeps_intro keeps_option reads trees)

lemma tree_http_Pull: "keeps_tree (http_Pull N X c pc)"
  unfolding http_Pull_def by (intro keeps_intro keeps_option trees)

lemma tree_pvc_link_targets [trees]: "keeps_tree (pvc_link_targets X pvc d ts)"
  by (induction ts) (auto intro!: keeps_intro reads trees)

lemma tree_pvc_Pull: "keeps_tree (pvc_Pull X m pc)"
  unfolding pvc_Pull_def Let_def by (intro keeps_intro keeps_option reads trees)

lemma tree_gcs_fetch: "keeps_tree (gcs_fetch S d b t)"
  unfolding gcs_fetch_def by (intro keeps_intro keeps_pair trees)

lemma tree_gcs_step: "gcs_step S d b a g = Some g' \<Longrightarrow> wf_tree (files (g_os g)) \<Longrightarrow> wf_tree (files (g_os g'))"
proof (cases a)
  case (AFetch i)
  assume g: "gcs_step S d b a g = Some g'" and w: "wf_tree (files (g_os g))"
  have "wf_tree (files (snd (gcs_fetch S d b t (g_os g))))" for t using keepsD [OF tree_gcs_fetch w] .
  then have "wf_tree (files s')" if "gcs_fetch S d b t (g_os g) = (r, s')" for t r s' using that by (metis snd_conv)
  with g AFetch show ?thesis by (auto simp: set_worker_def split: gworker.splits prod.splits res.splits)
qed (auto simp: set_worker_def split: list.splits gworker.splits if_splits)

lemma tree_gcs_run: "gcs_run S d b g n g' \<Longrightarrow> wf_tree (files (g_os g)) \<Longrightarrow> wf_tree (files (g_os g'))"
  by (induction rule: gcs_run.induct) (auto dest: tree_gcs_step)

lemma tree_gcs_batch: "gcs_run S d b (gcs_downloadBatch_start err u ts) n g \<Longrightarrow> wf_tree (files u) \<Longrightarrow> wf_tree (files (g_os g))"
  by (drule tree_gcs_run) (simp_all add: gcs_downloadBatch_start_def Let_def)

section \<open>The puller\<close>

lemma tree_ProcessLoadModelRequest:
  assumes "\<And>pc. keeps_tree (pull pc)"
  shows "keeps_tree (ProcessLoadModelRequest X cfg pull n req)"
  unfolding ProcessLoadModelRequest_def Let_def
  by (intro keeps_intro keeps_option reads reads_disk_size trees assms)

lemma tree_clear_entries [trees]: "keeps_tree (clear_entries d c fs)"
  by (induction fs) (auto simp: Let_def split: res.split intro!: keeps_intro trees)

lemma tree_ClearDirectoryContents [trees]: "keeps_tree (ClearDirectoryContents d c)"
  unfolding ClearDirectoryContents_def by (auto split: res.split intro!: keeps_intro reads trees)

lemma tree_CleanupModel [trees]: "keeps_tree (CleanupModel X cfg m)"
  unfolding CleanupModel_def by (intro keeps_intro reads trees)

section \<open>The layouts of the adapters\<close>

lemma tree_ovms_layout [trees]: "keeps_tree (ovms_adaptModelLayoutForRuntime X r m ty p)"
  unfolding ovms_adaptModelLayoutForRuntime_def createOvmsModelRepositoryFromPath_def createOvmsModelRepositoryFromDirectory_def Let_def
  by (intro keeps_intro keeps_option keeps_pair reads trees)

lemma tree_triton_fromPath [trees]: "keeps_tree (createTritonModelRepositoryFromPath X T p v sp ty d)"
  unfolding createTritonModelRepositoryFromPath_def writeConfigPbtxt_def Let_def
  by (intro keeps_intro keeps_option reads trees convertSchema_keeps)

lemma tree_triton_native [trees]: "keeps_tree (adaptNativeModelLayout X T fs src sp d)"
  by (induction fs) (auto simp: Let_def split: res.split intro!: keeps_intro reads trees processModelConfig_keeps)

lemma tree_triton_layout [trees]:
  assumes "\<And>k t. keeps_tree (tx_python T k t)"
  shows "keeps_tree (triton_adaptModelLayoutForRuntime X T r m ty p sp)"
  unfolding triton_adaptModelLayoutForRuntime_def createTritonModelRepositoryFromDirectory_def convertKerasToTF_def Let_def
  by (intro keeps_intro keeps_pair reads trees assms)

lemma tree_mlserver_adapt [trees]: "keeps_tree (mlserver_adaptModelLayout X ind m ty p sp d)"
  unfolding mlserver_adaptModelLayout_def by (intro keeps_intro reads trees generateModelConfigJSON_keeps)

lemma tree_mlserver_native [trees]: "keeps_tree (mlserver_adaptNativeModelLayout X ind fs m p sp d)"
  by (induction fs) (auto simp: Let_def split: res.split intro!: keeps_intro reads trees processConfigJSON_keeps)

lemma tree_mlserver_layout [trees]: "keeps_tree (mlserver_adaptModelLayoutForRuntime X ind r m ty p sp)"
  unfolding mlserver_adaptModelLayoutForRuntime_def Let_def by (intro keeps_intro keeps_option reads trees)

lemma tree_linkModelFile [trees]: "keeps_tree (linkModelFile p m d)"
  unfolding linkModelFile_def clearModelLink_def targetPathForModelId_def Let_def prod.case by (intro keeps_intro keeps_pair reads trees)

section \<open>The handlers\<close>

text \<open>The Keras converter, too, leaves a tree.\<close>

definition converter_keeps_tree :: "adapter \<Rightarrow> bool" where
  "converter_keeps_tree A \<longleftrightarrow> (\<forall>S k t. A = Triton S \<longrightarrow> keeps_tree (tx_python (ta_tools S) k t))"

lemma tree_tolerant [trees]: "keeps_tree m \<Longrightarrow> keeps_tree (unload_tolerant F g m)"
  unfolding unload_tolerant_def by (rule keeps_andThen [OF keeps_attempt]) (auto split: res.split intro!: keeps_intro trees)

lemma tree_remove_model_dir [trees]: "keeps_tree (remove_model_dir X c m)"
  unfolding remove_model_dir_def by (intro keeps_intro reads trees)

lemma tree_embedded_cleanup [trees]: "keeps_tree (embedded_cleanup X c P m)"
  unfolding embedded_cleanup_def by (intro keeps_intro trees)

lemma tree_adapter_load:
  assumes "\<And>pc. keeps_tree (ep_pull (adapter_puller A) pc)" "runtime_readonly A" "converter_keeps_tree A"
  shows "keeps_tree (adapter_load A req)"
proof (cases A)
  case (OVMS S ans)
  then show ?thesis using assms(1)
    by (auto simp: ovms_LoadModel_def mm_LoadModel_def embedded_load_def Let_def intro!: keeps_intro reads trees tree_ProcessLoadModelRequest)
next
  case (Triton S)
  then show ?thesis using assms
    by (auto simp: triton_LoadModel_def embedded_load_def client_readonly_def converter_keeps_tree_def Let_def
        intro!: keeps_intro reads trees tree_ProcessLoadModelRequest)
next
  case (MLServer S)
  then show ?thesis using assms
    by (auto simp: mlserver_LoadModel_def embedded_load_def client_readonly_def Let_def intro!: keeps_intro reads trees tree_ProcessLoadModelRequest)
next
  case (TorchServe S)
  then show ?thesis using assms
    by (auto simp: torchserve_LoadModel_def embedded_load_def torchserve_readonly_def Let_def intro!: keeps_intro reads trees tree_ProcessLoadModelRequest)
qed

lemma tree_adapter_unload:
  assumes "runtime_readonly A"
  shows "keeps_tree (adapter_unload A m)"
  using assms
  by (cases A) (auto simp: ovms_UnloadModel_def triton_UnloadModel_def mlserver_UnloadModel_def torchserve_UnloadModel_def client_readonly_def
      torchserve_readonly_def clearModelLink_def Let_def intro!: keeps_intro trees)

lemma tree_clear_model_dirs [trees]: "keeps_tree (clear_model_dirs c P d)"
  unfolding clear_model_dirs_def ClearLocalModelStorage_def by (intro keeps_intro trees)

lemma tree_clear_model_links [trees]: "keeps_tree (clear_model_links c P)"
  unfolding clear_model_links_def ClearLocalModelStorage_def by (intro keeps_intro trees)

lemma tree_adapter_status:
  assumes "runtime_readonly A"
  shows "keeps_tree (adapter_status A)"
proof (cases A)
  case (OVMS S ans)
  then show ?thesis by (auto simp: ovms_RuntimeStatus_def split: res.split intro!: keeps_intro trees)
next
  case (Triton S)
  then show ?thesis using assms
    by (auto simp: triton_RuntimeStatus_def client_readonly_def Let_def split: res.split intro!: keeps_intro keeps_unload_listed trees)
next
  case (MLServer S)
  then show ?thesis using assms
    by (auto simp: mlserver_RuntimeStatus_def client_readonly_def Let_def split: res.split intro!: keeps_intro keeps_unload_listed trees)
next
  case (TorchServe S)
  then show ?thesis using assms
    by (auto simp: torchserve_RuntimeStatus_def torchserve_status_connected_def torchserve_connect_def unregisterAllModels_def torchserve_readonly_def
        Let_def split: res.split intro!: keeps_intro keeps_unregister_models keeps_list_models trees)
qed

lemma tree_gcs_outcome: "gcs_outcome K X g pc s r s' \<Longrightarrow> wf_tree (files s) \<Longrightarrow> wf_tree (files s')"
proof (induction rule: gcs_outcome.induct)
  case (returned err r s' err')
  then show ?case
  proof cases
    case (batch bucket ts u n b)
    then show ?thesis using gcs_targets_state [of K X g pc s] tree_gcs_batch [OF batch(4)] returned(2) by simp
  qed (use returned gcs_targets_state [of K X g pc s] in simp)
next
  case (panicked m s')
  then show ?case using gcs_targets_state [of K X g pc s] by simp
next
  case (unfinished bucket ts u err n b r)
  then show ?case using gcs_targets_state [of K X g pc s] tree_gcs_batch [OF unfinished(2)] by simp
qed

lemma tree_provider_outcome: "provider_outcome X pc s r s' \<Longrightarrow> wf_tree (files s) \<Longrightarrow> wf_tree (files s')"
proof (induction rule: provider_outcome.induct)
  case (by_gcs K g r s')
  then show ?case by (rule tree_gcs_outcome)
qed (use keepsD [OF tree_s3_Pull] keepsD [OF tree_azure_Pull] keepsD [OF tree_http_Pull] keepsD [OF tree_pvc_Pull] in \<open>metis snd_conv\<close>)+

lemma tree_provider_pull: "provider_pull pull \<Longrightarrow> keeps_tree (pull X pc)"
  using tree_provider_outcome unfolding provider_pull_def keeps_def by blast

lemma adapter_parts_standalone:
  "adapter_puller (standalone A) = adapter_puller A" "runtime_readonly (standalone A) = runtime_readonly A"
  "converter_keeps_tree (standalone A) = converter_keeps_tree A"
  by (cases A; auto simp: converter_keeps_tree_def)+

lemma tree_handle:
  assumes "in_front_of S A" "provider_pull pull" "ps_pull S = pull (ps_ext S)" "runtime_readonly A" "converter_keeps_tree A"
  shows "keeps_tree (handle S body r)"
proof -
  have pull: "keeps_tree (ps_pull S pc)" for pc using tree_provider_pull [OF assms(2)] assms(3) by simp
  then have "keeps_tree (ep_pull (adapter_puller A) pc)" for pc using assms(1) by (simp add: in_front_of_def)
  then have "keeps_tree (rt_LoadModel (ps_runtime S) req)" "keeps_tree (rt_UnloadModel (ps_runtime S) m)" for req m
    using assms tree_adapter_load [of "standalone A"] tree_adapter_unload [of "standalone A"]
    by (simp_all add: in_front_of_def adapter_parts_standalone)
  then show ?thesis
    unfolding handle_def ps_loadModel_def ps_unloadModel_def
    by (intro keeps_intro trees tree_ProcessLoadModelRequest pull)
qed

lemma tree_or_failing: "keeps_tree m \<Longrightarrow> keeps_tree (or_failing m f)"
  unfolding or_failing_def by (rule keeps_andThen [OF keeps_attempt]) (auto split: res.split intro!: keeps_intro)

lemma tree_status_step:
  assumes "in_front_of S A" "runtime_readonly A"
  shows "keeps_tree (status_step S p)"
proof -
  have rt: "keeps_tree (rt_RuntimeStatus (ps_runtime S))" "keeps_tree (rt_UnloadModel (ps_runtime S) m)" for m
    using assms tree_adapter_status [of "standalone A"] tree_adapter_unload [of "standalone A"]
    by (simp_all add: in_front_of_def adapter_parts_standalone)
  show ?thesis
    by (cases "(S, p)" rule: status_step.cases)
      (auto simp: ListModels_def split: res.split intro!: keeps_intro tree_or_failing reads trees rt)
qed



end
