(* ===== verification/EntryPoints.thy ===== *)
theory EntryPoints
  imports PullerSystem Providers
begin

text \<open>
  The processes of a pod, from their start: the constructors of the puller and of the servers, and the programs \<open>main.go\<close>. What is around
  the processes (the environment, listening, connecting and serving) is a record of arguments.
\<close>

section \<open>Around the processes\<close>

text \<open>
  \<open>su_pull\<close> is what the pull manager of a process does, \<open>su_stack\<close> the bound on its size computation and \<open>su_pages\<close> the one on listings of TorchServe.
\<close>

record surroundings =
  su_ext :: ext
  su_env :: env
  su_pull :: "PullCommand \<Rightarrow> (os, unit) step"
  su_stack :: nat
  su_pages :: nat
  su_listen :: "string \<Rightarrow> unit res"
  su_newRequest :: "string \<Rightarrow> unit res"
  su_dial :: "string \<Rightarrow> repository_client res"
  su_dial_torchserve :: "string \<Rightarrow> torchserve_client res"
  su_dial_runtime :: "string \<Rightarrow> runtime_client res"
  su_tools :: triton_tools
  su_indent :: "json \<Rightarrow> string"

text \<open>\<open>%d\<close>, and the address of a port of this machine.\<close>

fun dec_digits :: "nat \<Rightarrow> string" where
  "dec_digits n = (if n < 10 then [char_of (48 + n)] else dec_digits (n div 10) @ [char_of (48 + n mod 10)])"

declare dec_digits.simps [simp del]

definition sprint_d :: "int \<Rightarrow> string" where
  "sprint_d i = (if i < 0 then CHR ''-'' # dec_digits (nat (- i)) else dec_digits (nat i))"

definition localhost :: "int \<Rightarrow> string" where
  "localhost port = ''localhost:'' @ sprint_d port"

text \<open>An error ends the process.\<close>

definition or_exit :: "(os, 'a) step \<Rightarrow> (os, 'a) step" where
  "or_exit m = andThen (attempt m) (\<lambda>r. case r of Ok x \<Rightarrow> ret x | _ \<Rightarrow> lift_res os_Exit)"

section \<open>The puller\<close>

definition NewPullerFromConfig :: "surroundings \<Rightarrow> PullerConfiguration \<Rightarrow> EmbeddedPuller" where
  "NewPullerFromConfig W c = \<lparr>ep_config = c, ep_pull = su_pull W, ep_stack = su_stack W\<rparr>"

text \<open>The error of \<open>GetPullerConfigFromEnv\<close> is always nil.\<close>

definition NewPuller :: "surroundings \<Rightarrow> EmbeddedPuller" where
  "NewPuller W = NewPullerFromConfig W (GetPullerConfigFromEnv (su_env W))"

text \<open>The server before it has a client for the runtime: its configuration and its puller.\<close>

definition NewPullerServerFromConfig :: "surroundings \<Rightarrow> PullerServerConfiguration \<Rightarrow> PullerServerConfiguration \<times> EmbeddedPuller" where
  "NewPullerServerFromConfig W c = (c, NewPuller W)"

definition NewPullerServer :: "surroundings \<Rightarrow> (os, PullerServerConfiguration \<times> EmbeddedPuller) step" where
  "NewPullerServer W = andThen (lift_res (GetPullerServerConfigFromEnv (su_env W))) (\<lambda>c. ret (NewPullerServerFromConfig W c))"

text \<open>
  \<open>StartServer\<close> up to the call of \<open>Serve\<close>. An invalid endpoint is returned as an error, a runtime that does not answer and a port that is taken end the process.
\<close>

definition StartServer_connect :: "surroundings \<Rightarrow> PullerServerConfiguration \<Rightarrow> EmbeddedPuller \<Rightarrow> (os, PullerServer) step" where
  "StartServer_connect W c P =
     andThen (lift_res (ResolveLocalGrpcEndpoint (psc_ModelServerEndpoint c))) (\<lambda>modelServerEndpoint.
     andThen (or_exit (lift_res (su_dial_runtime W modelServerEndpoint))) (\<lambda>client.
     andThen (or_exit (lift_res (su_listen W (localhost (psc_Port c))))) (\<lambda>_.
     ret \<lparr>ps_ext = su_ext W, ps_config = ep_config P, ps_pull = ep_pull P, ps_stack = ep_stack P, ps_runtime = client\<rparr>)))"

definition StartServer :: "surroundings \<Rightarrow> (PullerServer \<Rightarrow> (os, unit) step) \<Rightarrow> PullerServerConfiguration \<Rightarrow> EmbeddedPuller \<Rightarrow> (os, unit) step" where
  "StartServer W serve c P = andThen (StartServer_connect W c P) serve"

text \<open>The program: an error of \<open>StartServer\<close> is only logged.\<close>

definition puller_main :: "surroundings \<Rightarrow> (PullerServer \<Rightarrow> (os, unit) step) \<Rightarrow> (os, unit) step" where
  "puller_main W serve = andThen (NewPullerServer W) (\<lambda>(c, P). andThen (attempt (StartServer W serve c P)) (\<lambda>_. ret ()))"

section \<open>The adapters\<close>

text \<open>The puller of an adapter is made if the configuration asks for it; making it has no effect, and the others never use it.\<close>

definition NewOvmsAdapterServer :: "surroundings \<Rightarrow> OvmsAdapterConfiguration \<Rightarrow> (os, OvmsAdapterServer \<times> OvmsModelManager) step" where
  "NewOvmsAdapterServer W c =
     andThen (attempt (NewOvmsModelManager (su_ext W) (su_newRequest W) (''http://'' @ localhost (ac_RuntimePort c)) (oc_ModelConfigFile c)
       \<lparr>BatchWaitTimeMin = oc_BatchWaitTimeMin c, BatchWaitTimeMax = oc_BatchWaitTimeMax c, HttpClientMaxConns = 0,
        ReloadTimeout = oc_ReloadTimeout c, ModelConfigFilePerms = 0, RequestChannelSize = 0\<rparr>)) (\<lambda>r. case r of
       Ok mm \<Rightarrow> ret (\<lparr>oa_ext = su_ext W, oa_config = c, oa_puller = NewPuller W\<rparr>, mm)
     | _ \<Rightarrow> lift_res (Panic ''panic(err)''))"

definition NewTritonAdapterServer :: "surroundings \<Rightarrow> AdapterConfiguration \<Rightarrow> (os, TritonAdapterServer) step" where
  "NewTritonAdapterServer W c =
     andThen (or_exit (lift_res (su_dial W (localhost (ac_RuntimePort c))))) (\<lambda>client.
     ret \<lparr>ta_ext = su_ext W, ta_tools = su_tools W, ta_Client = client, ta_config = c, ta_puller = NewPuller W\<rparr>)"

text \<open>
  The programs of the adapters have one form: the configuration is read, the server made, the port taken, and then requests are served; an error
  of \<open>Serve\<close> is only logged.
\<close>

definition start_adapter :: "surroundings \<Rightarrow> (os, 'a AdapterConfiguration_scheme) step \<Rightarrow> ('a AdapterConfiguration_scheme \<Rightarrow> (os, 's) step) \<Rightarrow> (os, 's) step" where
  "start_adapter W read new =
     andThen (or_exit read) (\<lambda>c.
     andThen (new c) (\<lambda>server.
     andThen (or_exit (lift_res (su_listen W (localhost (ac_Port c))))) (\<lambda>_. ret server)))"

definition ovms_start :: "surroundings \<Rightarrow> (os, OvmsAdapterServer \<times> OvmsModelManager) step" where
  "ovms_start W = start_adapter W (ovms_GetAdapterConfigurationFromEnv (su_ext W) (su_env W)) (NewOvmsAdapterServer W)"

definition triton_start :: "surroundings \<Rightarrow> (os, TritonAdapterServer) step" where
  "triton_start W = start_adapter W (triton_GetAdapterConfigurationFromEnv (su_ext W) (su_env W)) (NewTritonAdapterServer W)"

definition mlserver_start :: "surroundings \<Rightarrow> (os, MLServerAdapterServer) step" where
  "mlserver_start W = start_adapter W (mlserver_GetAdapterConfigurationFromEnv (su_ext W) (su_env W))
     (\<lambda>c. NewMLServerAdapterServer (su_ext W) (su_indent W) (su_dial W (localhost (ac_RuntimePort c))) (NewPuller W) c)"

definition torchserve_start :: "surroundings \<Rightarrow> (os, TorchServeAdapterServer) step" where
  "torchserve_start W = start_adapter W (torchserve_GetAdapterConfigurationFromEnv (su_ext W) (su_env W))
     (\<lambda>c. NewTorchServeAdapterServer (su_ext W) (su_dial_torchserve W (localhost (ac_RuntimePort c))) (NewPuller W) (su_pages W) c)"

definition ovms_main :: "surroundings \<Rightarrow> (OvmsAdapterServer \<times> OvmsModelManager \<Rightarrow> (os, unit) step) \<Rightarrow> (os, unit) step" where
  "ovms_main W serve = andThen (ovms_start W) (\<lambda>server. andThen (attempt (serve server)) (\<lambda>_. ret ()))"

definition triton_main :: "surroundings \<Rightarrow> (TritonAdapterServer \<Rightarrow> (os, unit) step) \<Rightarrow> (os, unit) step" where
  "triton_main W serve = andThen (triton_start W) (\<lambda>server. andThen (attempt (serve server)) (\<lambda>_. ret ()))"

definition mlserver_main :: "surroundings \<Rightarrow> (MLServerAdapterServer \<Rightarrow> (os, unit) step) \<Rightarrow> (os, unit) step" where
  "mlserver_main W serve = andThen (mlserver_start W) (\<lambda>server. andThen (attempt (serve server)) (\<lambda>_. ret ()))"

definition torchserve_main :: "surroundings \<Rightarrow> (TorchServeAdapterServer \<Rightarrow> (os, unit) step) \<Rightarrow> (os, unit) step" where
  "torchserve_main W serve = andThen (torchserve_start W) (\<lambda>server. andThen (attempt (serve server)) (\<lambda>_. ret ()))"

section \<open>What a pod is made of\<close>

text \<open>The adapter of a process that has started.\<close>

primrec started :: "surroundings \<Rightarrow> adapter \<Rightarrow> os \<Rightarrow> os \<Rightarrow> bool" where
  "started W (OVMS S ans) s s' \<longleftrightarrow> (\<exists>mm. ovms_start W s = (Ok (S, mm), s'))"
| "started W (Triton S) s s' \<longleftrightarrow> triton_start W s = (Ok S, s')"
| "started W (MLServer S) s s' \<longleftrightarrow> mlserver_start W s = (Ok S, s')"
| "started W (TorchServe S) s s' \<longleftrightarrow> torchserve_start W s = (Ok S, s')"

lemma or_exit_Ok_iff: "or_exit m s = (Ok x, s') \<longleftrightarrow> m s = (Ok x, s')"
  by (auto simp: or_exit_def andThen_def attempt_def os_Exit_def split: prod.splits res.splits)

lemma start_adapter_Ok:
  assumes "start_adapter W read new s = (Ok S, s')"
  shows "\<exists>c u. read s = (Ok c, u) \<and> new c u = (Ok S, s') \<and> su_listen W (localhost (ac_Port c)) = Ok ()"
  using assms by (auto simp: start_adapter_def andThen_Ok_iff or_exit_Ok_iff)

text \<open>The part of an adapter's configuration that all four read alike.\<close>

definition config_from :: "env \<Rightarrow> string \<Rightarrow> 'a AdapterConfiguration_scheme \<Rightarrow> bool" where
  "config_from E dir c \<longleftrightarrow> ac_RootModelDir c = dir \<and> GetEnvInt E ''ADAPTER_PORT'' 8085 = Ok (ac_Port c) \<and>
     GetEnvBool E ''USE_EMBEDDED_PULLER'' False = Ok (ac_UseEmbeddedPuller c) \<and> 0 \<le> ac_ContainerMemReqBytes c"

lemma read_adapter_env_fields:
  assumes "read_adapter_env X E K = Ok c"
  shows "case_prod (GetEnvInt E) (k_adapterPort K) = Ok (ac_Port c)" "case_prod (GetEnvBool E) (k_useEmbeddedPuller K) = Ok (ac_UseEmbeddedPuller c)"
  using assms by (auto simp: read_adapter_env_def res_bind_Ok_iff)

lemma check_adapter_config_Ok: "check_adapter_config c = Ok c' \<Longrightarrow> c' = c \<and> 0 \<le> ac_ContainerMemReqBytes c"
  by (auto simp: check_adapter_config_def split: if_splits)

lemma config_from_env:
  assumes "\<And>q. SecureJoin_at X (files s) [GetEnvString E ''ROOT_MODEL_DIR'' ''/models'', sub] = Ok q \<Longrightarrow> q = dir"
  shows "ovms_GetAdapterConfigurationFromEnv X E s = (Ok c1, s') \<Longrightarrow> sub = ovmsModelSubdir \<Longrightarrow> config_from E dir c1"
    and "triton_GetAdapterConfigurationFromEnv X E s = (Ok c2, s') \<Longrightarrow> sub = tritonModelSubdir \<Longrightarrow> config_from E dir c2"
    and "mlserver_GetAdapterConfigurationFromEnv X E s = (Ok c2, s') \<Longrightarrow> sub = mlserverModelSubdir \<Longrightarrow> config_from E dir c2"
    and "torchserve_GetAdapterConfigurationFromEnv X E s = (Ok c3, s') \<Longrightarrow> sub = torchServeModelStoreDirName \<Longrightarrow> config_from E dir c3"
  using assms
  by (auto simp: ovms_GetAdapterConfigurationFromEnv_def triton_GetAdapterConfigurationFromEnv_def mlserver_GetAdapterConfigurationFromEnv_def
      torchserve_GetAdapterConfigurationFromEnv_def andThen_Ok_iff wrapErr_Ok_iff SecureJoin_def config_from_def AdapterConfiguration.defs
      ovms_constants_def triton_constants_def mlserver_constants_def torchserve_constants_def
      simp del: wrapErr_apply dest!: check_adapter_config_Ok dest: read_adapter_env_fields)

lemma started_parts:
  assumes "started W A s s'"
    and "\<And>q. SecureJoin_at (su_ext W) (files s) [GetEnvString (su_env W) ''ROOT_MODEL_DIR'' ''/models'', adapter_subdir A] = Ok q \<Longrightarrow> q = dir"
  shows "adapter_ext A = su_ext W \<and> adapter_puller A = NewPuller W \<and> config_from (su_env W) dir (adapter_config A) \<and>
    su_listen W (localhost (ac_Port (adapter_config A))) = Ok ()"
proof (cases A)
  case (OVMS S ans)
  then obtain mm where "ovms_start W s = (Ok (S, mm), s')" using assms(1) by auto
  from start_adapter_Ok [OF this [unfolded ovms_start_def]] obtain c u where
    c: "ovms_GetAdapterConfigurationFromEnv (su_ext W) (su_env W) s = (Ok c, u)" "NewOvmsAdapterServer W c u = (Ok (S, mm), s')"
      "su_listen W (localhost (ac_Port c)) = Ok ()" by blast
  have "S = \<lparr>oa_ext = su_ext W, oa_config = c, oa_puller = NewPuller W\<rparr>"
    using c(2) by (auto simp: NewOvmsAdapterServer_def andThen_def attempt_def lift_res_def split: prod.splits res.splits)
  moreover have "config_from (su_env W) dir c" by (rule config_from_env(1) [OF assms(2) c(1)]) (simp_all add: OVMS)
  ultimately show ?thesis using c(3) by (simp add: OVMS config_from_def AdapterConfiguration.defs)
next
  case (Triton S)
  then have "triton_start W s = (Ok S, s')" using assms(1) by simp
  from start_adapter_Ok [OF this [unfolded triton_start_def]] obtain c u where
    c: "triton_GetAdapterConfigurationFromEnv (su_ext W) (su_env W) s = (Ok c, u)" "NewTritonAdapterServer W c u = (Ok S, s')"
      "su_listen W (localhost (ac_Port c)) = Ok ()" by blast
  then have "ta_ext S = su_ext W \<and> ta_config S = c \<and> ta_puller S = NewPuller W" by (auto simp: NewTritonAdapterServer_def andThen_Ok_iff)
  moreover have "config_from (su_env W) dir c" by (rule config_from_env(2) [OF assms(2) c(1)]) (simp_all add: Triton)
  ultimately show ?thesis using c(3) by (simp add: Triton)
next
  case (MLServer S)
  then have "mlserver_start W s = (Ok S, s')" using assms(1) by simp
  from start_adapter_Ok [OF this [unfolded mlserver_start_def]] obtain c u where
    c: "mlserver_GetAdapterConfigurationFromEnv (su_ext W) (su_env W) s = (Ok c, u)"
      "NewMLServerAdapterServer (su_ext W) (su_indent W) (su_dial W (localhost (ac_RuntimePort c))) (NewPuller W) c u = (Ok S, s')"
      "su_listen W (localhost (ac_Port c)) = Ok ()" by blast
  then have "ma_ext S = su_ext W \<and> ma_config S = c \<and> ma_puller S = NewPuller W"
    by (auto simp: NewMLServerAdapterServer_def andThen_def lift_res_def os_Exit_def split: prod.splits res.splits if_splits)
  moreover have "config_from (su_env W) dir c" by (rule config_from_env(3) [OF assms(2) c(1)]) (simp_all add: MLServer)
  ultimately show ?thesis using c(3) by (simp add: MLServer)
next
  case (TorchServe S)
  then have "torchserve_start W s = (Ok S, s')" using assms(1) by simp
  from start_adapter_Ok [OF this [unfolded torchserve_start_def]] obtain c u where
    c: "torchserve_GetAdapterConfigurationFromEnv (su_ext W) (su_env W) s = (Ok c, u)"
      "NewTorchServeAdapterServer (su_ext W) (su_dial_torchserve W (localhost (ac_RuntimePort c))) (NewPuller W) (su_pages W) c u = (Ok S, s')"
      "su_listen W (localhost (ac_Port c)) = Ok ()" by blast
  then have "sa_ext S = su_ext W \<and> sa_config S = c \<and> sa_puller S = NewPuller W"
    by (auto simp: NewTorchServeAdapterServer_def andThen_def lift_res_def os_Exit_def split: prod.splits res.splits if_splits)
  moreover have "config_from (su_env W) dir c" by (rule config_from_env(4) [OF assms(2) c(1)]) (simp_all add: TorchServe)
  ultimately show ?thesis using c(3) by (simp add: TorchServe config_from_def AdapterConfiguration.defs)
qed

section \<open>Addresses\<close>

lemma dec_digits_digits: "dec_digits n \<noteq> [] \<and> list_all is_digit (dec_digits n)"
proof (induction n rule: dec_digits.induct)
  case (1 n)
  have "is_digit (char_of (48 + m))" if "m < 10" for m :: nat using that by (simp add: is_digit_def)
  then show ?case using 1 by (subst (1 2) dec_digits.simps) auto
qed

text \<open>An endpoint that gives the port of an adapter leads to the address at which that adapter listens.\<close>

lemma port_endpoint:
  assumes "0 \<le> p"
  shows "ResolveLocalGrpcEndpoint (''port:'' @ sprint_d p) = Ok (localhost p)"
proof -
  have "sprint_d p \<noteq> []" "list_all is_digit (sprint_d p)" using assms dec_digits_digits by (simp_all add: sprint_d_def)
  then show ?thesis by (simp add: ResolveLocalGrpcEndpoint_def is_port_endpoint_def has_prefix_def localhost_def)
qed

lemma default_ports: "''port:'' @ sprint_d 8085 = ''port:8085''"
  by (simp add: sprint_d_def dec_digits.simps [of 8085] dec_digits.simps [of 808] dec_digits.simps [of 80] dec_digits.simps [of 8] char_of_def bit_0)

section \<open>A pod from its environment\<close>

text \<open>
  C14: The processes of a pod find each other and share one volume. When the puller and an adapter are started with the same environment and the
  endpoint there names the adapter's port (as the defaults do), then a puller that gets to serving requests is connected to the address at which this adapter listens, and the two make
  up a model server as the properties of the whole system assume it: one root, in it the adapter's directory, one configuration of
  the puller for both deployments. The memory in the configuration is not negative.
\<close>

theorem environment_makes_model_server:
  assumes "securejoin_scoped (su_ext W)" "securejoin_plain (su_ext W)"
    and "GetEnvString (su_env W) ''ROOT_MODEL_DIR'' ''/models'' = path_str root" "list_all plain_name root" "root \<noteq> []"
    and "real_dirs (files s) root" "\<not> is_link (get (files s) (root @ [adapter_subdir A]))"
    and "GetEnvBool (su_env W) ''USE_EMBEDDED_PULLER'' False = Ok False" "bounded_pull pull" "su_pull W = pull (su_ext W)"
    and "started W A s s'" "runtime_readonly A"
    and "NewPullerServer W u = (Ok (c, P), u')" "StartServer_connect W c P u' = (Ok S, u'')"
    and "GetEnvString (su_env W) ''MODEL_SERVER_ENDPOINT'' ''port:8085'' = ''port:'' @ sprint_d p" "0 \<le> p" "GetEnvInt (su_env W) ''ADAPTER_PORT'' 8085 = Ok p"
    and "su_dial_runtime W (localhost p) = Ok rt" "rt_LoadModel rt = adapter_load A" "rt_UnloadModel rt = adapter_unload A"
      "rt_RuntimeStatus rt = adapter_status A"
  shows "model_server S A root \<and> ps_runtime S = rt \<and> su_listen W (localhost p) = Ok () \<and> 0 \<le> ac_ContainerMemReqBytes (adapter_config A)"
proof -
  let ?E = "su_env W" and ?X = "su_ext W"
  have sub: "plain_name (adapter_subdir A)"
    by (cases A; simp add: plain_name_def ovmsModelSubdir_def tritonModelSubdir_def mlserverModelSubdir_def torchServeModelStoreDirName_def)
  have "SecureJoin_at ?X (files s) [path_str root, adapter_subdir A] = Ok (path_str (root @ [adapter_subdir A]))"
    using securejoin_plainD [OF assms(2,6,4,5) sub assms(7)] by (simp add: SecureJoin_at_def)
  then have A: "adapter_ext A = ?X" "adapter_puller A = NewPuller W" "config_from ?E (path_str (root @ [adapter_subdir A])) (adapter_config A)"
      "su_listen W (localhost (ac_Port (adapter_config A))) = Ok ()"
    using started_parts [OF assms(11), of "path_str (root @ [adapter_subdir A])"] assms(3) by auto
  then have cfg: "ac_RootModelDir (adapter_config A) = path_str (root @ [adapter_subdir A])" "ac_Port (adapter_config A) = p"
      "\<not> ac_UseEmbeddedPuller (adapter_config A)" "0 \<le> ac_ContainerMemReqBytes (adapter_config A)"
    using assms(8,17) by (auto simp: config_from_def)
  then have "standalone A = A" by (cases A) (simp_all add: AdapterConfiguration.defs)
  have c: "psc_ModelServerEndpoint c = ''port:'' @ sprint_d p" "P = NewPuller W"
    using assms(13,15) by (auto simp: NewPullerServer_def NewPullerServerFromConfig_def GetPullerServerConfigFromEnv_def res_bind_Ok_iff andThen_Ok_iff lift_res_def)
  have "ResolveLocalGrpcEndpoint (psc_ModelServerEndpoint c) = Ok (localhost p)" unfolding c(1) by (rule port_endpoint [OF assms(16)])
  then have S: "S = \<lparr>ps_ext = ?X, ps_config = ep_config P, ps_pull = ep_pull P, ps_stack = ep_stack P, ps_runtime = rt\<rparr>"
    using assms(14) by (simp add: StartServer_connect_def andThen_Ok_iff or_exit_Ok_iff lift_res_def assms(18))
  have P: "RootModelDir (ep_config P) = path_str root" "ep_pull P = pull ?X"
    using assms(3,10) by (simp_all add: c(2) NewPuller_def NewPullerFromConfig_def GetPullerConfigFromEnv_def)
  have "in_front_of S A" using A(1,2) c(2) assms(19-21) \<open>standalone A = A\<close> by (simp add: in_front_of_def S)
  then show ?thesis
    using assms(1,2,4,5,9,12) A(1,4) cfg P by (auto simp: model_server_def S)
qed
definition demo_around :: surroundings where
  "demo_around = \<lparr>su_ext = demo_type_ext, su_env = demo_small_env, su_pull = azure_Pull demo_sdk demo_type_ext (AzNoCredential ''u''),
     su_stack = 9, su_pages = 1, su_listen = (\<lambda>a. Ok ()), su_newRequest = (\<lambda>a. Ok ()), su_dial = (\<lambda>a. Ok demo_client),
     su_dial_torchserve = (\<lambda>a. Ok demo_ts_client), su_dial_runtime = (\<lambda>a. Ok demo_runtime), su_tools = demo_triton_tools, su_indent = (\<lambda>v. ''{}'')\<rparr>"

definition demo_started_config :: AdapterConfiguration where
  "demo_started_config = \<lparr>ac_Port = 8085, ac_RuntimePort = 8001, ac_ContainerMemReqBytes = 1000, ac_MemBufferBytes = 268435456,
     ac_CapacityInBytes = - 268434456, ac_MaxLoadingConcurrency = 1, ac_ModelLoadingTimeoutMS = 30000, ac_DefaultModelSizeInBytes = 1000000,
     ac_ModelSizeMultiplier = Fin 5 (- 2), ac_RuntimeVersion = ''v1'', ac_LimitModelConcurrency = 0,
     ac_RootModelDir = ''/models/_triton_models'', ac_UseEmbeddedPuller = False\<rparr>"

definition demo_started :: TritonAdapterServer where
  "demo_started = \<lparr>ta_ext = demo_type_ext, ta_tools = demo_triton_tools, ta_Client = demo_client, ta_config = demo_started_config,
     ta_puller = NewPuller demo_around\<rparr>"

definition demo_adapter_client :: runtime_client where
  "demo_adapter_client = demo_runtime\<lparr>rt_LoadModel := adapter_load (Triton demo_started), rt_UnloadModel := adapter_unload (Triton demo_started),
     rt_RuntimeStatus := adapter_status (Triton demo_started)\<rparr>"

definition demo_node :: surroundings where
  "demo_node = demo_around\<lparr>su_dial_runtime := (\<lambda>a. Ok demo_adapter_client)\<rparr>"

definition demo_node_server :: PullerServer where
  "demo_node_server = \<lparr>ps_ext = demo_type_ext, ps_config = ep_config (NewPuller demo_around), ps_pull = ep_pull (NewPuller demo_around),
     ps_stack = ep_stack (NewPuller demo_around), ps_runtime = demo_adapter_client\<rparr>"

lemma demo_node_starts:
  "triton_start demo_node (demo_os demo_two_models) = (Ok demo_started, demo_os demo_two_models)"
  "NewPullerServer demo_node (demo_os demo_two_models) = (Ok (\<lparr>psc_Port = 8084, psc_ModelServerEndpoint = ''port:8085''\<rparr>, NewPuller demo_node), demo_os demo_two_models)"
  "StartServer_connect demo_node \<lparr>psc_Port = 8084, psc_ModelServerEndpoint = ''port:8085''\<rparr> (NewPuller demo_node) (demo_os demo_two_models) =
     (Ok demo_node_server, demo_os demo_two_models)"
proof -
  let ?s = "demo_os demo_two_models"
  have p: "NewPuller demo_node = NewPuller demo_around" by (simp add: NewPuller_def NewPullerFromConfig_def demo_node_def)
  have "fst (triton_GetAdapterConfigurationFromEnv demo_type_ext demo_small_env ?s) = Ok demo_started_config" by code_simp
  moreover have "snd (triton_GetAdapterConfigurationFromEnv demo_type_ext demo_small_env ?s) = ?s"
    by (simp add: triton_GetAdapterConfigurationFromEnv_def andThen_def lift_res_def SecureJoin_def split: prod.split res.split)
  ultimately have "triton_GetAdapterConfigurationFromEnv demo_type_ext demo_small_env ?s = (Ok demo_started_config, ?s)" by (simp add: prod_eq_iff)
  then show "triton_start demo_node ?s = (Ok demo_started, ?s)"
    by (simp add: triton_start_def start_adapter_def or_exit_def NewTritonAdapterServer_def andThen_def attempt_def p)
      (simp add: demo_node_def demo_around_def demo_started_def)
  show "NewPullerServer demo_node ?s = (Ok (\<lparr>psc_Port = 8084, psc_ModelServerEndpoint = ''port:8085''\<rparr>, NewPuller demo_node), ?s)"
    by (simp add: NewPullerServer_def NewPullerServerFromConfig_def GetPullerServerConfigFromEnv_def demo_node_def demo_around_def demo_small_env_def
        GetEnvInt_def GetEnvString_def andThen_def)
  have "ResolveLocalGrpcEndpoint ''port:8085'' = Ok (localhost 8085)" using port_endpoint [of 8085] unfolding default_ports by simp
  then show "StartServer_connect demo_node \<lparr>psc_Port = 8084, psc_ModelServerEndpoint = ''port:8085''\<rparr> (NewPuller demo_node) ?s = (Ok demo_node_server, ?s)"
    by (simp add: StartServer_connect_def or_exit_def andThen_def attempt_def p) (simp add: demo_node_def demo_around_def demo_node_server_def)
qed

theorem environment_makes_model_server_witness: "model_server demo_node_server (Triton demo_started) [''models'']"
proof -
  let ?s = "demo_os demo_two_models" and ?c = "\<lparr>psc_Port = 8084, psc_ModelServerEndpoint = ''port:8085''\<rparr>"
  have W: "su_ext demo_node = demo_type_ext" "su_env demo_node = demo_small_env"
    "su_pull demo_node = azure_Pull demo_sdk demo_type_ext (AzNoCredential ''u'')" "su_dial_runtime demo_node (localhost 8085) = Ok demo_adapter_client"
    by (simp_all add: demo_node_def demo_around_def)
  have E: "GetEnvString demo_small_env ''ROOT_MODEL_DIR'' ''/models'' = path_str [''models'']"
    "GetEnvString demo_small_env ''MODEL_SERVER_ENDPOINT'' ''port:8085'' = ''port:'' @ sprint_d 8085"
    "GetEnvInt demo_small_env ''ADAPTER_PORT'' 8085 = Ok 8085" "GetEnvBool demo_small_env ''USE_EMBEDDED_PULLER'' False = Ok False"
    unfolding default_ports by (simp_all add: demo_small_env_def GetEnvString_def GetEnvInt_def GetEnvBool_def path_str_def)
  have v: "volume_ok (Triton demo_started) [''models''] (files ?s)"
    using demo_two_models_ok by (simp add: volume_ok_def demo_os_def)
  have r: "runtime_readonly (Triton demo_started)" "list_all plain_name [''models'']"
    using demo_client_laws by (simp_all add: demo_started_def plain_name_def)
  have "model_server demo_node_server (Triton demo_started) [''models''] \<and> ps_runtime demo_node_server = demo_adapter_client \<and>
      su_listen demo_node (localhost 8085) = Ok () \<and> 0 \<le> ac_ContainerMemReqBytes (adapter_config (Triton demo_started))"
    using environment_makes_model_server [of demo_node "[''models'']" ?s "Triton demo_started" "\<lambda>X. azure_Pull demo_sdk X (AzNoCredential ''u'')" ?s
        ?s ?c "NewPuller demo_node" ?s demo_node_server ?s 8085 demo_adapter_client]
      demo_type_ext_laws(1,2) E W r volume_root [OF v] v [unfolded volume_ok_def] confined_pull_bounded [OF azure_pull.scoped_pull_axioms] demo_node_starts
    by (simp add: demo_adapter_client_def)
  then show ?thesis by blast
qed

end
