(* ===== verification/StandIns.thy ===== *)
theory StandIns
  imports EntryPoints
begin

text \<open>
  The programs for trying an adapter by hand: the stand-ins for the model servers (\<open>mock_mlserver_server.go\<close>, \<open>mock_torchserve_server.go\<close>,
  \<open>mock_triton_server.go\<close>), which answer what gomock was told to, and the two clients (\<open>adapter_client.go\<close>, \<open>mesh_client.go\<close>).
\<close>

section \<open>Expected calls\<close>

text \<open>What a stand-in tells gomock to expect: a method that is answered alike every time, or one that is called once for each of the answers, in their order.\<close>

datatype 'm expectation =
    AnyTimes string 'm
  | InOrder string "'m list"

fun ex_method :: "'m expectation \<Rightarrow> string" where
  "ex_method (AnyTimes method r) = method"
| "ex_method (InOrder method rs) = method"

text \<open>
  The controller of gomock is an argument: from the expectations, the methods called before and the method that is called now it gives
  the answer, or the text with which it calls \<open>Fatalf\<close>. What it documents:
\<close>

type_synonym 'm gomock = "'m expectation list \<Rightarrow> string list \<Rightarrow> string \<Rightarrow> string + 'm"

definition gomock_laws :: "'m gomock \<Rightarrow> bool" where
  "gomock_laws G \<longleftrightarrow> (\<forall>es before method.
     (\<forall>r. filter (\<lambda>e. ex_method e = method) es = [AnyTimes method r] \<longrightarrow> G es before method = Inr r) \<and>
     (\<forall>rs. filter (\<lambda>e. ex_method e = method) es = [InOrder method rs] \<longrightarrow>
        (let n = count_list before method in if n < length rs then G es before method = Inr (rs ! n) else \<exists>msg. G es before method = Inl msg)) \<and>
     (filter (\<lambda>e. ex_method e = method) es = [] \<longrightarrow> (\<exists>msg. G es before method = Inl msg)))"

text \<open>\<open>CustomReporter.Fatalf\<close> panics, which ends the stand-in; its caller gets the error of a connection that is lost.\<close>

definition Fatalf :: "string \<Rightarrow> 'a res" where
  "Fatalf errString = Panic errString"

definition mock_call :: "'m gomock \<Rightarrow> 'm expectation list \<Rightarrow> string list \<Rightarrow> string \<Rightarrow> 'm res" where
  "mock_call G es before method = (case G es before method of Inr r \<Rightarrow> Ok r | Inl msg \<Rightarrow> Fatalf msg)"

fun over_connection :: "goerr \<Rightarrow> 'a res \<Rightarrow> 'a res" where
  "over_connection lost (Panic msg) = Err lost"
| "over_connection lost r = r"

definition remote :: "goerr \<Rightarrow> (os, 'a) step \<Rightarrow> (os, 'a) step" where
  "remote lost m s = (over_connection lost (fst (m s)), snd (m s))"

definition standin_call :: "'m gomock \<Rightarrow> goerr \<Rightarrow> 'm expectation list \<Rightarrow> string list \<Rightarrow> string \<Rightarrow> (os, 'm) step" where
  "standin_call G lost es before method = lift_res (over_connection lost (mock_call G es before method))"

lemma standin_call_any:
  assumes "gomock_laws G" "filter (\<lambda>e. ex_method e = method) es = [AnyTimes method r]"
  shows "standin_call G lost es before method = ret r"
  using assms by (auto simp: gomock_laws_def standin_call_def mock_call_def)

lemma standin_call_in_order:
  assumes "gomock_laws G" "filter (\<lambda>e. ex_method e = method) es = [InOrder method rs]"
  shows "standin_call G lost es before method = (if count_list before method < length rs then ret (rs ! count_list before method) else fail_with lost)"
  using assms by (fastforce simp: gomock_laws_def standin_call_def mock_call_def Fatalf_def Let_def split: if_splits)

section \<open>MLServer\<close>

datatype mlserver_message =
    ServerLiveResponse bool
  | ServerReadyResponse bool
  | ServerMetadataResponse string
  | RepositoryIndexResponse "string list"
  | RepositoryModelLoadResponse
  | RepositoryModelUnloadResponse

definition mlserver_expectations :: "mlserver_message expectation list" where
  "mlserver_expectations =
     [AnyTimes ''ServerLive'' (ServerLiveResponse True), AnyTimes ''ServerReady'' (ServerReadyResponse True),
      AnyTimes ''ServerMetadata'' (ServerMetadataResponse []), AnyTimes ''RepositoryIndex'' (RepositoryIndexResponse []),
      AnyTimes ''RepositoryModelLoad'' RepositoryModelLoadResponse, AnyTimes ''RepositoryModelUnload'' RepositoryModelUnloadResponse]"

text \<open>The fields that the adapter reads of an answer.\<close>

fun msg_Ready :: "mlserver_message \<Rightarrow> bool" where
  "msg_Ready (ServerReadyResponse b) = b"
| "msg_Ready m = False"

fun msg_Models :: "mlserver_message \<Rightarrow> string list" where
  "msg_Models (RepositoryIndexResponse ms) = ms"
| "msg_Models m = []"

fun msg_Version :: "mlserver_message \<Rightarrow> string" where
  "msg_Version (ServerMetadataResponse v) = v"
| "msg_Version m = []"

definition mlserver_standin :: "mlserver_message gomock \<Rightarrow> goerr \<Rightarrow> string list \<Rightarrow> repository_client" where
  "mlserver_standin G lost before =
     (let call = standin_call G lost mlserver_expectations before
      in \<lparr>rc_ServerReady = andThen (call ''ServerReady'') (\<lambda>m. ret (msg_Ready m)),
          rc_RepositoryIndex = andThen (call ''RepositoryIndex'') (\<lambda>m. ret (msg_Models m)),
          rc_ModelLoad = (\<lambda>_. andThen (call ''RepositoryModelLoad'') (\<lambda>_. ret ())),
          rc_ModelUnload = (\<lambda>_. andThen (call ''RepositoryModelUnload'') (\<lambda>_. ret ())),
          rc_ServerMetadata = andThen (call ''ServerMetadata'') (\<lambda>m. ret (msg_Version m))\<rparr>)"

text \<open>The program goes on when the port is taken, and then serves on a listener that is nil: that is the False of the result.\<close>

definition mlserver_standin_main :: "surroundings \<Rightarrow> bool \<times> mlserver_message expectation list" where
  "mlserver_standin_main W = (is_ok (su_listen W (localhost 8001)), mlserver_expectations)"

section \<open>TorchServe\<close>

definition in_quotes :: "string \<Rightarrow> string" where
  "in_quotes s = CHR 0x22 # s @ [CHR 0x22]"

text \<open>
  The answers are texts; \<open>before\<close> are the methods that were called before the current request of the adapter, which asks for at most one description.
  Of the two descriptions the first cannot be decoded, so that the adapter falls back to the size on disk.
\<close>

definition inference_expectations :: "string expectation list" where
  "inference_expectations = [AnyTimes ''Ping'' (''{'' @ in_quotes ''status'' @ '': '' @ in_quotes ''Healthy'' @ ''}'')]"

definition management_expectations :: "string expectation list" where
  "management_expectations =
     [InOrder ''DescribeModel'' [''[invalid json]'',
        ''[{'' @ in_quotes ''workers'' @ '':[{'' @ in_quotes ''memoryUsage'' @ '':11111}]}]''],
      AnyTimes ''ListModels'' ''{}'',
      AnyTimes ''RegisterModel'' (''Model '' @ in_quotes ''test-pt-model'' @ '' Version: 1.0 registered with 1 initial workers''),
      AnyTimes ''UnregisterModel'' (''Model '' @ in_quotes ''test-pt-model'' @ '' unregistered'')]"

definition torchserve_standin :: "string gomock \<Rightarrow> goerr \<Rightarrow> string list \<Rightarrow> torchserve_client" where
  "torchserve_standin G lost before =
     (let call = standin_call G lost management_expectations before
      in \<lparr>ts_GetState = ret Connected, ts_Dial = (\<lambda>_. ret ()),
          ts_Ping = standin_call G lost inference_expectations before ''Ping'',
          ts_RegisterModel = (\<lambda>_. andThen (call ''RegisterModel'') (\<lambda>_. ret ())),
          ts_UnregisterModel = (\<lambda>_. andThen (call ''UnregisterModel'') (\<lambda>_. ret ())),
          ts_ListModels = (\<lambda>_. call ''ListModels''), ts_DescribeModel = (\<lambda>_. call ''DescribeModel''), ts_Wait = ret ()\<rparr>)"

text \<open>
  \<open>serve\<close> returns when its port is taken. The management interface is served in the background; the program ends with the inference
  interface, so what is served is nothing, or the inference interface with or without the other.
\<close>

definition standin_serve :: "surroundings \<Rightarrow> int \<Rightarrow> 'm expectation list \<Rightarrow> 'm expectation list option" where
  "standin_serve W port es = (if is_ok (su_listen W (localhost port)) then Some es else None)"

definition torchserve_standin_main :: "surroundings \<Rightarrow> (string expectation list \<times> string expectation list option) option" where
  "torchserve_standin_main W =
     (case standin_serve W 7070 inference_expectations of
        None \<Rightarrow> None | Some i \<Rightarrow> Some (i, standin_serve W 7071 management_expectations))"

section \<open>Triton\<close>

text \<open>
  The stand-in registers a struct whose embedded mock is nil. The methods of the mock start by reading its controller, so every one of them panics.
\<close>

definition triton_mock_call :: "'m res" where
  "triton_mock_call = Panic ''runtime error: invalid memory address or nil pointer dereference''"

definition triton_standin :: "goerr \<Rightarrow> repository_client" where
  "triton_standin lost =
     \<lparr>rc_ServerReady = lift_res (over_connection lost triton_mock_call), rc_RepositoryIndex = lift_res (over_connection lost triton_mock_call),
      rc_ModelLoad = (\<lambda>_. lift_res (over_connection lost triton_mock_call)), rc_ModelUnload = (\<lambda>_. lift_res (over_connection lost triton_mock_call)),
      rc_ServerMetadata = lift_res (over_connection lost triton_mock_call)\<rparr>"

definition triton_standin_main :: "surroundings \<Rightarrow> (os, unit) step" where
  "triton_standin_main W = andThen (or_exit (lift_res (su_listen W (localhost 8001)))) (\<lambda>_. ret ())"

section \<open>The clients\<close>

text \<open>The client of an adapter: status, load and unload of one model. What it logs is the result.\<close>

definition tfmnist_request :: LoadModelRequest where
  "tfmnist_request = \<lparr>ModelId = ''tfmnist'', ModelType = [], ModelPath = ''empty'', ModelKey = []\<rparr>"

definition adapter_client_main :: "surroundings \<Rightarrow> (os, RuntimeStatusResponse \<times> LoadModelResponse) step" where
  "adapter_client_main W =
     andThen (or_exit (lift_res (su_dial_runtime W ''localhost:8085''))) (\<lambda>c.
     andThen (or_exit (rt_RuntimeStatus c)) (\<lambda>resp1.
     andThen (or_exit (rt_LoadModel c tfmnist_request)) (\<lambda>resp2.
     andThen (or_exit (rt_UnloadModel c ''tfmnist'')) (\<lambda>resp3.
     ret (resp1, resp2)))))"

text \<open>The client of model mesh, which is not part of the repository: the calls that the program makes of it.\<close>

datatype ModelStatus = NOT_FOUND | NOT_LOADED | LOADING | LOADED | LOADING_FAILED | UNKNOWN

record ModelInfo =
  mi_Path :: string
  mi_Type :: string
  mi_Key :: string

record mesh_RegisterModelRequest =
  mr_ModelId :: string
  mr_ModelInfo :: ModelInfo
  mr_LoadNow :: bool
  mr_Sync :: bool

record mesh_client =
  mc_RegisterModel :: "mesh_RegisterModelRequest \<Rightarrow> (os, ModelStatus) step"
  mc_GetModelStatus :: "string \<Rightarrow> (os, ModelStatus) step"
  mc_UnregisterModel :: "string \<Rightarrow> (os, unit) step"

definition tfmnist_registration :: mesh_RegisterModelRequest where
  "tfmnist_registration = \<lparr>mr_ModelId = ''tfmnist'',
     mr_ModelInfo = \<lparr>mi_Path = ''1/model.savedmodel'', mi_Type = ''tf'',
       mi_Key = ''{'' @ in_quotes ''storage_key'' @ '':'' @ in_quotes ''myStorage'' @ '','' @ in_quotes ''bucket'' @ '':'' @ in_quotes ''triton-models'' @ ''}''\<rparr>,
     mr_LoadNow = True, mr_Sync = True\<rparr>"

definition mesh_client_main :: "(string \<Rightarrow> mesh_client res) \<Rightarrow> (os, ModelStatus \<times> ModelStatus) step" where
  "mesh_client_main dial =
     andThen (or_exit (lift_res (dial ''localhost:8033''))) (\<lambda>c.
     andThen (or_exit (mc_RegisterModel c tfmnist_registration)) (\<lambda>resp1.
     if resp1 \<noteq> LOADED then lift_res os_Exit
     else andThen (or_exit (mc_GetModelStatus c ''tfmnist'')) (\<lambda>resp2.
       andThen (or_exit (mc_UnregisterModel c ''tfmnist'')) (\<lambda>resp3. ret (resp1, resp2)))))"

section \<open>The stand-ins as model servers\<close>

text \<open>How the JSON parser reads the texts of the TorchServe stand-in.\<close>

definition texts_decoded :: "ext \<Rightarrow> bool" where
  "texts_decoded X \<longleftrightarrow>
     x_parse X (''{'' @ in_quotes ''status'' @ '': '' @ in_quotes ''Healthy'' @ ''}'') = Some (JObj [(''status'', JStr ''Healthy'')]) \<and>
     x_parse X ''{}'' = Some (JObj []) \<and> x_parse X ''[invalid json]'' = None \<and>
     x_parse X (''[{'' @ in_quotes ''workers'' @ '':[{'' @ in_quotes ''memoryUsage'' @ '':11111}]}]'') =
       Some (JArr [JObj [(''workers'', JArr [JObj [(''memoryUsage'', JNum (NInt 11111))]])]])"

lemma mlserver_standin_calls:
  assumes "gomock_laws G"
  shows "mlserver_standin G lost before =
    \<lparr>rc_ServerReady = ret True, rc_RepositoryIndex = ret [], rc_ModelLoad = (\<lambda>_. ret ()), rc_ModelUnload = (\<lambda>_. ret ()), rc_ServerMetadata = ret []\<rparr>"
  using assms by (simp add: mlserver_standin_def standin_call_any mlserver_expectations_def Let_def fun_eq_iff andThen_def)

lemma mlserver_standin_works:
  assumes "gomock_laws G"
  shows "client_works (mlserver_standin G lost before) [] []" "client_readonly (mlserver_standin G lost before)"
  by (simp_all add: mlserver_standin_calls [OF assms] client_works_def client_readonly_def keeps_def runs_def)

lemma torchserve_standin_calls:
  assumes "gomock_laws G"
  shows "ts_GetState (torchserve_standin G lost before) = ret Connected" "ts_Dial (torchserve_standin G lost before) = (\<lambda>_. ret ())"
    "ts_Ping (torchserve_standin G lost before) = ret (''{'' @ in_quotes ''status'' @ '': '' @ in_quotes ''Healthy'' @ ''}'')"
    "ts_RegisterModel (torchserve_standin G lost before) = (\<lambda>_. ret ())" "ts_UnregisterModel (torchserve_standin G lost before) = (\<lambda>_. ret ())"
    "ts_ListModels (torchserve_standin G lost before) = (\<lambda>_. ret ''{}'')"
    "ts_DescribeModel (torchserve_standin G lost before) = (\<lambda>_.
      let n = count_list before ''DescribeModel''
      in if n = 0 then ret ''[invalid json]''
         else if n = 1 then ret (''[{'' @ in_quotes ''workers'' @ '':[{'' @ in_quotes ''memoryUsage'' @ '':11111}]}]'') else fail_with lost)"
proof -
  note any = standin_call_any [OF assms] and defs = torchserve_standin_def management_expectations_def inference_expectations_def Let_def
  show "ts_GetState (torchserve_standin G lost before) = ret Connected" "ts_Dial (torchserve_standin G lost before) = (\<lambda>_. ret ())"
    "ts_Ping (torchserve_standin G lost before) = ret (''{'' @ in_quotes ''status'' @ '': '' @ in_quotes ''Healthy'' @ ''}'')"
    "ts_RegisterModel (torchserve_standin G lost before) = (\<lambda>_. ret ())" "ts_UnregisterModel (torchserve_standin G lost before) = (\<lambda>_. ret ())"
    "ts_ListModels (torchserve_standin G lost before) = (\<lambda>_. ret ''{}'')"
    by (simp_all add: defs any fun_eq_iff andThen_def)
  show "ts_DescribeModel (torchserve_standin G lost before) = (\<lambda>_.
      let n = count_list before ''DescribeModel''
      in if n = 0 then ret ''[invalid json]''
         else if n = 1 then ret (''[{'' @ in_quotes ''workers'' @ '':[{'' @ in_quotes ''memoryUsage'' @ '':11111}]}]'') else fail_with lost)"
    by (simp add: defs standin_call_in_order [OF assms, where rs = "[_, _]"] less_Suc_eq fun_eq_iff)
qed

lemma torchserve_standin_works:
  assumes "gomock_laws G" "texts_decoded X"
  shows "torchserve_works X (torchserve_standin G lost before) [([], 0)]" "torchserve_readonly (torchserve_standin G lost before)"
proof -
  have "Option.bind (x_parse X ''{}'') dec_modelListResp = Some ([], 0)"
    "Option.bind (x_parse X (''{'' @ in_quotes ''status'' @ '': '' @ in_quotes ''Healthy'' @ ''}'')) dec_healthStatus = Some ''Healthy''"
    using assms(2) by (simp_all add: texts_decoded_def) code_simp+
  then show "torchserve_works X (torchserve_standin G lost before) [([], 0)]" "torchserve_readonly (torchserve_standin G lost before)"
    by (simp_all add: torchserve_standin_calls [OF assms(1)] torchserve_works_def torchserve_readonly_def keeps_def runs_def)
qed

lemma standin_sizes:
  assumes "gomock_laws G" "texts_decoded (sa_ext T)" "sa_Client T = torchserve_standin G lost before"
  shows "torchserve_ModelSize T m s = (if count_list before ''DescribeModel'' = 1 then (Ok 12222, s) else modelSizeFromDisk T m s)"
proof -
  let ?d = "''[{'' @ in_quotes ''workers'' @ '':[{'' @ in_quotes ''memoryUsage'' @ '':11111}]}]''"
  have "described_memory (sa_ext T) ?d = Ok (worker_memory 0 [11111])"
    using assms(2) by (simp add: described_memory_def texts_decoded_def) code_simp
  then have "memory_attempts (sa_ext T) C ?d 16 s = (Ok 11111, s)" for C by (intro memory_attempts_pos) simp_all
  moreover have "described_memory (sa_ext T) ''[invalid json]'' = Err (ErrMsg ''Failed to parse DescribeModel response: %w: %s'' [''[invalid json]''])"
    using assms(2) by (simp add: described_memory_def texts_decoded_def)
  then have "\<exists>e. memory_attempts (sa_ext T) C ''[invalid json]'' 16 s = (Err e, s)" for C by (simp add: eval_nat_numeral andThen_def)
  then obtain e where "memory_attempts (sa_ext T) (torchserve_standin G lost before) ''[invalid json]'' 16 s = (Err e, s)" by blast
  ultimately show ?thesis
    by (auto simp: torchserve_ModelSize_def modelSizeFromTorchServe_def assms(3) torchserve_standin_calls [OF assms(1)] Let_def andThen_def attempt_def)
qed

lemma triton_standin_lost: "lift_res (over_connection lost triton_mock_call) = fail_with lost"
  by (simp add: triton_mock_call_def fun_eq_iff)

lemma triton_standin_never_loads:
  assumes "ta_Client R = triton_standin lost"
  shows "triton_RuntimeStatus R s = (Ok (status_only STARTING, R), s)" "\<not> is_ok (fst (triton_LoadModel R req s))"
proof -
  show "triton_RuntimeStatus R s = (Ok (status_only STARTING, R), s)"
    by (simp add: triton_RuntimeStatus_def assms triton_standin_def triton_standin_lost Let_def andThen_def attempt_def)
  have "triton_LoadModel R req s \<noteq> (Ok x, u)" for x u
    by (auto simp: triton_LoadModel_def assms triton_standin_def triton_standin_lost Let_def andThen_Ok_iff wrapErr_Ok_iff simp del: wrapErr_apply)
  then show "\<not> is_ok (fst (triton_LoadModel R req s))" by (metis is_ok.elims(2) prod.collapse)
qed

section \<open>Properties\<close>


section \<open>The theorem at work\<close>

definition demo_gomock :: "'m gomock" where
  "demo_gomock es before method = (case filter (\<lambda>e. ex_method e = method) es of
     [AnyTimes method' r] \<Rightarrow> Inr r
   | [InOrder method' rs] \<Rightarrow> if count_list before method < length rs then Inr (rs ! count_list before method) else Inl ''exhausted''
   | _ \<Rightarrow> Inl ''unexpected'')"

lemma demo_gomock_laws: "gomock_laws demo_gomock"
  by (simp add: gomock_laws_def demo_gomock_def Let_def)

definition demo_standin_ext :: ext where
  "demo_standin_ext = demo_ts_ext\<lparr>x_parse := (\<lambda>t.
     if t = ''{}'' then Some (JObj []) else if t = ''[invalid json]'' then None
     else if t = ''{'' @ in_quotes ''status'' @ '': '' @ in_quotes ''Healthy'' @ ''}'' then Some (JObj [(''status'', JStr ''Healthy'')])
     else if t = ''[{'' @ in_quotes ''workers'' @ '':[{'' @ in_quotes ''memoryUsage'' @ '':11111}]}]''
     then Some (JArr [JObj [(''workers'', JArr [JObj [(''memoryUsage'', JNum (NInt 11111))]])]])
     else x_parse demo_ts_ext t)\<rparr>"

lemma demo_standin_texts: "texts_decoded demo_standin_ext"
  by (simp add: texts_decoded_def demo_standin_ext_def in_quotes_def)

definition demo_standin_ts :: TorchServeAdapterServer where
  "demo_standin_ts = demo_ts\<lparr>sa_ext := demo_standin_ext, sa_Client := torchserve_standin demo_gomock (ErrMsg ''lost'' []) [''DescribeModel'']\<rparr>"


end
